(* ===== verification/Boot_Prelude.thy ===== *)
theory Boot_Prelude
  imports
    Main
    "HOL-Library.Word"
    "HOL-Library.Monad_Syntax"
    "HOL-Library.Sublist"
begin

text \<open>
  Shared ground of the development: the machine types of the C sources, byte-addressed
  objects, the C library routines the boot code calls (\<^verbatim>\<open>memset\<close>, \<^verbatim>\<open>memcpy\<close>,
  \<^verbatim>\<open>strcmp\<close>, \<^verbatim>\<open>strncmp\<close>, \<^verbatim>\<open>strlen\<close>, number parsing and printing) and the lemmas
  about them that every component uses.

  Undefined behaviour is a value.  Every routine that touches an object returns an
  \<open>option\<close>: \<open>None\<close> means that the C code reads or writes outside the object it was
  given (or dereferences a null pointer), \<open>Some\<close> is a normal return.
\<close>

section \<open>Machine types\<close>

unbundle bit_operations_syntax

type_synonym byte = "8 word"
type_synonym u16 = "16 word"
type_synonym u32 = "32 word"
type_synonym u64 = "64 word"

text \<open>The contents of a C object: a byte at every offset.  The object's size is passed
  beside it, so that a bounds violation is visible.\<close>

type_synonym mem = "nat \<Rightarrow> byte"

text \<open>A C string literal as its bytes, without the terminating NUL.\<close>

definition cstr :: "string \<Rightarrow> byte list" where
  "cstr s = map of_char s"

text \<open>A list of bytes that is a C string: no NUL before its end.\<close>

definition is_cstr :: "byte list \<Rightarrow> bool" where
  "is_cstr s \<longleftrightarrow> 0 \<notin> set s"

named_theorems c_mem \<open>definitions of the C memory routines\<close>
named_theorems c_inv \<open>introduction of the components' invariants\<close>

section \<open>Access to an object of a given size\<close>

definition rd :: "nat \<Rightarrow> mem \<Rightarrow> nat \<Rightarrow> byte option" where
  "rd n m i = (if i < n then Some (m i) else None)"

definition memset :: "nat \<Rightarrow> mem \<Rightarrow> nat \<Rightarrow> byte \<Rightarrow> nat \<Rightarrow> mem option" where
  "memset n m d c k =
     (if d + k \<le> n then Some (\<lambda>i. if d \<le> i \<and> i < d + k then c else m i) else None)"

text \<open>\<open>memcpy\<close> of the bytes \<open>xs\<close> to offset \<open>d\<close>, and \<open>memcpy\<close> of \<open>k\<close> bytes
  from offset \<open>s\<close>.\<close>

definition memcpy_to :: "nat \<Rightarrow> mem \<Rightarrow> nat \<Rightarrow> byte list \<Rightarrow> mem option" where
  "memcpy_to n m d xs =
     (if d + length xs \<le> n
      then Some (\<lambda>i. if d \<le> i \<and> i < d + length xs then xs ! (i - d) else m i) else None)"

definition memcpy_from :: "nat \<Rightarrow> mem \<Rightarrow> nat \<Rightarrow> nat \<Rightarrow> byte list option" where
  "memcpy_from n m s k = (if s + k \<le> n then Some (map m [s..<s + k]) else None)"

text \<open>Little-endian 32-bit fields.\<close>

definition le32 :: "byte \<Rightarrow> byte \<Rightarrow> byte \<Rightarrow> byte \<Rightarrow> u32" where
  "le32 a b c d =
     ucast a OR push_bit 8 (ucast b) OR push_bit 16 (ucast c) OR push_bit 24 (ucast d)"

definition bytes32 :: "u32 \<Rightarrow> byte list" where
  "bytes32 w = [ucast w, ucast (drop_bit 8 w), ucast (drop_bit 16 w), ucast (drop_bit 24 w)]"

definition ld32 :: "nat \<Rightarrow> mem \<Rightarrow> nat \<Rightarrow> u32 option" where
  "ld32 n m i =
     (if i + 4 \<le> n then Some (le32 (m i) (m (i + 1)) (m (i + 2)) (m (i + 3))) else None)"

definition st32 :: "nat \<Rightarrow> mem \<Rightarrow> nat \<Rightarrow> u32 \<Rightarrow> mem option" where
  "st32 n m i w = memcpy_to n m i (bytes32 w)"

text \<open>Equality outcome of \<open>strcmp\<close> between a C string and the bytes at an offset, and of
  \<open>strncmp\<close> with a count that is the literal's own length.\<close>

fun strcmp_at :: "nat \<Rightarrow> mem \<Rightarrow> nat \<Rightarrow> byte list \<Rightarrow> bool option" where
  "strcmp_at n m i [] = do { c \<leftarrow> rd n m i; Some (c = 0) }"
| "strcmp_at n m i (x # xs) =
     do { c \<leftarrow> rd n m i; if c = x then strcmp_at n m (Suc i) xs else Some False }"

fun strneq_at :: "nat \<Rightarrow> mem \<Rightarrow> nat \<Rightarrow> byte list \<Rightarrow> bool option" where
  "strneq_at n m i [] = Some True"
| "strneq_at n m i (x # xs) =
     do { c \<leftarrow> rd n m i; if c = x then strneq_at n m (Suc i) xs else Some False }"

text \<open>\<open>strlen\<close> of the string at an offset: undefined when no NUL follows in the object.\<close>

function strlen_at :: "nat \<Rightarrow> mem \<Rightarrow> nat \<Rightarrow> nat option" where
  "strlen_at n m i =
     (if i < n then if m i = 0 then Some 0 else map_option Suc (strlen_at n m (Suc i))
      else None)"
  by pat_completeness auto
termination
  by (relation "measure (\<lambda>(n, m, i). n - i)") auto

declare strlen_at.simps [simp del]

text \<open>The C string at an offset, as a copying routine reads it.\<close>

definition cstr_at :: "nat \<Rightarrow> mem \<Rightarrow> nat \<Rightarrow> byte list option" where
  "cstr_at n m i = do { l \<leftarrow> strlen_at n m i; memcpy_from n m i l }"

text \<open>Access to a short object held as the list of its bytes: reading the first \<open>k\<close>
  bytes, overwriting from the start.\<close>

definition read_buf :: "byte list \<Rightarrow> nat \<Rightarrow> byte list option" where
  "read_buf xs k = (if k \<le> length xs then Some (take k xs) else None)"

definition write_buf :: "byte list \<Rightarrow> byte list \<Rightarrow> byte list option" where
  "write_buf buf xs =
     (if length xs \<le> length buf then Some (xs @ drop (length xs) buf) else None)"

text \<open>\<open>strncmp (a, b, k) == 0\<close> on two C strings.\<close>

definition strncmp_eq :: "byte list \<Rightarrow> byte list \<Rightarrow> nat \<Rightarrow> bool" where
  "strncmp_eq a b k \<longleftrightarrow> take k (a @ [0]) = take k (b @ [0])"

text \<open>The C string held in a buffer: the bytes before the first NUL, undefined when there
  is none.\<close>

definition buf_str :: "byte list \<Rightarrow> byte list option" where
  "buf_str buf = (if 0 \<in> set buf then Some (takeWhile (\<lambda>c. c \<noteq> 0) buf) else None)"

lemmas mem_defs [c_mem] = rd_def memset_def memcpy_to_def memcpy_from_def ld32_def st32_def

section \<open>Lemmas on memory\<close>

lemma le32_bytes32_raw:
  "le32 (ucast w) (ucast (drop_bit 8 w)) (ucast (drop_bit 16 w)) (ucast (drop_bit 24 w)) = w"
proof (rule bit_word_eqI)
  fix k assume k: "k < LENGTH(32)"
  then have "k < 8 \<or> (8 \<le> k \<and> k < 16) \<or> (16 \<le> k \<and> k < 24) \<or> (24 \<le> k \<and> k < 32)"
    by (simp, linarith)
  with k show "bit (le32 (ucast w) (ucast (drop_bit 8 w)) (ucast (drop_bit 16 w))
      (ucast (drop_bit 24 w))) k \<longleftrightarrow> bit w k"
    unfolding le32_def
    by (elim disjE conjE; simp add: bit_simps less_diff_conv2; (auto simp: less_diff_conv2)?)
qed

lemma le32_bytes32 [simp]:
  "le32 (bytes32 w ! 0) (bytes32 w ! Suc 0) (bytes32 w ! 2) (bytes32 w ! 3) = w"
  by (simp add: bytes32_def le32_bytes32_raw)

lemma length_bytes32 [simp]: "length (bytes32 w) = 4"
  by (simp add: bytes32_def)

lemma memset_Some [simp]:
  "memset n m d c k = Some m' \<longleftrightarrow>
     d + k \<le> n \<and> m' = (\<lambda>i. if d \<le> i \<and> i < d + k then c else m i)"
  by (auto simp: memset_def)

lemma memcpy_to_Some [simp]:
  "memcpy_to n m d xs = Some m' \<longleftrightarrow>
     d + length xs \<le> n \<and>
     m' = (\<lambda>i. if d \<le> i \<and> i < d + length xs then xs ! (i - d) else m i)"
  by (auto simp: memcpy_to_def)

lemma memcpy_from_Some [simp]:
  "memcpy_from n m s k = Some xs \<longleftrightarrow> s + k \<le> n \<and> xs = map m [s..<s + k]"
  by (auto simp: memcpy_from_def)

lemma map_upt_eq_list:
  "map m [s..<s + length xs] = xs \<longleftrightarrow> (\<forall>i < length xs. m (s + i) = xs ! i)"
  by (subst list_eq_iff_nth_eq) simp

lemma ld32_cong:
  assumes "\<And>j. i \<le> j \<Longrightarrow> j < i + 4 \<Longrightarrow> m j = m' j"
  shows "ld32 n m i = ld32 n m' i"
  using assms by (simp add: ld32_def)

lemma strcmp_at_cong:
  assumes "\<And>j. i \<le> j \<Longrightarrow> j \<le> i + length s \<Longrightarrow> m j = m' j"
  shows "strcmp_at n m i s = strcmp_at n m' i s"
  using assms
proof (induction s arbitrary: i)
  case Nil
  then show ?case by (simp add: rd_def)
next
  case (Cons x xs)
  have "strcmp_at n m (Suc i) xs = strcmp_at n m' (Suc i) xs"
    by (rule Cons.IH) (use Cons.prems in auto)
  moreover have "m i = m' i" using Cons.prems by auto
  ultimately show ?case by (simp add: rd_def)
qed

lemma strneq_at_iff:
  assumes "i + length s \<le> n"
  shows "strneq_at n m i s = Some (\<forall>j < length s. m (i + j) = s ! j)"
  using assms
proof (induction s arbitrary: i)
  case Nil
  then show ?case by simp
next
  case (Cons x xs)
  have IH: "strneq_at n m (Suc i) xs = Some (\<forall>j < length xs. m (Suc i + j) = xs ! j)"
    by (rule Cons.IH) (use Cons.prems in simp)
  have split: "(\<forall>j < length (x # xs). m (i + j) = (x # xs) ! j) \<longleftrightarrow>
      m i = x \<and> (\<forall>j < length xs. m (Suc i + j) = xs ! j)"
    by (auto simp: All_less_Suc2)
  show ?case
    using Cons.prems by (simp only: split) (simp add: rd_def IH)
qed

text \<open>A field of \<open>w\<close> bytes that holds a NUL-terminated name.\<close>

definition name_field :: "mem \<Rightarrow> nat \<Rightarrow> nat \<Rightarrow> byte list \<Rightarrow> bool" where
  "name_field m off w s \<longleftrightarrow>
     is_cstr s \<and> length s < w \<and>
     (\<forall>i < w. m (off + i) = (if i < length s then s ! i else 0))"

lemma name_field_Cons:
  assumes "name_field m off w (x # xs)"
  shows "m off = x" "x \<noteq> 0" "name_field m (Suc off) (w - 1) xs"
proof -
  have all: "\<And>i. i < w \<Longrightarrow> m (off + i) = (if i < length (x # xs) then (x # xs) ! i else 0)"
    and len: "length (x # xs) < w" and nz: "is_cstr (x # xs)"
    using assms by (auto simp: name_field_def)
  show "m off = x" using all [of 0] len by simp
  show "x \<noteq> 0" using nz by (auto simp: is_cstr_def)
  have "m (Suc off + i) = (if i < length xs then xs ! i else 0)" if "i < w - 1" for i
    using all [of "Suc i"] that by simp
  then show "name_field m (Suc off) (w - 1) xs"
    using len nz by (auto simp: name_field_def is_cstr_def)
qed

lemma strcmp_at_name_field:
  assumes "name_field m off w s" "is_cstr t" "off + w \<le> n"
  shows "strcmp_at n m off t = Some (t = s)"
  using assms
proof (induction t arbitrary: off w s)
  case Nil
  have "m off = (if s = [] then 0 else s ! 0)" "off < n"
    using Nil.prems by (auto simp: name_field_def dest: spec [of _ 0])
  moreover have "s \<noteq> [] \<Longrightarrow> s ! 0 \<noteq> 0"
    using Nil.prems(1) by (cases s) (auto simp: name_field_def is_cstr_def)
  ultimately show ?case by (auto simp: rd_def)
next
  case (Cons x xs)
  have x: "x \<noteq> 0" and xs: "is_cstr xs" using Cons.prems(2) by (auto simp: is_cstr_def)
  have off: "off < n" using Cons.prems by (auto simp: name_field_def)
  show ?case
  proof (cases s)
    case Nil
    then have "m off = 0" using Cons.prems(1) by (auto simp: name_field_def dest: spec [of _ 0])
    then show ?thesis using off x Nil by (simp add: rd_def)
  next
    case (Cons y ys)
    with Cons.prems(1) have y: "m off = y" "name_field m (Suc off) (w - 1) ys"
      by (auto dest: name_field_Cons)
    have "Suc off + (w - 1) \<le> n"
      using Cons.prems(1,3) by (auto simp: name_field_def)
    then have "strcmp_at n m (Suc off) xs = Some (xs = ys)"
      using Cons.IH [OF y(2) xs] by simp
    then show ?thesis using off y Cons by (auto simp: rd_def)
  qed
qed

lemma name_field_inj:
  assumes "name_field m off w s" "name_field m off w t"
  shows "s = t"
proof -
  have "strcmp_at (off + w) m off t = Some (t = s)"
    using assms by (intro strcmp_at_name_field) (auto simp: name_field_def)
  moreover have "strcmp_at (off + w) m off t = Some (t = t)"
    using assms by (intro strcmp_at_name_field) (auto simp: name_field_def)
  ultimately show ?thesis by simp
qed

lemma strlen_at_exists:
  assumes "i \<le> j" "j < n" "m j = 0"
  shows "\<exists>k. strlen_at n m i = Some k"
  using assms
proof (induction "j - i" arbitrary: i)
  case 0
  then show ?case by (subst strlen_at.simps) auto
next
  case (Suc d)
  then have "\<exists>k. strlen_at n m (Suc i) = Some k" by (intro Suc.hyps) auto
  then show ?case using Suc.prems by (subst strlen_at.simps) auto
qed

lemma strlen_at_name_field:
  assumes "name_field m off w s" "off + w \<le> n"
  shows "strlen_at n m off = Some (length s)"
  using assms
proof (induction s arbitrary: off w)
  case Nil
  then have "m off = 0" "off < n" by (auto simp: name_field_def dest: spec [of _ 0])
  then show ?case by (subst strlen_at.simps) simp
next
  case (Cons x xs)
  from Cons.prems(1) have x: "m off = x" "x \<noteq> 0" "name_field m (Suc off) (w - 1) xs"
    by (auto dest: name_field_Cons)
  have "off < n" "Suc off + (w - 1) \<le> n"
    using Cons.prems by (auto simp: name_field_def)
  with Cons.IH [OF x(3)] x show ?case by (subst strlen_at.simps) simp
qed

lemma name_field_cong:
  assumes "\<And>j. off \<le> j \<Longrightarrow> j < off + w \<Longrightarrow> m j = m' j"
  shows "name_field m off w s = name_field m' off w s"
  using assms by (auto simp: name_field_def)

lemma is_cstr_nth: "is_cstr s \<Longrightarrow> j < length s \<Longrightarrow> s ! j \<noteq> 0"
  by (metis is_cstr_def nth_mem)

lemma strlen_at_bound: "strlen_at n m i = Some l \<Longrightarrow> i + l < n"
proof (induction n m i arbitrary: l rule: strlen_at.induct)
  case (1 n m i)
  then show ?case
    by (subst (asm) (2) strlen_at.simps) (force split: if_splits)
qed

lemma cstr_at_name_field:
  assumes nf: "name_field m k w s" and k: "k + w \<le> n"
  shows "cstr_at n m k = Some s"
proof -
  have "map m [k..<k + length s] = s"
    using nf by (simp add: map_upt_eq_list name_field_def)
  then show ?thesis
    using strlen_at_name_field [OF nf k] k nf by (simp add: cstr_at_def memcpy_from_def name_field_def)
qed

lemma cstr_at_exists:
  assumes "k < n" "m (n - 1) = 0"
  shows "\<exists>v. cstr_at n m k = Some v"
proof -
  obtain l where l: "strlen_at n m k = Some l"
    using strlen_at_exists [of k "n - 1" n m] assms by fastforce
  then show ?thesis
    using strlen_at_bound [OF l] by (simp add: cstr_at_def memcpy_from_def)
qed

end
