(* ===== verification/Store_Spec.thy ===== *)
theory Store_Spec
  imports Main
begin

text \<open>
  The contract of a named-item store with items of fixed size, as its clients use it: a write
  to a known name succeeds, cuts or pads the value to the item's size and changes no other
  item; a write to an unknown name is refused.  The byte-level IDME buffer and the persistent
  IDME store on the boot partition are both shown to satisfy it.
\<close>

definition pad_to :: "'v \<Rightarrow> nat \<Rightarrow> 'v list \<Rightarrow> 'v list" where
  "pad_to c k v = take k v @ replicate (k - length v) c"

fun run_writes :: "('s \<Rightarrow> 'n \<Rightarrow> 'v list \<Rightarrow> 's option) \<Rightarrow> 's \<Rightarrow> ('n \<times> 'v list) list \<Rightarrow> 's option" where
  "run_writes put s [] = Some s"
| "run_writes put s ((n, v) # ops) =
     (case put s n v of None \<Rightarrow> None | Some s' \<Rightarrow> run_writes put s' ops)"

lemma length_pad_to [simp]: "length (pad_to c k v) = k"
  by (simp add: pad_to_def)

lemma pad_to_idem: "length v = k \<Longrightarrow> pad_to c k v = v"
  by (simp add: pad_to_def)

locale item_store =
  fixes invar :: "'s \<Rightarrow> bool"
    and nameok :: "'n \<Rightarrow> bool"
    and size_of :: "'s \<Rightarrow> 'n \<Rightarrow> nat option"
    and fetch :: "'s \<Rightarrow> 'n \<Rightarrow> 'v list option"
    and put :: "'s \<Rightarrow> 'n \<Rightarrow> 'v list \<Rightarrow> 's option"
    and pad :: "'v"
  assumes write_total: "invar s \<Longrightarrow> nameok n \<Longrightarrow> size_of s n \<noteq> None \<Longrightarrow> put s n v \<noteq> None"
    and write_unknown: "invar s \<Longrightarrow> nameok n \<Longrightarrow> size_of s n = None \<Longrightarrow> put s n v = None"
    and write_invar: "invar s \<Longrightarrow> nameok n \<Longrightarrow> put s n v = Some s' \<Longrightarrow> invar s'"
    and write_size: "invar s \<Longrightarrow> nameok n \<Longrightarrow> nameok n' \<Longrightarrow> put s n v = Some s' \<Longrightarrow>
      size_of s' n' = size_of s n'"
    and read_same: "invar s \<Longrightarrow> nameok n \<Longrightarrow> put s n v = Some s' \<Longrightarrow> size_of s n = Some k \<Longrightarrow>
      fetch s' n = Some (pad_to pad k v)"
    and read_other: "invar s \<Longrightarrow> nameok n \<Longrightarrow> nameok n' \<Longrightarrow> n' \<noteq> n \<Longrightarrow> put s n v = Some s' \<Longrightarrow>
      fetch s' n' = fetch s n'"
begin

lemma write_outcome: "invar s \<Longrightarrow> nameok n \<Longrightarrow> (\<exists>s'. put s n v = Some s') \<longleftrightarrow> size_of s n \<noteq> None"
  using write_total write_unknown by (cases "size_of s n") fastforce+

lemma read_after_write:
  assumes "invar s" "nameok n" "nameok n'" "put s n v = Some s'"
  shows "fetch s' n' = (if n' = n then map_option (\<lambda>k. pad_to pad k v) (size_of s n) else fetch s n')"
proof -
  obtain k where "size_of s n = Some k"
    using assms write_unknown by (cases "size_of s n") auto
  then show ?thesis using assms read_same read_other by auto
qed

lemma run_writes_total:
  assumes "invar s" "\<forall>(n, v) \<in> set ops. nameok n \<and> size_of s n \<noteq> None"
  shows "\<exists>s'. run_writes put s ops = Some s' \<and> invar s' \<and> (\<forall>n. nameok n \<longrightarrow> size_of s' n = size_of s n)"
  using assms
proof (induction ops arbitrary: s)
  case Nil
  then show ?case by simp
next
  case (Cons op ops)
  obtain n v where op: "op = (n, v)" by (cases op)
  have n: "nameok n" "size_of s n \<noteq> None" using Cons.prems(2) op by auto
  then obtain s1 where s1: "put s n v = Some s1" using write_total Cons.prems(1) by blast
  have sz: "size_of s1 n' = size_of s n'" if "nameok n'" for n'
    using write_size [OF Cons.prems(1) n(1) that s1] .
  have "invar s1" using write_invar Cons.prems(1) n(1) s1 by blast
  moreover have "\<forall>(n, v) \<in> set ops. nameok n \<and> size_of s1 n \<noteq> None" using Cons.prems(2) sz by auto
  ultimately show ?case using Cons.IH [of s1] s1 op sz by auto
qed

lemma run_writes_read:
  assumes "invar s" "\<forall>(n, v) \<in> set ops. nameok n \<and> size_of s n \<noteq> None" "run_writes put s ops = Some s'"
    and "nameok n" "size_of s n = Some k"
  shows "fetch s' n = (case map_of (rev ops) n of Some v \<Rightarrow> Some (pad_to pad k v) | None \<Rightarrow> fetch s n)"
  using assms(1-3,5)
proof (induction ops arbitrary: s)
  case Nil
  then show ?case by simp
next
  case (Cons op ops)
  obtain n1 v1 where op: "op = (n1, v1)" by (cases op)
  have n1: "nameok n1" "size_of s n1 \<noteq> None" using Cons.prems(2) op by auto
  obtain s1 where s1: "put s n1 v1 = Some s1" "run_writes put s1 ops = Some s'"
    using Cons.prems(3) op by (auto split: option.splits)
  have sz: "size_of s1 n' = size_of s n'" if "nameok n'" for n'
    using write_size [OF Cons.prems(1) n1(1) that s1(1)] .
  have "invar s1" using write_invar Cons.prems(1) n1(1) s1(1) by blast
  moreover have "\<forall>(n, v) \<in> set ops. nameok n \<and> size_of s1 n \<noteq> None" using Cons.prems(2) sz by auto
  moreover have "size_of s1 n = Some k" using sz assms(4) Cons.prems(4) by simp
  ultimately have "fetch s' n = (case map_of (rev ops) n of Some v \<Rightarrow> Some (pad_to pad k v) | None \<Rightarrow> fetch s1 n)"
    using Cons.IH s1(2) by blast
  moreover have "fetch s1 n = (if n = n1 then Some (pad_to pad k v1) else fetch s n)"
    using read_after_write [OF Cons.prems(1) n1(1) assms(4) s1(1)] Cons.prems(4) by auto
  ultimately show ?case by (auto simp: op map_add_def split: option.splits)
qed

end

end
