(* ===== verification/Idme_V2.thy ===== *)
theory Idme_V2
  imports Boot_Prelude Store_Spec
begin

text \<open>
  The IDME store: the table of per-device items (serial number, MAC addresses, boot mode,
  boot count, flags, unlock code) that the boot loader keeps in an eMMC boot partition.
  This theory models its byte layout and the version 2.x operations of
  \<^verbatim>\<open>features/idme/cmd_idme_v2_0.c\<close>, then states the abstract store (a list of named
  items) and proves that the byte-level operations implement it.

  A buffer is an object of \<open>CONFIG_IDME_SIZE\<close> bytes.  Its header is the magic number
  (8 bytes), the version (4 bytes) and the number of items (a 32-bit word); the items
  follow from offset 16, each a descriptor of 28 bytes (name, size, exportable, permission)
  with its data behind it, so that the next item starts where the previous data ends.
\<close>

section \<open>Layout\<close>

text \<open>The margo project builds with 256 eMMC blocks of 512 bytes.\<close>

definition CONFIG_IDME_SIZE :: nat where
  "CONFIG_IDME_SIZE = 512 * 256"

definition IDME_MAX_NAME_LEN :: nat where
  "IDME_MAX_NAME_LEN = 16"

definition IDME_MAGIC_NUMBER :: "byte list" where
  "IDME_MAGIC_NUMBER = cstr ''beefdeed''"

definition IDME_VERSION_2P0 :: "byte list" where
  "IDME_VERSION_2P0 = cstr ''2.0''"

definition IDME_VERSION_2P1 :: "byte list" where
  "IDME_VERSION_2P1 = cstr ''2.1''"

text \<open>Offsets inside \<open>struct idme_t\<close> and \<open>struct idme_desc\<close>.\<close>

abbreviation (input) off_version :: nat where "off_version \<equiv> 8"
abbreviation (input) off_items_num :: nat where "off_items_num \<equiv> 12"
abbreviation (input) off_item_data :: nat where "off_item_data \<equiv> 16"
abbreviation (input) off_size :: nat where "off_size \<equiv> 16"
abbreviation (input) off_exportable :: nat where "off_exportable \<equiv> 20"
abbreviation (input) off_permission :: nat where "off_permission \<equiv> 24"
abbreviation (input) sizeof_desc :: nat where "sizeof_desc \<equiv> 28"

text \<open>One entry of the default table, \<open>struct idme_init_values\<close>; a null \<open>value\<close> pointer
  is \<open>None\<close>.\<close>

record idme_init_values =
  init_name :: "byte list"
  init_size :: u32
  init_exportable :: u32
  init_permission :: u32
  init_value :: "byte list option"

section \<open>Operations\<close>

definition idme_check_magic_number :: "mem option \<Rightarrow> int option" where
  "idme_check_magic_number pidme =
     (case pidme of
        None \<Rightarrow> Some (-1)
      | Some m \<Rightarrow> do {
          eq \<leftarrow> strneq_at CONFIG_IDME_SIZE m 0 IDME_MAGIC_NUMBER;
          Some (if eq then 0 else -2) })"

text \<open>The macro \<open>IDME_ITEM_NEXT\<close>.\<close>

definition idme_item_next :: "mem \<Rightarrow> nat \<Rightarrow> nat option" where
  "idme_item_next m off = do {
     sz \<leftarrow> ld32 CONFIG_IDME_SIZE m (off + off_size);
     Some (off + sizeof_desc + unat sz) }"

text \<open>The macro \<open>IDME_ITEM_INIT\<close>.  The name and the value are given by their C strings;
  they are \<open>None\<close> when \<open>strlen\<close> of them is undefined (a null pointer, or no terminator),
  which matters only in the branch that evaluates them.\<close>

definition idme_item_init ::
  "mem \<Rightarrow> nat \<Rightarrow> byte list option \<Rightarrow> u32 \<Rightarrow> u32 \<Rightarrow> u32 \<Rightarrow> byte list option \<Rightarrow> mem option" where
  "idme_item_init m off item max_size export item_permission item_value =
     (if off + sizeof_desc + unat max_size > CONFIG_IDME_SIZE then Some m
      else do {
        m \<leftarrow> memset CONFIG_IDME_SIZE m (off + sizeof_desc) 0 (unat max_size);
        v \<leftarrow> item_value;
        m \<leftarrow> memcpy_to CONFIG_IDME_SIZE m (off + sizeof_desc) (take (min (unat max_size) (length v)) v);
        m \<leftarrow> memset CONFIG_IDME_SIZE m off 0 IDME_MAX_NAME_LEN;
        nm \<leftarrow> item;
        m \<leftarrow> memcpy_to CONFIG_IDME_SIZE m off (take (min IDME_MAX_NAME_LEN (length nm)) nm);
        m \<leftarrow> st32 CONFIG_IDME_SIZE m (off + off_size) max_size;
        m \<leftarrow> st32 CONFIG_IDME_SIZE m (off + off_exportable) export;
        st32 CONFIG_IDME_SIZE m (off + off_permission) item_permission })"

text \<open>The item loop every operation runs: at most \<open>k\<close> items from \<open>off\<close>, stopping at the
  first whose descriptor satisfies the comparison.\<close>

fun idme_walk :: "(nat \<Rightarrow> bool option) \<Rightarrow> mem \<Rightarrow> nat \<Rightarrow> nat \<Rightarrow> nat option option" where
  "idme_walk cmp m 0 off = Some None"
| "idme_walk cmp m (Suc k) off = do {
     hit \<leftarrow> cmp off;
     if hit then Some (Some off)
     else do { off' \<leftarrow> idme_item_next m off; idme_walk cmp m k off' } }"

definition idme_find :: "mem \<Rightarrow> byte list \<Rightarrow> nat option option" where
  "idme_find m name = do {
     num \<leftarrow> ld32 CONFIG_IDME_SIZE m off_items_num;
     idme_walk (\<lambda>off. strcmp_at CONFIG_IDME_SIZE m off name) m (unat num) off_item_data }"

text \<open>\<open>idme_get_var_v2p0\<close>: the return code and the caller's buffer afterwards (\<open>None\<close> is
  a null buffer).\<close>

definition idme_get_var_v2p0 ::
  "byte list \<Rightarrow> byte list option \<Rightarrow> nat \<Rightarrow> mem option \<Rightarrow> (int \<times> byte list option) option" where
  "idme_get_var_v2p0 name buf len data = do {
     p \<leftarrow> idme_check_magic_number data;
     if p \<noteq> 0 then Some (-1, buf)
     else case buf of
       None \<Rightarrow> Some (-1, buf)
     | Some b \<Rightarrow> do {
         m \<leftarrow> data;
         r \<leftarrow> idme_find m name;
         case r of
           None \<Rightarrow> Some (-1, buf)
         | Some off \<Rightarrow> do {
             sz \<leftarrow> ld32 CONFIG_IDME_SIZE m (off + off_size);
             xs \<leftarrow> memcpy_from CONFIG_IDME_SIZE m (off + sizeof_desc) (min (unat sz) len);
             b' \<leftarrow> write_buf b xs;
             Some (0, Some b') } } }"

text \<open>\<open>idme_update_var_v2p0\<close>: the value is the object the pointer designates (\<open>None\<close> is
  null); the buffer is updated in place.\<close>

definition idme_update_var_v2p0 ::
  "byte list \<Rightarrow> byte list option \<Rightarrow> nat \<Rightarrow> mem option \<Rightarrow> (int \<times> mem option) option" where
  "idme_update_var_v2p0 name val len data = do {
     p \<leftarrow> idme_check_magic_number data;
     if p \<noteq> 0 then Some (-1, data)
     else case val of
       None \<Rightarrow> Some (-1, data)
     | Some v \<Rightarrow> do {
         m \<leftarrow> data;
         r \<leftarrow> idme_find m name;
         case r of
           None \<Rightarrow> Some (-1, data)
         | Some off \<Rightarrow> do {
             sz \<leftarrow> ld32 CONFIG_IDME_SIZE m (off + off_size);
             m \<leftarrow> memset CONFIG_IDME_SIZE m (off + sizeof_desc) 0 (unat sz);
             xs \<leftarrow> read_buf v (min (unat sz) len);
             m \<leftarrow> memcpy_to CONFIG_IDME_SIZE m (off + sizeof_desc) xs;
             Some (0, Some m) } } }"

text \<open>\<open>idme_get_item_desc_v2p0\<close>: the offset of the descriptor, \<open>None\<close> for a null pointer.\<close>

definition idme_get_item_desc_v2p0 :: "mem option \<Rightarrow> byte list \<Rightarrow> nat option option" where
  "idme_get_item_desc_v2p0 data item_name = do {
     p \<leftarrow> idme_check_magic_number data;
     if p \<noteq> 0 then Some None else do { m \<leftarrow> data; idme_find m item_name } }"

text \<open>The loop of \<open>idme_init_var_v2p0\<close> over the default table.  The table ends with an
  entry of empty name; running past its end would be undefined.\<close>

fun idme_init_items :: "mem \<Rightarrow> nat \<Rightarrow> idme_init_values list \<Rightarrow> (mem \<times> u32) option" where
  "idme_init_items m off [] = None"
| "idme_init_items m off (e # es) =
     (if init_name e = [] then Some (m, 0)
      else do {
        m \<leftarrow> idme_item_init m off (Some (init_name e)) (init_size e) (init_exportable e)
               (init_permission e) (init_value e);
        off' \<leftarrow> (case es of
             [] \<Rightarrow> None
           | e' # _ \<Rightarrow> if init_name e' \<noteq> [] then idme_item_next m off else Some off);
        (m, num) \<leftarrow> idme_init_items m off' es;
        Some (m, num + 1) })"

definition idme_init_var_v2p0 :: "idme_init_values list \<Rightarrow> mem \<Rightarrow> (int \<times> mem) option" where
  "idme_init_var_v2p0 idme_default_values m = do {
     m \<leftarrow> memset CONFIG_IDME_SIZE m 0 0 CONFIG_IDME_SIZE;
     m \<leftarrow> memcpy_to CONFIG_IDME_SIZE m 0 IDME_MAGIC_NUMBER;
     m \<leftarrow> memcpy_to CONFIG_IDME_SIZE m off_version IDME_VERSION_2P1;
     (m, num) \<leftarrow> idme_init_items m off_item_data idme_default_values;
     m \<leftarrow> st32 CONFIG_IDME_SIZE m off_items_num num;
     Some (0, m) }"

text \<open>One round of the table loop of \<open>idme_update_table_v2p0\<close>: carry the item over from
  the current buffer when it is there, take the template's value otherwise.  The state is the
  new buffer, its next item, the number of items so far and the number of items added.\<close>

definition idme_update_one ::
  "mem \<Rightarrow> idme_init_values \<Rightarrow> mem \<times> nat \<times> u32 \<times> u32 \<Rightarrow> (mem \<times> nat \<times> u32 \<times> u32) option" where
  "idme_update_one cur e st = (case st of (new, off, new_items_num, added) \<Rightarrow> do {
     num \<leftarrow> ld32 CONFIG_IDME_SIZE cur off_items_num;
     found \<leftarrow> idme_walk
       (\<lambda>i. strneq_at CONFIG_IDME_SIZE cur i (take IDME_MAX_NAME_LEN (init_name e @ [0])))
       cur (unat num) off_item_data;
     case found of
       Some itr \<Rightarrow> do {
         sz \<leftarrow> ld32 CONFIG_IDME_SIZE cur (itr + off_size);
         ex \<leftarrow> ld32 CONFIG_IDME_SIZE cur (itr + off_exportable);
         pm \<leftarrow> ld32 CONFIG_IDME_SIZE cur (itr + off_permission);
         new \<leftarrow> idme_item_init new off
           (cstr_at CONFIG_IDME_SIZE cur itr)
           sz ex pm
           (cstr_at CONFIG_IDME_SIZE cur (itr + sizeof_desc));
         d \<leftarrow> memcpy_from CONFIG_IDME_SIZE cur (itr + sizeof_desc) (unat sz);
         new \<leftarrow> memcpy_to CONFIG_IDME_SIZE new (off + sizeof_desc) d;
         off' \<leftarrow> idme_item_next new off;
         Some (new, off', new_items_num + 1, added) }
     | None \<Rightarrow> do {
         new \<leftarrow> idme_item_init new off (Some (init_name e)) (init_size e) (init_exportable e)
           (init_permission e) (init_value e);
         off' \<leftarrow> idme_item_next new off;
         Some (new, off', new_items_num + 1, added + 1) } })"

fun idme_update_items ::
  "mem \<Rightarrow> idme_init_values list \<Rightarrow> mem \<times> nat \<times> u32 \<times> u32 \<Rightarrow> (mem \<times> nat \<times> u32 \<times> u32) option" where
  "idme_update_items cur [] st = None"
| "idme_update_items cur (e # es) st =
     (if init_name e = [] then Some st
      else do { st' \<leftarrow> idme_update_one cur e st; idme_update_items cur es st' })"

text \<open>\<open>idme_update_table_v2p0\<close>: \<open>alloc_ok\<close> is whether \<open>malloc\<close> succeeded.  It returns 0 when
  the buffer was rebuilt, -2 when it already matched the template, -1 on an error.\<close>

definition idme_update_table_v2p0 ::
  "idme_init_values list \<Rightarrow> bool \<Rightarrow> mem option \<Rightarrow> (int \<times> mem option) option" where
  "idme_update_table_v2p0 idme_default_values alloc_ok data = do {
     p \<leftarrow> idme_check_magic_number data;
     if p \<noteq> 0 then Some (-1, data)
     else do {
       cur \<leftarrow> data;
       veq \<leftarrow> strneq_at CONFIG_IDME_SIZE cur off_version IDME_VERSION_2P1;
       if \<not> veq then Some (-1, data)
       else if \<not> alloc_ok then Some (-1, data)
       else do {
         hd \<leftarrow> memcpy_from CONFIG_IDME_SIZE cur 0 12;
         new \<leftarrow> memcpy_to CONFIG_IDME_SIZE (\<lambda>_. 0) 0 hd;
         (new, off, new_items_num, added) \<leftarrow>
           idme_update_items cur idme_default_values (new, off_item_data, 0, 0);
         num \<leftarrow> ld32 CONFIG_IDME_SIZE cur off_items_num;
         let deleted = num + added - new_items_num in
         if added \<noteq> 0 \<or> deleted \<noteq> 0
         then do { new \<leftarrow> st32 CONFIG_IDME_SIZE new off_items_num new_items_num;
                   Some (0, Some new) }
         else Some (-2, data) } } }"

section \<open>The abstract store\<close>

text \<open>What the bytes stand for: a list of named items.\<close>

record item =
  iname :: "byte list"
  iexport :: u32
  iperm :: u32
  idata :: "byte list"

definition item_size :: "item \<Rightarrow> nat" where
  "item_size it = sizeof_desc + length (idata it)"

definition lookup_item :: "item list \<Rightarrow> byte list \<Rightarrow> item option" where
  "lookup_item its n = find (\<lambda>it. iname it = n) its"

fun modify_item :: "item list \<Rightarrow> byte list \<Rightarrow> (byte list \<Rightarrow> byte list) \<Rightarrow> item list" where
  "modify_item [] n f = []"
| "modify_item (it # its) n f =
     (if iname it = n then it\<lparr>idata := f (idata it)\<rparr> # its else it # modify_item its n f)"

text \<open>Storing \<open>v\<close> into an item whose data has a fixed length: cut to it, padded with
  zeros up to it.\<close>

definition fit :: "byte list \<Rightarrow> byte list \<Rightarrow> byte list" where
  "fit v d = take (length d) v @ replicate (length d - length v) 0"

text \<open>The representation: an item at an offset, a sequence of items, a whole buffer.\<close>

definition item_at :: "mem \<Rightarrow> nat \<Rightarrow> item \<Rightarrow> bool" where
  "item_at m off it \<longleftrightarrow>
     off + item_size it \<le> CONFIG_IDME_SIZE \<and>
     name_field m off IDME_MAX_NAME_LEN (iname it) \<and>
     ld32 CONFIG_IDME_SIZE m (off + off_size) = Some (of_nat (length (idata it))) \<and>
     ld32 CONFIG_IDME_SIZE m (off + off_exportable) = Some (iexport it) \<and>
     ld32 CONFIG_IDME_SIZE m (off + off_permission) = Some (iperm it) \<and>
     (\<forall>i < length (idata it). m (off + sizeof_desc + i) = idata it ! i)"

fun items_at :: "mem \<Rightarrow> nat \<Rightarrow> item list \<Rightarrow> bool" where
  "items_at m off [] \<longleftrightarrow> True"
| "items_at m off (it # its) \<longleftrightarrow> item_at m off it \<and> items_at m (off + item_size it) its"

fun items_end :: "nat \<Rightarrow> item list \<Rightarrow> nat" where
  "items_end off [] = off"
| "items_end off (it # its) = items_end (off + item_size it) its"

definition magic_ok :: "mem \<Rightarrow> bool" where
  "magic_ok m \<longleftrightarrow> (\<forall>i < 8. m i = IDME_MAGIC_NUMBER ! i)"

text \<open>\<open>idme_rep m its\<close>: the buffer \<open>m\<close> is a well-formed IDME image that holds exactly the
  items \<open>its\<close>.  At least the last byte of the buffer is free and zero.\<close>

definition idme_rep :: "mem \<Rightarrow> item list \<Rightarrow> bool" where
  "idme_rep m its \<longleftrightarrow>
     magic_ok m \<and>
     ld32 CONFIG_IDME_SIZE m off_items_num = Some (of_nat (length its)) \<and>
     items_at m off_item_data its \<and>
     items_end off_item_data its < CONFIG_IDME_SIZE \<and>
     m (CONFIG_IDME_SIZE - 1) = 0"


section \<open>Lemmas on the representation\<close>

lemma IDME_size_pos [simp]: "0 < CONFIG_IDME_SIZE" "16 < CONFIG_IDME_SIZE"
  by (simp_all add: CONFIG_IDME_SIZE_def)

lemma length_magic [simp]: "length IDME_MAGIC_NUMBER = 8"
  by (simp add: IDME_MAGIC_NUMBER_def cstr_def)

lemma idme_check_magic_number_None [simp]: "idme_check_magic_number None = Some (-1)"
  by (simp add: idme_check_magic_number_def)

lemma idme_check_magic_number_Some [simp]:
  "idme_check_magic_number (Some m) = Some (if magic_ok m then 0 else -2)"
  by (simp add: idme_check_magic_number_def strneq_at_iff magic_ok_def CONFIG_IDME_SIZE_def)

lemma item_size_ge: "28 \<le> item_size it"
  by (simp add: item_size_def)

lemma item_size_pos [simp]: "0 < item_size it"
  by (simp add: item_size_def)

lemma items_end_ge: "off + 28 * length its \<le> items_end off its"
proof (induction its arbitrary: off)
  case (Cons it its)
  have "off + item_size it + 28 * length its \<le> items_end (off + item_size it) its"
    by (rule Cons.IH)
  then show ?case using item_size_ge [of it] by simp
qed simp

lemma items_end_mono: "off \<le> items_end off its"
  using items_end_ge [of off its] by simp

lemma idme_rep_length: "idme_rep m its \<Longrightarrow> length its < 2 ^ 32"
  using items_end_ge [of 16 its] by (simp add: idme_rep_def CONFIG_IDME_SIZE_def)

lemma unat_of_nat_small [simp]: "k \<le> CONFIG_IDME_SIZE \<Longrightarrow> unat (of_nat k :: u32) = k"
  by (simp add: unat_of_nat CONFIG_IDME_SIZE_def)

lemma idme_rep_num:
  "idme_rep m its \<Longrightarrow> ld32 CONFIG_IDME_SIZE m 12 = Some (of_nat (length its))"
  "idme_rep m its \<Longrightarrow> unat (of_nat (length its) :: u32) = length its"
  using idme_rep_length [of m its] by (simp_all add: idme_rep_def unat_of_nat)

lemma item_atD:
  assumes "item_at m off it"
  shows "off + item_size it \<le> CONFIG_IDME_SIZE"
    and "length (idata it) \<le> CONFIG_IDME_SIZE"
    and "ld32 CONFIG_IDME_SIZE m (off + 16) = Some (of_nat (length (idata it)))"
    and "map m [off + 28..<off + 28 + length (idata it)] = idata it"
  using assms by (auto simp: item_at_def item_size_def map_upt_eq_list)

lemma idme_item_next_item [simp]:
  assumes "item_at m off it"
  shows "idme_item_next m off = Some (off + item_size it)"
  using item_atD [OF assms] by (simp add: idme_item_next_def item_size_def)

lemma item_at_cong:
  assumes "\<And>j. off \<le> j \<Longrightarrow> j < off + item_size it \<Longrightarrow> m j = m' j"
  shows "item_at m off it = item_at m' off it"
proof -
  have "name_field m off IDME_MAX_NAME_LEN (iname it) = name_field m' off IDME_MAX_NAME_LEN (iname it)"
    using assms by (intro name_field_cong) (auto simp: item_size_def IDME_MAX_NAME_LEN_def)
  moreover have "ld32 CONFIG_IDME_SIZE m (off + k) = ld32 CONFIG_IDME_SIZE m' (off + k)" if "k \<le> 24" for k
    using assms that by (intro ld32_cong) (auto simp: item_size_def)
  moreover have "(\<forall>i < length (idata it). m (off + 28 + i) = idata it ! i) =
      (\<forall>i < length (idata it). m' (off + 28 + i) = idata it ! i)"
    using assms by (auto simp: item_size_def)
  ultimately show ?thesis by (simp add: item_at_def)
qed

lemma items_at_cong:
  assumes "\<And>j. off \<le> j \<Longrightarrow> j < items_end off its \<Longrightarrow> m j = m' j"
  shows "items_at m off its = items_at m' off its"
  using assms
proof (induction its arbitrary: off)
  case Nil
  then show ?case by simp
next
  case (Cons it its)
  have "item_at m off it = item_at m' off it"
    using Cons.prems items_end_mono [of "off + item_size it" its] by (intro item_at_cong) auto
  moreover have "items_at m (off + item_size it) its = items_at m' (off + item_size it) its"
    using Cons.prems by (intro Cons.IH) auto
  ultimately show ?case by simp
qed

text \<open>Where the first item of a name lies.\<close>

fun item_off :: "nat \<Rightarrow> item list \<Rightarrow> byte list \<Rightarrow> nat option" where
  "item_off off [] n = None"
| "item_off off (it # its) n = (if iname it = n then Some off else item_off (off + item_size it) its n)"

lemma item_off_None: "item_off off its n = None \<longleftrightarrow> lookup_item its n = None"
  by (induction its arbitrary: off) (auto simp: lookup_item_def)

lemma item_off_Some:
  assumes "items_at m off its" "item_off off its n = Some k"
  obtains it where "lookup_item its n = Some it" "iname it = n" "item_at m k it"
    "off \<le> k" "k + item_size it \<le> items_end off its"
  using assms
proof (induction its arbitrary: off thesis)
  case Nil
  then show ?case by simp
next
  case (Cons it its)
  show ?case
  proof (cases "iname it = n")
    case True
    then show ?thesis
      using Cons.prems items_end_mono [of "off + item_size it" its] by (auto simp: lookup_item_def)
  next
    case False
    show ?thesis
    proof (rule Cons.IH)
      show "items_at m (off + item_size it) its" "item_off (off + item_size it) its n = Some k"
        using Cons.prems(2,3) False by auto
    next
      fix it'
      assume "lookup_item its n = Some it'" "iname it' = n" "item_at m k it'"
        "off + item_size it \<le> k" "k + item_size it' \<le> items_end (off + item_size it) its"
      then show thesis
        using False by (intro Cons.prems(1)) (auto simp: lookup_item_def)
    qed
  qed
qed

lemma idme_walk_items:
  assumes "items_at m off its"
    and "\<And>k it. item_at m k it \<Longrightarrow> cmp k = Some (iname it = n)"
  shows "idme_walk cmp m (length its) off = Some (item_off off its n)"
  using assms(1) by (induction its arbitrary: off) (auto simp: assms(2))

lemma item_at_strcmp:
  "item_at m k it \<Longrightarrow> is_cstr n \<Longrightarrow> strcmp_at CONFIG_IDME_SIZE m k n = Some (iname it = n)"
  by (subst strcmp_at_name_field [of m k IDME_MAX_NAME_LEN "iname it"])
     (auto simp: item_at_def item_size_def IDME_MAX_NAME_LEN_def)

lemma idme_find_rep:
  assumes "idme_rep m its" "is_cstr n"
  shows "idme_find m n = Some (item_off 16 its n)"
  using idme_rep_num [OF assms(1)] idme_walk_items [of m 16 its, OF _ item_at_strcmp [OF _ assms(2)]]
    assms(1)
  by (simp add: idme_find_def idme_rep_def)

section \<open>The byte operations implement the store\<close>

lemma length_fit [simp]: "length (fit v d) = length d"
  by (simp add: fit_def)

lemma idme_get_var_refines:
  assumes "idme_rep m its" "is_cstr n"
    and "\<And>it. lookup_item its n = Some it \<Longrightarrow> min (length (idata it)) len \<le> length b"
  shows "idme_get_var_v2p0 n (Some b) len (Some m) =
    (case lookup_item its n of
       None \<Rightarrow> Some (-1, Some b)
     | Some it \<Rightarrow> Some (0, Some (take len (idata it) @ drop (min (length (idata it)) len) b)))"
proof (cases "item_off 16 its n")
  case None
  then have "lookup_item its n = None" by (simp add: item_off_None)
  then show ?thesis
    using assms(1) None
    by (simp add: idme_get_var_v2p0_def idme_find_rep [OF assms(1,2)] idme_rep_def)
next
  case (Some k)
  obtain it where it: "lookup_item its n = Some it" "item_at m k it"
    using assms(1) Some by (auto simp: idme_rep_def elim: item_off_Some)
  note at = item_atD [OF it(2)]
  let ?c = "min (length (idata it)) len"
  have "map m [k + 28..<k + 28 + ?c] = take len (idata it)"
    by (subst at(4) [symmetric]) (simp add: take_map take_upt min_def)
  then show ?thesis
    using assms Some it at
    by (simp add: idme_get_var_v2p0_def idme_find_rep [OF assms(1,2)] write_buf_def
        memcpy_from_def item_size_def idme_rep_def min.commute)
qed

lemma items_end_modify [simp]:
  assumes "\<And>d. length (f d) = length d"
  shows "items_end off (modify_item its n f) = items_end off its"
  by (induction its arbitrary: off) (auto simp: item_size_def assms)

lemma length_modify_item [simp]: "length (modify_item its n f) = length its"
  by (induction its) auto

text \<open>Overwriting the data of one item is that change of the represented list.\<close>

lemma item_at_write:
  assumes "item_at m k it" "length d = length (idata it)"
    and "\<And>j. j < k + 28 \<Longrightarrow> m' j = m j"
    and "\<And>i. i < length d \<Longrightarrow> m' (k + 28 + i) = d ! i"
  shows "item_at m' k (it\<lparr>idata := d\<rparr>)"
proof -
  have "name_field m' k IDME_MAX_NAME_LEN (iname it)"
    using assms(1,3) name_field_cong [of k IDME_MAX_NAME_LEN m m' "iname it"]
    by (auto simp: item_at_def IDME_MAX_NAME_LEN_def)
  moreover have "ld32 CONFIG_IDME_SIZE m' (k + c) = ld32 CONFIG_IDME_SIZE m (k + c)" if "c \<le> 24" for c
    using assms(3) that by (intro ld32_cong) auto
  ultimately show ?thesis
    using assms(1,2,4) by (simp add: item_at_def item_size_def)
qed

lemma items_at_write:
  assumes "items_at m off its" "item_off off its n = Some k" "lookup_item its n = Some it"
    and "length (f (idata it)) = length (idata it)"
    and out: "\<And>j. j < k + 28 \<or> k + item_size it \<le> j \<Longrightarrow> m' j = m j"
    and inn: "\<And>i. i < length (idata it) \<Longrightarrow> m' (k + 28 + i) = f (idata it) ! i"
  shows "items_at m' off (modify_item its n f)"
  using assms(1-3)
proof (induction its arbitrary: off)
  case Nil
  then show ?case by simp
next
  case (Cons a its)
  show ?case
  proof (cases "iname a = n")
    case True
    with Cons.prems have [simp]: "k = off" "a = it" by (auto simp: lookup_item_def)
    have "item_at m' off (it\<lparr>idata := f (idata it)\<rparr>)"
      using Cons.prems(1) assms(4) inn out by (intro item_at_write) auto
    moreover have "items_at m' (off + item_size it) its"
      using Cons.prems(1) out items_at_cong [of "off + item_size it" its m m'] by auto
    moreover have "item_size (it\<lparr>idata := f (idata it)\<rparr>) = item_size it"
      using assms(4) by (simp add: item_size_def)
    ultimately show ?thesis using True by simp
  next
    case False
    with Cons.prems have off: "item_off (off + item_size a) its n = Some k"
      and look: "lookup_item its n = Some it" and at: "items_at m (off + item_size a) its"
      by (auto simp: lookup_item_def)
    have "off + item_size a \<le> k" using at off by (auto elim: item_off_Some)
    then have "item_at m' off a"
      using Cons.prems(1) out item_at_cong [of off a m m'] by auto
    with Cons.IH [OF at off look] False show ?thesis by simp
  qed
qed

lemma nth_fit: "i < length d \<Longrightarrow> fit v d ! i = (if i < length v then v ! i else 0)"
  by (auto simp: fit_def nth_append)

text \<open>A change of the represented list is preserved by the header and the free space.\<close>

lemma idme_rep_write:
  assumes "idme_rep m its" "item_off 16 its n = Some k" "lookup_item its n = Some it"
    and "\<And>d. length (f d) = length d"
    and "\<And>j. j < k + 28 \<or> k + item_size it \<le> j \<Longrightarrow> m' j = m j"
    and "\<And>i. i < length (idata it) \<Longrightarrow> m' (k + 28 + i) = f (idata it) ! i"
  shows "idme_rep m' (modify_item its n f)"
proof -
  have at: "items_at m 16 its" and e: "items_end 16 its < CONFIG_IDME_SIZE"
    using assms(1) by (auto simp: idme_rep_def)
  have k: "16 \<le> k" and ke: "k + item_size it \<le> items_end 16 its"
    using item_off_Some [OF at assms(2)] assms(3) by (metis option.inject)+
  have "magic_ok m'" using assms(1,5) k by (auto simp: idme_rep_def magic_ok_def)
  moreover have "ld32 CONFIG_IDME_SIZE m' 12 = ld32 CONFIG_IDME_SIZE m 12"
    using assms(5) k by (intro ld32_cong) auto
  moreover have "items_at m' 16 (modify_item its n f)"
    using items_at_write [OF at assms(2,3), of f m'] assms(4-6) by blast
  moreover have "m' (CONFIG_IDME_SIZE - 1) = m (CONFIG_IDME_SIZE - 1)"
    using ke e by (intro assms(5)) linarith
  ultimately show ?thesis using assms(1,4) by (simp add: idme_rep_def)
qed

lemma idme_update_var_refines:
  assumes rep: "idme_rep m its" and n: "is_cstr n"
    and v: "\<And>it. lookup_item its n = Some it \<Longrightarrow> min (length (idata it)) len \<le> length v"
  shows "case lookup_item its n of
       None \<Rightarrow> idme_update_var_v2p0 n (Some v) len (Some m) = Some (-1, Some m)
     | Some it \<Rightarrow> \<exists>m'. idme_update_var_v2p0 n (Some v) len (Some m) = Some (0, Some m') \<and>
         idme_rep m' (modify_item its n (fit (take len v)))"
proof (cases "item_off 16 its n")
  case None
  then have "lookup_item its n = None" by (simp add: item_off_None)
  then show ?thesis
    using rep None by (simp add: idme_update_var_v2p0_def idme_find_rep [OF rep n] idme_rep_def)
next
  case (Some k)
  obtain it where it: "lookup_item its n = Some it" "item_at m k it"
    using rep Some by (auto simp: idme_rep_def elim: item_off_Some)
  note at = item_atD [OF it(2)]
  let ?d = "length (idata it)" and ?c = "min (length (idata it)) len"
  have c: "k + 28 + ?c \<le> CONFIG_IDME_SIZE" "k + 28 + ?d \<le> CONFIG_IDME_SIZE"
    using at by (auto simp: item_size_def)
  define m' where "m' = (\<lambda>i. if k + 28 \<le> i \<and> i < k + 28 + ?c then take ?c v ! (i - (k + 28))
    else if k + 28 \<le> i \<and> i < k + 28 + ?d then 0 else m i)"
  have "idme_update_var_v2p0 n (Some v) len (Some m) = Some (0, Some m')"
    using rep Some it(1) v [OF it(1)] at(2,3) c
    by (simp add: idme_update_var_v2p0_def idme_find_rep [OF rep n] read_buf_def memset_def
        memcpy_to_def idme_rep_def m'_def min.absorb2)
  moreover have "idme_rep m' (modify_item its n (fit (take len v)))"
    using v [OF it(1)]
    by (intro idme_rep_write [OF rep Some it(1)])
       (auto simp: m'_def item_size_def nth_fit)
  ultimately show ?thesis using it(1) by auto
qed

section \<open>Building and migrating a table\<close>

text \<open>The item a table entry stands for, and the entries the builder can handle.\<close>

definition default_item :: "idme_init_values \<Rightarrow> item" where
  "default_item e = \<lparr>iname = init_name e, iexport = init_exportable e, iperm = init_permission e,
     idata = fit (case init_value e of None \<Rightarrow> [] | Some v \<Rightarrow> v) (replicate (unat (init_size e)) 0)\<rparr>"

definition valid_name :: "byte list \<Rightarrow> bool" where
  "valid_name n \<longleftrightarrow> n \<noteq> [] \<and> is_cstr n \<and> length n < IDME_MAX_NAME_LEN"

definition valid_entry :: "idme_init_values \<Rightarrow> bool" where
  "valid_entry e \<longleftrightarrow> valid_name (init_name e) \<and> init_value e \<noteq> None"

lemma item_size_default: "item_size (default_item e) = 28 + unat (init_size e)"
  by (simp add: item_size_def default_item_def)

lemma iname_default [simp]: "iname (default_item e) = init_name e"
  by (simp add: default_item_def)

lemma idme_item_init_at:
  assumes fits: "off + 28 + unat sz \<le> CONFIG_IDME_SIZE" and nm: "is_cstr nm" "length nm < 16"
  shows "\<exists>m'. idme_item_init m off (Some nm) sz ex pm (Some v) = Some m' \<and>
    item_at m' off \<lparr>iname = nm, iexport = ex, iperm = pm,
      idata = fit v (replicate (unat sz) 0)\<rparr> \<and>
    (\<forall>j. j < off \<or> off + 28 + unat sz \<le> j \<longrightarrow> m' j = m j)"
proof -
  let ?c = "min (unat sz) (length v)"
  define m' where "m' = (\<lambda>i.
      if off + 24 \<le> i \<and> i < off + 24 + 4 then bytes32 pm ! (i - (off + 24))
      else if off + 20 \<le> i \<and> i < off + 20 + 4 then bytes32 ex ! (i - (off + 20))
      else if off + 16 \<le> i \<and> i < off + 16 + 4 then bytes32 sz ! (i - (off + 16))
      else if off \<le> i \<and> i < off + length nm then nm ! (i - off)
      else if off \<le> i \<and> i < off + 16 then 0
      else if off + 28 \<le> i \<and> i < off + 28 + ?c then take ?c v ! (i - (off + 28))
      else if off + 28 \<le> i \<and> i < off + 28 + unat sz then 0
      else m i)"
  have fr: "m' j = m j" if "j < off \<or> off + 28 + unat sz \<le> j" for j
    using that nm(2) by (auto simp: m'_def)
  have dat: "m' (off + 28 + i) = fit v (replicate (unat sz) 0) ! i" if "i < unat sz" for i
    using that nm(2) by (simp add: m'_def nth_fit)
  have name: "m' (off + i) = (if i < length nm then nm ! i else 0)" if "i < 16" for i
    using that nm(2) by (simp add: m'_def)
  have f: "ld32 CONFIG_IDME_SIZE m' (off + 16) = Some sz" "ld32 CONFIG_IDME_SIZE m' (off + 20) = Some ex"
     "ld32 CONFIG_IDME_SIZE m' (off + 24) = Some pm"
    using fits nm(2) by (simp_all add: ld32_def m'_def)
  have "off + 28 + ?c \<le> CONFIG_IDME_SIZE" using fits by simp
  then have "idme_item_init m off (Some nm) sz ex pm (Some v) = Some m'"
    using fits nm(2) unfolding m'_def
    by (simp add: idme_item_init_def memset_def memcpy_to_def st32_def IDME_MAX_NAME_LEN_def
        min.absorb2 cong: if_cong)
  moreover have "item_at m' off \<lparr>iname = nm, iexport = ex, iperm = pm,
      idata = fit v (replicate (unat sz) 0)\<rparr>"
    using fits nm name f dat
    by (simp add: item_at_def item_size_def name_field_def IDME_MAX_NAME_LEN_def)
  ultimately show ?thesis using fr by blast
qed

lemma idme_init_entry_at:
  assumes "valid_entry e" "off + item_size (default_item e) \<le> CONFIG_IDME_SIZE"
  shows "\<exists>m'. idme_item_init m off (Some (init_name e)) (init_size e) (init_exportable e)
      (init_permission e) (init_value e) = Some m' \<and>
    item_at m' off (default_item e) \<and>
    (\<forall>j. j < off \<or> off + item_size (default_item e) \<le> j \<longrightarrow> m' j = m j)"
proof -
  obtain v where v: "init_value e = Some v" and nm: "is_cstr (init_name e)" "length (init_name e) < 16"
    using assms(1) by (auto simp: valid_entry_def valid_name_def IDME_MAX_NAME_LEN_def)
  have "off + 28 + unat (init_size e) \<le> CONFIG_IDME_SIZE"
    using assms(2) by (simp add: item_size_default)
  from idme_item_init_at [OF this nm, of m "init_exportable e" "init_permission e" v] v
  show ?thesis by (simp add: default_item_def item_size_def add.assoc)
qed

lemma idme_init_items_at:
  assumes "\<forall>e \<in> set es. valid_entry e" "init_name t = []"
    and "items_end off (map default_item es) \<le> CONFIG_IDME_SIZE"
  shows "\<exists>m'. idme_init_items m off (es @ [t]) = Some (m', of_nat (length es)) \<and>
    items_at m' off (map default_item es) \<and>
    (\<forall>j. j < off \<or> items_end off (map default_item es) \<le> j \<longrightarrow> m' j = m j)"
  using assms(1,3)
proof (induction es arbitrary: m off)
  case Nil
  then show ?case using assms(2) by simp
next
  case (Cons e es)
  let ?next = "off + item_size (default_item e)" and ?its = "map default_item es"
  have e: "valid_entry e" and ne: "init_name e \<noteq> []"
    using Cons.prems(1) by (auto simp: valid_entry_def valid_name_def)
  have mono: "?next \<le> items_end ?next ?its" by (rule items_end_mono)
  then have fits: "?next \<le> CONFIG_IDME_SIZE" using Cons.prems(2) by simp
  obtain m1 where m1: "idme_item_init m off (Some (init_name e)) (init_size e)
        (init_exportable e) (init_permission e) (init_value e) = Some m1"
    and at1: "item_at m1 off (default_item e)"
    and fr1: "\<And>j. j < off \<or> ?next \<le> j \<Longrightarrow> m1 j = m j"
    using idme_init_entry_at [OF e fits, of m] by blast
  show ?case
  proof (cases es)
    case Nil
    then show ?thesis using m1 at1 fr1 ne assms(2) by simp
  next
    case (Cons e2 es2)
    have "\<exists>m'. idme_init_items m1 ?next (es @ [t]) = Some (m', of_nat (length es)) \<and>
        items_at m' ?next ?its \<and>
        (\<forall>j. j < ?next \<or> items_end ?next ?its \<le> j \<longrightarrow> m' j = m1 j)"
      using Cons.prems by (intro Cons.IH) auto
    then obtain m' where m': "idme_init_items m1 ?next (es @ [t]) = Some (m', of_nat (length es))"
      and at': "items_at m' ?next ?its"
      and fr': "\<And>j. j < ?next \<or> items_end ?next ?its \<le> j \<Longrightarrow> m' j = m1 j"
      by blast
    have ate: "item_at m' off (default_item e)"
      using at1 fr' item_at_cong [of off "default_item e" m1 m'] by simp
    have e2: "init_name e2 \<noteq> []"
      using Cons.prems(1) Cons by (auto simp: valid_entry_def valid_name_def)
    have nx: "(case es @ [t] of [] \<Rightarrow> None | e' # _ \<Rightarrow>
        if init_name e' \<noteq> [] then idme_item_next m1 off else Some off) = Some ?next"
      using Cons e2 at1 by simp
    have run: "idme_init_items m off ((e # es) @ [t]) = Some (m', of_nat (length (e # es)))"
      by (simp add: m1 nx m' ne add.commute)
    have "m' j = m j" if "j < off \<or> items_end ?next ?its \<le> j" for j
      using that fr' [of j] fr1 [of j] mono by auto
    then show ?thesis
      using run ate at' by simp
  qed
qed

text \<open>A freshly built buffer represents the default table.\<close>

lemma idme_init_var_rep:
  assumes es: "\<forall>e \<in> set es. valid_entry e" and t: "init_name t = []"
    and fits: "items_end 16 (map default_item es) < CONFIG_IDME_SIZE"
  shows "\<exists>m'. idme_init_var_v2p0 (es @ [t]) m = Some (0, m') \<and> idme_rep m' (map default_item es) \<and>
    (\<forall>i < 3. m' (8 + i) = IDME_VERSION_2P1 ! i)"
proof -
  let ?its = "map default_item es"
  define m0 where "m0 = (\<lambda>i. if 8 \<le> i \<and> i < 8 + (3::nat) then IDME_VERSION_2P1 ! (i - 8)
    else if i < 8 then IDME_MAGIC_NUMBER ! i else if i < CONFIG_IDME_SIZE then 0 else m i)"
  have len: "length IDME_VERSION_2P1 = 3" by (simp add: IDME_VERSION_2P1_def cstr_def)
  obtain m1 where m1: "idme_init_items m0 16 (es @ [t]) = Some (m1, of_nat (length es))"
    and at: "items_at m1 16 ?its"
    and fr: "\<And>j. j < 16 \<or> items_end 16 ?its \<le> j \<Longrightarrow> m1 j = m0 j"
    using idme_init_items_at [OF es t, of 16 m0] fits by (meson less_imp_le)
  define m' where "m' = (\<lambda>i. if 12 \<le> i \<and> i < 12 + (4::nat)
    then bytes32 (of_nat (length es)) ! (i - 12) else m1 i)"
  have hd: "(memset CONFIG_IDME_SIZE m 0 0 CONFIG_IDME_SIZE \<bind>
      (\<lambda>m. memcpy_to CONFIG_IDME_SIZE m 0 IDME_MAGIC_NUMBER \<bind>
      (\<lambda>m. memcpy_to CONFIG_IDME_SIZE m 8 IDME_VERSION_2P1))) = Some m0"
    by (auto simp: memset_def memcpy_to_def m0_def len CONFIG_IDME_SIZE_def fun_eq_iff)
  have st: "st32 CONFIG_IDME_SIZE m1 12 (of_nat (length es)) = Some m'"
    by (simp add: st32_def memcpy_to_def m'_def CONFIG_IDME_SIZE_def)
  have run: "idme_init_var_v2p0 (es @ [t]) m = Some (0, m')"
    using hd st m1 unfolding idme_init_var_v2p0_def bind_assoc [symmetric] by simp
  have low: "m' i = m0 i" if "i < 12" for i using fr [of i] that by (simp add: m'_def)
  have last: "m' (CONFIG_IDME_SIZE - 1) = m0 (CONFIG_IDME_SIZE - 1)"
    using fr [of "CONFIG_IDME_SIZE - 1"] fits by (simp add: m'_def CONFIG_IDME_SIZE_def)
  have "items_at m' 16 ?its"
    using at items_at_cong [of 16 ?its m' m1] by (simp add: m'_def)
  moreover have "ld32 CONFIG_IDME_SIZE m' 12 = Some (of_nat (length es))"
    by (simp add: ld32_def m'_def CONFIG_IDME_SIZE_def)
  moreover have "magic_ok m'" using low by (simp add: magic_ok_def m0_def)
  moreover have "m0 (CONFIG_IDME_SIZE - 1) = 0" by (simp add: m0_def CONFIG_IDME_SIZE_def)
  ultimately have "idme_rep m' ?its" using fits last by (simp add: idme_rep_def)
  moreover have "\<forall>i < 3. m' (8 + i) = IDME_VERSION_2P1 ! i" using low by (simp add: m0_def)
  ultimately show ?thesis using run by blast
qed

text \<open>The item a template entry becomes when a table is migrated: the stored one if there is
  one, the template's default otherwise.\<close>

definition migrated :: "item list \<Rightarrow> idme_init_values \<Rightarrow> item" where
  "migrated its e = (case lookup_item its (init_name e) of Some it \<Rightarrow> it | None \<Rightarrow> default_item e)"

lemma lookup_item_SomeD: "lookup_item its n = Some it \<Longrightarrow> iname it = n \<and> it \<in> set its"
  by (auto simp: lookup_item_def find_Some_iff)

lemma iname_migrated [simp]: "iname (migrated its e) = init_name e"
  by (auto simp: migrated_def dest: lookup_item_SomeD split: option.splits)

lemma item_at_strneq:
  assumes "item_at m k it" "valid_name n"
  shows "strneq_at CONFIG_IDME_SIZE m k (take IDME_MAX_NAME_LEN (n @ [0])) = Some (iname it = n)"
proof -
  let ?s = "iname it"
  have n: "length n < 16" "is_cstr n" using assms(2) by (auto simp: valid_name_def IDME_MAX_NAME_LEN_def)
  have nf: "name_field m k 16 ?s" and k: "k + 16 \<le> CONFIG_IDME_SIZE"
    using assms(1) by (auto simp: item_at_def item_size_def IDME_MAX_NAME_LEN_def)
  have "(\<forall>j < Suc (length n). m (k + j) = (n @ [0]) ! j) \<longleftrightarrow> ?s = n"
  proof
    assume all: "\<forall>j < Suc (length n). m (k + j) = (n @ [0]) ! j"
    have f: "m (k + j) = (if j < length ?s then ?s ! j else 0)" if "j < 16" for j
      using nf that by (simp add: name_field_def)
    have nz: "?s ! j \<noteq> 0" if "j < length ?s" for j
      using nf that by (auto simp: name_field_def dest: is_cstr_nth)
    have nz': "n ! j \<noteq> 0" if "j < length n" for j
      using n(2) that by (rule is_cstr_nth)
    have "\<not> length ?s < length n"
      using all f [of "length ?s"] nz' [of "length ?s"] n(1) by (auto simp: nth_append)
    moreover have "\<not> length n < length ?s"
      using all f [of "length n"] nz [of "length n"] n(1) by (auto simp: nth_append)
    ultimately have len: "length ?s = length n" by simp
    moreover have "?s ! j = n ! j" if "j < length ?s" for j
      using all f [of j] n(1) that len by (auto simp: nth_append)
    ultimately show "?s = n" by (rule nth_equalityI)
  next
    assume "?s = n"
    then show "\<forall>j < Suc (length n). m (k + j) = (n @ [0]) ! j"
      using nf n(1) by (auto simp: name_field_def nth_append less_Suc_eq)
  qed
  moreover have "take IDME_MAX_NAME_LEN (n @ [0]) = n @ [0]" using n(1) by (simp add: IDME_MAX_NAME_LEN_def)
  ultimately show ?thesis using k n(1) by (simp add: strneq_at_iff)
qed

text \<open>What one round of the migration reads of a stored item.\<close>

lemma item_at_name_string:
  assumes "item_at m k it"
  shows "cstr_at CONFIG_IDME_SIZE m k = Some (iname it)"
    and "is_cstr (iname it)" and "length (iname it) < 16"
  using assms cstr_at_name_field [of m k 16 "iname it" CONFIG_IDME_SIZE]
  by (auto simp: item_at_def item_size_def IDME_MAX_NAME_LEN_def name_field_def)

text \<open>Writing an item and forcing its data afterwards leaves exactly that item.\<close>

lemma idme_item_copy_at:
  assumes fits: "off + item_size it \<le> CONFIG_IDME_SIZE" and nm: "is_cstr (iname it)" "length (iname it) < 16"
  shows "\<exists>m1 m2. idme_item_init m off (Some (iname it)) (of_nat (length (idata it))) (iexport it) (iperm it) (Some v) = Some m1 \<and>
    memcpy_to CONFIG_IDME_SIZE m1 (off + 28) (idata it) = Some m2 \<and> item_at m2 off it \<and>
    (\<forall>j. j < off \<or> off + item_size it \<le> j \<longrightarrow> m2 j = m j)"
proof -
  let ?sz = "of_nat (length (idata it)) :: u32"
  have usz: "unat ?sz = length (idata it)" using fits by (simp add: item_size_def)
  let ?i = "\<lparr>iname = iname it, iexport = iexport it, iperm = iperm it, idata = fit v (replicate (unat ?sz) 0)\<rparr>"
  have "off + 28 + unat ?sz \<le> CONFIG_IDME_SIZE" using fits usz by (simp add: item_size_def)
  from idme_item_init_at [OF this nm, of m "iexport it" "iperm it" v] obtain m1 where
    m1: "idme_item_init m off (Some (iname it)) ?sz (iexport it) (iperm it) (Some v) = Some m1"
    and at1: "item_at m1 off ?i"
    and fr1: "\<And>j. j < off \<or> off + item_size it \<le> j \<Longrightarrow> m1 j = m j"
    unfolding usz by (auto simp: item_size_def add.assoc)
  let ?m2 = "\<lambda>i. if off + 28 \<le> i \<and> i < off + 28 + length (idata it) then idata it ! (i - (off + 28)) else m1 i"
  have "item_at ?m2 off (?i\<lparr>idata := idata it\<rparr>)"
    by (rule item_at_write [OF at1]) (use usz in auto)
  then have "item_at ?m2 off it" by (cases it) simp
  moreover have "memcpy_to CONFIG_IDME_SIZE m1 (off + 28) (idata it) = Some ?m2"
    using fits by (simp add: item_size_def)
  moreover have "\<forall>j. j < off \<or> off + item_size it \<le> j \<longrightarrow> ?m2 j = m j"
    using fr1 by (auto simp: item_size_def)
  ultimately show ?thesis using m1 by blast
qed

text \<open>One round of the migration: the next item of the new buffer is the migrated one.\<close>

lemma idme_update_one_found:
  assumes rep: "idme_rep cur its" and n: "valid_name (init_name e)"
    and look: "lookup_item its (init_name e) = Some it"
    and fits: "off + item_size it \<le> CONFIG_IDME_SIZE"
  shows "\<exists>new'. idme_update_one cur e (new, off, num, added) = Some (new', off + item_size it, num + 1, added) \<and>
    item_at new' off it \<and> (\<forall>j. j < off \<or> off + item_size it \<le> j \<longrightarrow> new' j = new j)"
proof -
  have at: "items_at cur 16 its" and e: "items_end 16 its < CONFIG_IDME_SIZE"
    and z: "cur (CONFIG_IDME_SIZE - 1) = 0"
    using rep by (auto simp: idme_rep_def)
  obtain k where k: "item_off 16 its (init_name e) = Some k"
    using look item_off_None [of 16 its "init_name e"] by (cases "item_off 16 its (init_name e)") auto
  have itk: "item_at cur k it" and kend: "k + item_size it \<le> items_end 16 its"
    using item_off_Some [OF at k] look by (metis option.inject)+
  note d = item_atD [OF itk] and s = item_at_name_string [OF itk]
  have fld: "ld32 CONFIG_IDME_SIZE cur (k + 20) = Some (iexport it)" "ld32 CONFIG_IDME_SIZE cur (k + 24) = Some (iperm it)"
    using itk by (simp_all add: item_at_def)
  have walk: "idme_walk (\<lambda>i. strneq_at CONFIG_IDME_SIZE cur i (take IDME_MAX_NAME_LEN (init_name e @ [0])))
      cur (length its) 16 = Some (Some k)"
    using idme_walk_items [OF at item_at_strneq [OF _ n]] k by simp
  have "k + 28 < CONFIG_IDME_SIZE" using kend e item_size_ge [of it] by linarith
  then obtain v where v: "cstr_at CONFIG_IDME_SIZE cur (k + 28) = Some v"
    using cstr_at_exists [of "k + 28" CONFIG_IDME_SIZE cur] z by blast
  obtain m1 m2 where m1: "idme_item_init new off (Some (iname it)) (of_nat (length (idata it)))
        (iexport it) (iperm it) (Some v) = Some m1"
    and m2: "memcpy_to CONFIG_IDME_SIZE m1 (off + 28) (idata it) = Some m2"
    and at2: "item_at m2 off it" and fr: "\<forall>j. j < off \<or> off + item_size it \<le> j \<longrightarrow> m2 j = new j"
    using idme_item_copy_at [OF fits s(2,3), of new v] by blast
  have src: "memcpy_from CONFIG_IDME_SIZE cur (k + 28) (unat (of_nat (length (idata it)) :: u32)) = Some (idata it)"
    using d(1,2,4) by (simp add: item_size_def)
  have "idme_update_one cur e (new, off, num, added) = Some (m2, off + item_size it, num + 1, added)"
    unfolding idme_update_one_def using idme_rep_num [OF rep]
    by (simp only: prod.case bind.bind_lunit walk d(3) fld s(1) v m1 m2 src idme_item_next_item [OF at2] option.case)
  then show ?thesis using at2 fr by blast
qed

lemma idme_update_one_new:
  assumes rep: "idme_rep cur its" and v: "valid_entry e"
    and look: "lookup_item its (init_name e) = None"
    and fits: "off + item_size (default_item e) \<le> CONFIG_IDME_SIZE"
  shows "\<exists>new'. idme_update_one cur e (new, off, num, added) =
      Some (new', off + item_size (default_item e), num + 1, added + 1) \<and>
    item_at new' off (default_item e) \<and>
    (\<forall>j. j < off \<or> off + item_size (default_item e) \<le> j \<longrightarrow> new' j = new j)"
proof -
  have at: "items_at cur 16 its" using rep by (simp add: idme_rep_def)
  have n: "valid_name (init_name e)" using v by (simp add: valid_entry_def)
  have walk: "idme_walk (\<lambda>i. strneq_at CONFIG_IDME_SIZE cur i (take IDME_MAX_NAME_LEN (init_name e @ [0])))
      cur (length its) 16 = Some None"
    using idme_walk_items [OF at item_at_strneq [OF _ n]] look by (simp add: item_off_None)
  obtain m1 where m1: "idme_item_init new off (Some (init_name e)) (init_size e) (init_exportable e)
      (init_permission e) (init_value e) = Some m1" and at1: "item_at m1 off (default_item e)"
    and fr: "\<forall>j. j < off \<or> off + item_size (default_item e) \<le> j \<longrightarrow> m1 j = new j"
    using idme_init_entry_at [OF v fits, of new] by blast
  have "idme_update_one cur e (new, off, num, added) =
      Some (m1, off + item_size (default_item e), num + 1, added + 1)"
    using idme_rep_num [OF rep] walk by (simp add: idme_update_one_def m1 idme_item_next_item [OF at1])
  then show ?thesis using at1 fr by blast
qed

text \<open>An entry the migration can handle: its default value is used, and must exist, only when
  the item is not stored yet.\<close>

definition migratable :: "item list \<Rightarrow> idme_init_values \<Rightarrow> bool" where
  "migratable its e \<longleftrightarrow>
     valid_name (init_name e) \<and> (lookup_item its (init_name e) = None \<longrightarrow> init_value e \<noteq> None)"

lemma idme_update_one_at:
  assumes rep: "idme_rep cur its" and v: "migratable its e"
    and fits: "off + item_size (migrated its e) \<le> CONFIG_IDME_SIZE"
  shows "\<exists>new'. idme_update_one cur e (new, off, num, added) =
      Some (new', off + item_size (migrated its e), num + 1,
            added + (if lookup_item its (init_name e) = None then 1 else 0)) \<and>
    item_at new' off (migrated its e) \<and>
    (\<forall>j. j < off \<or> off + item_size (migrated its e) \<le> j \<longrightarrow> new' j = new j)"
proof (cases "lookup_item its (init_name e)")
  case None
  then show ?thesis
    using idme_update_one_new [OF rep _ None] fits v by (simp add: migrated_def migratable_def valid_entry_def)
next
  case (Some it)
  then show ?thesis
    using idme_update_one_found [OF rep _ Some] fits v by (simp add: migrated_def migratable_def)
qed

lemma idme_update_items_at:
  assumes "idme_rep cur its" "\<forall>e \<in> set es. migratable its e" "init_name t = []"
    and "items_end off (map (migrated its) es) \<le> CONFIG_IDME_SIZE"
  shows "\<exists>new'. idme_update_items cur (es @ [t]) (new, off, num, added) =
      Some (new', items_end off (map (migrated its) es), num + of_nat (length es),
        added + of_nat (length (filter (\<lambda>e. lookup_item its (init_name e) = None) es))) \<and>
    items_at new' off (map (migrated its) es) \<and>
    (\<forall>j. j < off \<or> items_end off (map (migrated its) es) \<le> j \<longrightarrow> new' j = new j)"
  using assms(2,4)
proof (induction es arbitrary: new off num added)
  case Nil
  then show ?case using assms(3) by simp
next
  case (Cons e es)
  let ?next = "off + item_size (migrated its e)" and ?its = "map (migrated its) es"
  let ?added = "added + (if lookup_item its (init_name e) = None then 1 else 0)"
  have e: "migratable its e" and ne: "init_name e \<noteq> []"
    using Cons.prems(1) by (auto simp: migratable_def valid_name_def)
  have mono: "?next \<le> items_end ?next ?its" by (rule items_end_mono)
  then have "?next \<le> CONFIG_IDME_SIZE" using Cons.prems(2) by simp
  from idme_update_one_at [OF assms(1) e this, of new num added] obtain m1 where
    m1: "idme_update_one cur e (new, off, num, added) = Some (m1, ?next, num + 1, ?added)"
    and at1: "item_at m1 off (migrated its e)"
    and fr1: "\<And>j. j < off \<or> ?next \<le> j \<Longrightarrow> m1 j = new j" by blast
  have "\<exists>m'. idme_update_items cur (es @ [t]) (m1, ?next, num + 1, ?added) =
      Some (m', items_end ?next ?its, num + 1 + of_nat (length es),
        ?added + of_nat (length (filter (\<lambda>e. lookup_item its (init_name e) = None) es))) \<and>
    items_at m' ?next ?its \<and> (\<forall>j. j < ?next \<or> items_end ?next ?its \<le> j \<longrightarrow> m' j = m1 j)"
    using Cons.prems by (intro Cons.IH) auto
  then obtain m' where
    m': "idme_update_items cur (es @ [t]) (m1, ?next, num + 1, ?added) =
      Some (m', items_end ?next ?its, num + 1 + of_nat (length es),
        ?added + of_nat (length (filter (\<lambda>e. lookup_item its (init_name e) = None) es)))"
    and at': "items_at m' ?next ?its"
    and fr': "\<And>j. j < ?next \<or> items_end ?next ?its \<le> j \<Longrightarrow> m' j = m1 j" by blast
  have "item_at m' off (migrated its e)"
    using at1 fr' item_at_cong [of off "migrated its e" m1 m'] by simp
  moreover have "m' j = new j" if "j < off \<or> items_end ?next ?its \<le> j" for j
    using that fr' [of j] fr1 [of j] mono by auto
  ultimately show ?case
    using m1 m' ne at' by (auto simp: add.assoc [of num])
qed

lemma items_end_length: "items_end 16 its \<le> CONFIG_IDME_SIZE \<Longrightarrow> length its < 2 ^ 32"
  using items_end_ge [of 16 its] by (simp add: CONFIG_IDME_SIZE_def)

text \<open>The counters of the migration are 32-bit words; on tables that fit the buffer they
  detect exactly a missing or a surplus item.\<close>

lemma migration_counters:
  assumes "length its < 2 ^ 32" "length es < 2 ^ 32" "a \<le> length es"
  shows "((of_nat a :: u32) \<noteq> 0 \<or> of_nat (length its) + of_nat a - of_nat (length es) \<noteq> (0 :: u32)) \<longleftrightarrow>
    (a \<noteq> 0 \<or> length its \<noteq> length es)"
proof -
  have inj: "(of_nat x :: u32) = of_nat y \<longleftrightarrow> x = y" if "x < 2 ^ 32" "y < 2 ^ 32" for x y
    using that by (simp add: word_of_nat_eq_iff take_bit_nat_eq_self)
  have "(of_nat a :: u32) = 0 \<longleftrightarrow> a = 0" using inj [of a 0] assms by simp
  then show ?thesis using inj [OF assms(1,2)] by auto
qed

definition version_2p1 :: "mem \<Rightarrow> bool" where
  "version_2p1 m \<longleftrightarrow> (\<forall>i < 3. m (8 + i) = IDME_VERSION_2P1 ! i)"

lemma length_version [simp]: "length IDME_VERSION_2P1 = 3" "length IDME_VERSION_2P0 = 3"
  by (simp_all add: IDME_VERSION_2P1_def IDME_VERSION_2P0_def cstr_def)

lemma strneq_version [simp]:
  "strneq_at CONFIG_IDME_SIZE m 8 IDME_VERSION_2P1 = Some (version_2p1 m)"
  by (simp add: strneq_at_iff version_2p1_def CONFIG_IDME_SIZE_def)

lemma idme_rep_header:
  assumes at: "items_at m 16 its" and e: "items_end 16 its < CONFIG_IDME_SIZE"
    and hd: "\<forall>i < 8. m i = IDME_MAGIC_NUMBER ! i" and z: "m (CONFIG_IDME_SIZE - 1) = 0"
    and m': "st32 CONFIG_IDME_SIZE m 12 (of_nat (length its)) = Some m'"
  shows "idme_rep m' its"
proof -
  have out: "m' j = m j" if "j < 12 \<or> 16 \<le> j" for j
    using m' that by (auto simp: st32_def)
  have "items_at m' 16 its" using at items_at_cong [of 16 its m m'] out by simp
  moreover have "ld32 CONFIG_IDME_SIZE m' 12 = Some (of_nat (length its))"
    using m' by (auto simp: st32_def ld32_def CONFIG_IDME_SIZE_def)
  moreover have "m' (CONFIG_IDME_SIZE - 1) = 0"
    using out z by (simp add: CONFIG_IDME_SIZE_def)
  ultimately show ?thesis using e hd out by (simp add: idme_rep_def magic_ok_def)
qed


text \<open>Whether the stored table differs from the template in its set of items, as far as the
  counters of the migration can tell.\<close>

definition needs_migration :: "item list \<Rightarrow> idme_init_values list \<Rightarrow> bool" where
  "needs_migration its es \<longleftrightarrow>
     (\<exists>e \<in> set es. lookup_item its (init_name e) = None) \<or> length its \<noteq> length es"

lemma IDME_size_12: "12 \<le> CONFIG_IDME_SIZE"
  by (simp add: CONFIG_IDME_SIZE_def)

lemma idme_update_table_rep:
  assumes rep: "idme_rep cur its" and ver: "version_2p1 cur"
    and es: "\<forall>e \<in> set es. migratable its e" and t: "init_name t = []"
    and fits: "items_end 16 (map (migrated its) es) < CONFIG_IDME_SIZE"
  shows "\<exists>m'. idme_update_table_v2p0 (es @ [t]) True (Some cur) =
      Some (if needs_migration its es then 0 else -2, Some m') \<and>
    (if needs_migration its es then idme_rep m' (map (migrated its) es) \<and> version_2p1 m' else m' = cur)"
proof -
  let ?its = "map (migrated its) es"
  let ?new = "length (filter (\<lambda>e. lookup_item its (init_name e) = None) es)"
  let ?m0 = "\<lambda>i. if i < 12 then map cur [0..<12] ! i else 0"
  obtain m1 where m1: "idme_update_items cur (es @ [t]) (?m0, 16, 0, 0) =
      Some (m1, items_end 16 ?its, of_nat (length es), of_nat ?new)"
    and at: "items_at m1 16 ?its"
    and fr: "\<And>j. j < 16 \<or> items_end 16 ?its \<le> j \<Longrightarrow> m1 j = ?m0 j"
    using idme_update_items_at [OF rep es t, of 16 ?m0 0 0] fits by auto
  have hd: "m1 j = cur j" if "j < 12" for j
    using fr [of j] that by simp
  have "?m0 (CONFIG_IDME_SIZE - 1) = 0" by (simp add: CONFIG_IDME_SIZE_def)
  then have z: "m1 (CONFIG_IDME_SIZE - 1) = 0"
    using fr [of "CONFIG_IDME_SIZE - 1"] fits by (metis Suc_diff_1 IDME_size_pos(1) less_Suc_eq_le)
  obtain m2 where m2: "st32 CONFIG_IDME_SIZE m1 12 (of_nat (length es)) = Some m2"
    by (simp add: st32_def memcpy_to_def CONFIG_IDME_SIZE_def)
  have "magic_ok cur" using rep by (simp add: idme_rep_def)
  then have rep2: "idme_rep m2 ?its"
    using m2 hd by (intro idme_rep_header [OF at fits _ z]) (auto simp: magic_ok_def)
  have ver2: "version_2p1 m2"
    using m2 hd ver by (auto simp: version_2p1_def st32_def)
  have "?new \<noteq> 0 \<longleftrightarrow> (\<exists>e \<in> set es. lookup_item its (init_name e) = None)"
    by (simp add: filter_empty_conv)
  then have dec: "((of_nat ?new :: u32) \<noteq> 0 \<or>
      of_nat (length its) + of_nat ?new - of_nat (length es) \<noteq> (0 :: u32)) = needs_migration its es"
    using migration_counters [of its es ?new] idme_rep_length [OF rep] items_end_length [of ?its] fits
    by (auto simp: needs_migration_def)
  have cp: "memcpy_to CONFIG_IDME_SIZE (\<lambda>_. 0) 0 (map cur [0..<12]) = Some ?m0"
    by (simp add: CONFIG_IDME_SIZE_def cong: if_cong)
  have "idme_update_table_v2p0 (es @ [t]) True (Some cur) =
      (if needs_migration its es then Some (0, Some m2) else Some (-2, Some cur))"
    using \<open>magic_ok cur\<close> ver idme_rep_num(1) [OF rep] dec
    by (auto simp: idme_update_table_v2p0_def memcpy_from_def cp m1 m2 Let_def IDME_size_12)
  then show ?thesis using rep2 ver2 by auto
qed

section \<open>The buffer as a store\<close>

text \<open>The store operations in terms of the C entry points: the size of an item from its
  descriptor, reading into a zeroed buffer of that size, writing all bytes of a value.\<close>

definition idme_size :: "mem \<Rightarrow> byte list \<Rightarrow> nat option" where
  "idme_size m n = (case idme_get_item_desc_v2p0 (Some m) n of
     Some (Some off) \<Rightarrow> map_option unat (ld32 CONFIG_IDME_SIZE m (off + off_size))
   | _ \<Rightarrow> None)"

definition idme_read_item :: "mem \<Rightarrow> byte list \<Rightarrow> byte list option" where
  "idme_read_item m n = do {
     k \<leftarrow> idme_size m n;
     (ret, buf) \<leftarrow> idme_get_var_v2p0 n (Some (replicate k 0)) k (Some m);
     if ret = 0 then buf else None }"

definition idme_write_item :: "mem \<Rightarrow> byte list \<Rightarrow> byte list \<Rightarrow> mem option" where
  "idme_write_item m n v = do {
     (ret, m') \<leftarrow> idme_update_var_v2p0 n (Some v) (length v) (Some m);
     if ret = 0 then m' else None }"

definition idme_wf :: "mem \<Rightarrow> bool" where
  "idme_wf m \<longleftrightarrow> (\<exists>its. idme_rep m its)"

lemma fit_pad_to: "fit v d = pad_to 0 (length d) v"
  by (simp add: fit_def pad_to_def)

lemma lookup_modify:
  "lookup_item (modify_item its n f) n' =
     (if n' = n then map_option (\<lambda>it. it\<lparr>idata := f (idata it)\<rparr>) (lookup_item its n) else lookup_item its n')"
  by (induction its) (auto simp: lookup_item_def)

lemma idme_size_rep:
  assumes "idme_rep m its" "is_cstr n"
  shows "idme_size m n = map_option (\<lambda>it. length (idata it)) (lookup_item its n)"
proof (cases "item_off 16 its n")
  case None
  then show ?thesis
    using assms(1) item_off_None [of 16 its n]
    by (simp add: idme_size_def idme_get_item_desc_v2p0_def idme_find_rep [OF assms] idme_rep_def)
next
  case (Some k)
  obtain it where it: "lookup_item its n = Some it" "item_at m k it"
    using assms(1) Some by (auto simp: idme_rep_def elim: item_off_Some)
  then show ?thesis
    using assms(1) Some item_atD(2,3) [OF it(2)]
    by (simp add: idme_size_def idme_get_item_desc_v2p0_def idme_find_rep [OF assms] idme_rep_def)
qed

lemma idme_read_item_rep:
  assumes "idme_rep m its" "is_cstr n"
  shows "idme_read_item m n = map_option idata (lookup_item its n)"
  using idme_get_var_refines [OF assms, of "length (idata (the (lookup_item its n)))"
      "replicate (length (idata (the (lookup_item its n)))) 0"]
  by (auto simp: idme_read_item_def idme_size_rep [OF assms] split: option.splits)

lemma idme_write_item_None:
  assumes "idme_rep m its" "is_cstr n" "lookup_item its n = None"
  shows "idme_write_item m n v = None"
  using idme_update_var_refines [OF assms(1,2), of "length v" v] assms(3) by (simp add: idme_write_item_def)

lemma idme_write_item_ex:
  assumes "idme_rep m its" "is_cstr n" "lookup_item its n \<noteq> None"
  shows "\<exists>m'. idme_write_item m n v = Some m' \<and> idme_rep m' (modify_item its n (fit v))"
  using idme_update_var_refines [OF assms(1,2), of "length v" v] assms(3)
  by (auto simp: idme_write_item_def)

lemma idme_write_item_SomeD:
  assumes "idme_rep m its" "is_cstr n" "idme_write_item m n v = Some m'"
  shows "idme_rep m' (modify_item its n (fit v))" "lookup_item its n \<noteq> None"
  using idme_write_item_None [OF assms(1,2), of v] idme_write_item_ex [OF assms(1,2), of v] assms(3) by auto

lemma idme_wf_write:
  assumes "idme_wf m" "is_cstr n" "idme_write_item m n v = Some m'"
  obtains its where "idme_rep m its" "idme_rep m' (modify_item its n (fit v))"
  using assms idme_write_item_SomeD(1) unfolding idme_wf_def by blast

interpretation idme: item_store idme_wf is_cstr idme_size idme_read_item idme_write_item 0
proof
  fix s n v assume "idme_wf s" "is_cstr n" "idme_size s n \<noteq> None"
  then show "idme_write_item s n v \<noteq> None"
    using idme_write_item_ex [of s _ n v] by (fastforce simp: idme_wf_def idme_size_rep)
next
  fix s n v assume "idme_wf s" "is_cstr n" "idme_size s n = None"
  then show "idme_write_item s n v = None"
    using idme_write_item_None [of s _ n v] by (auto simp: idme_wf_def idme_size_rep)
next
  fix s n v s' assume "idme_wf s" "is_cstr n" "idme_write_item s n v = Some s'"
  then show "idme_wf s'" by (rule idme_wf_write) (auto simp: idme_wf_def)
next
  fix s n n' v s' assume a: "idme_wf s" "is_cstr n" "is_cstr n'" "idme_write_item s n v = Some s'"
  show "idme_size s' n' = idme_size s n'"
    by (rule idme_wf_write [OF a(1,2,4)])
       (simp add: idme_size_rep a lookup_modify option.map_comp comp_def)
next
  fix s n v s' k assume a: "idme_wf s" "is_cstr n" "idme_write_item s n v = Some s'" "idme_size s n = Some k"
  show "idme_read_item s' n = Some (pad_to 0 k v)"
    by (rule idme_wf_write [OF a(1-3)])
       (use a(4) in \<open>auto simp: idme_size_rep a(2) idme_read_item_rep lookup_modify fit_pad_to\<close>)
next
  fix s n n' v s' assume a: "idme_wf s" "is_cstr n" "is_cstr n'" "n' \<noteq> n" "idme_write_item s n v = Some s'"
  show "idme_read_item s' n' = idme_read_item s n'"
    by (rule idme_wf_write [OF a(1,2,5)]) (simp add: idme_read_item_rep a lookup_modify)
qed

section \<open>The default table of the margo project\<close>

definition entry :: "string \<Rightarrow> u32 \<Rightarrow> u32 \<Rightarrow> string option \<Rightarrow> idme_init_values" where
  "entry n sz ex v = \<lparr>init_name = cstr n, init_size = sz, init_exportable = ex,
     init_permission = 292, init_value = map_option cstr v\<rparr>"

text \<open>The entries of \<open>idme_default_values\<close> before the certificate item, that item, and the
  terminator; the permission 0444 is 292.\<close>

definition margo_items :: "idme_init_values list" where
  "margo_items = [
     entry ''board_id'' 16 1 (Some ''ffffff0000000000''),
     entry ''serial'' 16 1 (Some ''0''),
     entry ''mac_addr'' 16 1 (Some ''0''),
     entry ''mac_sec'' 32 1 (Some ''0''),
     entry ''bt_mac_addr'' 16 1 (Some ''0''),
     entry ''product_name'' 32 1 (Some ''0''),
     entry ''productid'' 32 1 (Some ''0''),
     entry ''productid2'' 32 1 (Some ''0''),
     entry ''bootmode'' 4 1 (Some ''1''),
     entry ''postmode'' 4 1 (Some ''0''),
     entry ''bootcount'' 8 1 (Some ''0''),
     entry ''manufacturing'' 512 1 (Some ''''),
     entry ''eth_mac_addr'' 16 1 (Some ''0''),
     entry ''eth_ip_addr'' 16 1 (Some ''0''),
     entry ''device_type_id'' 32 1 (Some ''0''),
     entry ''unlock_code'' 1024 1 (Some ''''),
     entry ''wifi_mfg'' 512 1 (Some ''0''),
     entry ''bt_mfg'' 128 1 (Some ''0''),
     entry ''dev_flags'' 8 1 (Some ''0''),
     entry ''fos_flags'' 8 1 (Some ''0''),
     entry ''usr_flags'' 8 1 (Some ''0''),
     entry ''model_name'' 256 1 (Some ''/config/model/Customer_1.ini'')]"

definition margo_cert :: idme_init_values where
  "margo_cert = entry ''cert'' 115712 0 None"

definition margo_end :: idme_init_values where
  "margo_end = \<lparr>init_name = [], init_size = 0, init_exportable = 0, init_permission = 0, init_value = None\<rparr>"

definition idme_default_values :: "idme_init_values list" where
  "idme_default_values = margo_items @ [margo_cert, margo_end]"

lemma margo_items_valid: "\<forall>e \<in> set margo_items. valid_entry e"
  by (simp add: margo_items_def entry_def valid_entry_def valid_name_def is_cstr_def cstr_def IDME_MAX_NAME_LEN_def)

lemma margo_end_name: "init_name margo_end = []"
  by (simp add: margo_end_def)

lemma margo_items_end: "items_end 16 (map default_item margo_items) = 3360"
  by (simp add: margo_items_def item_size_default entry_def)

text \<open>The image the builder makes of the margo table without its certificate item.\<close>

definition margo_image :: mem where
  "margo_image = snd (the (idme_init_var_v2p0 (margo_items @ [margo_end]) (\<lambda>_. 0)))"

lemma margo_image_rep: "idme_rep margo_image (map default_item margo_items)" "version_2p1 margo_image"
  using idme_init_var_rep [OF margo_items_valid margo_end_name, of "\<lambda>_. 0"] margo_items_end
  by (auto simp: margo_image_def version_2p1_def CONFIG_IDME_SIZE_def)

lemma margo_image_wf: "idme_wf margo_image"
  using margo_image_rep(1) by (auto simp: idme_wf_def)

lemma margo_lookup:
  "lookup_item (map default_item margo_items) (cstr ''bootcount'') = Some (default_item (entry ''bootcount'' 8 1 (Some ''0'')))"
  "lookup_item (map default_item margo_items) (cstr ''serial'') = Some (default_item (entry ''serial'' 16 1 (Some ''0'')))"
  "lookup_item (map default_item margo_items) (cstr ''no_such'') = None"
  by (simp_all add: lookup_item_def margo_items_def entry_def cstr_def)

lemma bootcount_data: "idata (default_item (entry ''bootcount'' 8 1 (Some ''0''))) = [48, 0, 0, 0, 0, 0, 0, 0]"
proof -
  have "replicate 7 (0 :: byte) = [0, 0, 0, 0, 0, 0, 0]" by (simp add: numeral_eq_Suc)
  then show ?thesis by (simp add: default_item_def entry_def fit_def cstr_def)
qed

lemma is_cstr_names [simp]:
  "is_cstr (cstr ''bootcount'')" "is_cstr (cstr ''serial'')" "is_cstr (cstr ''no_such'')" "is_cstr (cstr ''bootmode'')"
  by (simp_all add: is_cstr_def cstr_def)

text \<open>An entry with a null value that fits the buffer makes the builder evaluate \<open>strlen (NULL)\<close>.\<close>

lemma idme_init_items_null:
  assumes "\<forall>e \<in> set es. valid_entry e" "init_name z \<noteq> []" "init_value z = None"
    and "items_end off (map default_item es) + 28 + unat (init_size z) \<le> CONFIG_IDME_SIZE"
  shows "idme_init_items m off (es @ z # rest) = None"
  using assms(1,4)
proof (induction es arbitrary: m off)
  case Nil
  then show ?case using assms(2,3) by (simp add: idme_item_init_def memset_def)
next
  case (Cons e es)
  let ?next = "off + item_size (default_item e)"
  have e: "valid_entry e" and ne: "init_name e \<noteq> []"
    using Cons.prems(1) by (auto simp: valid_entry_def valid_name_def)
  have "?next \<le> CONFIG_IDME_SIZE"
    using Cons.prems(2) items_end_mono [of ?next "map default_item es"] by simp
  then obtain m1 where m1: "idme_item_init m off (Some (init_name e)) (init_size e)
        (init_exportable e) (init_permission e) (init_value e) = Some m1"
    and at1: "item_at m1 off (default_item e)"
    using idme_init_entry_at [OF e] by blast
  have nx: "(case es @ z # rest of [] \<Rightarrow> None | e' # _ \<Rightarrow>
      if init_name e' \<noteq> [] then idme_item_next m1 off else Some off) = Some ?next"
    using Cons.prems(1) assms(2) at1 by (cases es) (auto simp: valid_entry_def valid_name_def)
  have "idme_init_items m1 ?next (es @ z # rest) = None" using Cons.prems by (intro Cons.IH) auto
  then show ?case by (simp add: m1 nx ne)
qed

section \<open>Properties\<close>

text \<open>C1: the byte-level IDME buffer is a faithful named store.  Any sequence of calls of
  \<open>idme_update_var_v2p0\<close> on items of a well-formed buffer succeeds, keeps the buffer well-formed,
  and afterwards \<open>idme_get_var_v2p0\<close> returns for every item the last value written to it, cut or
  zero-padded to the item's size, and for the items not written what it returned before.\<close>

theorem idme_update_sequence:
  assumes "idme_wf m" "\<forall>(n, v) \<in> set ops. is_cstr n \<and> idme_size m n \<noteq> None"
  shows "\<exists>m'. run_writes idme_write_item m ops = Some m' \<and> idme_wf m' \<and>
    (\<forall>n k. is_cstr n \<longrightarrow> idme_size m n = Some k \<longrightarrow>
       idme_read_item m' n = (case map_of (rev ops) n of Some v \<Rightarrow> Some (pad_to 0 k v) | None \<Rightarrow> idme_read_item m n))"
  using idme.run_writes_total [OF assms] idme.run_writes_read [OF assms] by blast

theorem idme_update_sequence_witness:
  "\<exists>m'. run_writes idme_write_item margo_image
     [(cstr ''bootcount'', cstr ''12''), (cstr ''serial'', cstr ''G0''), (cstr ''bootcount'', cstr ''13'')] = Some m' \<and>
   idme_read_item m' (cstr ''bootcount'') = Some [49, 51, 0, 0, 0, 0, 0, 0]"
proof -
  let ?ops = "[(cstr ''bootcount'', cstr ''12''), (cstr ''serial'', cstr ''G0''), (cstr ''bootcount'', cstr ''13'')]"
  have sz: "idme_size margo_image (cstr ''bootcount'') = Some 8" "idme_size margo_image (cstr ''serial'') = Some 16"
    by (simp_all add: idme_size_rep [OF margo_image_rep(1)] margo_lookup default_item_def entry_def)
  have val: "pad_to 0 8 (cstr ''13'') = [49, 51, 0, 0, 0, 0, 0, 0]"
    by (simp add: pad_to_def cstr_def numeral_eq_Suc)
  have "\<forall>(n, v) \<in> set ?ops. is_cstr n \<and> idme_size margo_image n \<noteq> None" using sz by simp
  from idme_update_sequence [OF margo_image_wf this] obtain m' where
    "run_writes idme_write_item margo_image ?ops = Some m'"
    "\<forall>n k. is_cstr n \<longrightarrow> idme_size margo_image n = Some k \<longrightarrow> idme_read_item m' n =
      (case map_of (rev ?ops) n of Some v \<Rightarrow> Some (pad_to 0 k v) | None \<Rightarrow> idme_read_item margo_image n)" by blast
  then show ?thesis using sz val by force
qed

text \<open>C2: what \<open>idme_update_var_v2p0\<close> does on every branch of a well-formed buffer.  Without a
  table (null or bad magic) or with a null value it fails and changes nothing; with an unknown
  name it fails and changes nothing; otherwise it returns 0 and the buffer represents the same
  items with the data of exactly the named one replaced by the first \<open>len\<close> bytes of the value,
  cut to the item's size and zero-padded.\<close>

theorem idme_update_var_branches:
  assumes "idme_rep m its" "is_cstr n" "length v = len"
  shows "idme_update_var_v2p0 n val len None = Some (-1, None) \<and>
    (\<not> magic_ok b \<longrightarrow> idme_update_var_v2p0 n val len (Some b) = Some (-1, Some b)) \<and>
    idme_update_var_v2p0 n None len (Some m) = Some (-1, Some m) \<and>
    (case lookup_item its n of
       None \<Rightarrow> idme_update_var_v2p0 n (Some v) len (Some m) = Some (-1, Some m)
     | Some it \<Rightarrow> \<exists>m'. idme_update_var_v2p0 n (Some v) len (Some m) = Some (0, Some m') \<and>
         idme_rep m' (modify_item its n (fit v)))"
  using idme_update_var_refines [OF assms(1,2), of len v] assms(1,3)
  by (auto simp: idme_update_var_v2p0_def idme_rep_def split: option.splits)

theorem idme_update_var_branches_witness:
  "\<exists>m'. idme_update_var_v2p0 (cstr ''bootcount'') (Some [49, 50]) 2 (Some margo_image) = Some (0, Some m') \<and>
     idme_rep m' (modify_item (map default_item margo_items) (cstr ''bootcount'') (fit [49, 50]))"
  using idme_update_var_branches [OF margo_image_rep(1), of "cstr ''bootcount''" "[49, 50]" 2] margo_lookup(1)
  by simp

text \<open>C3: what \<open>idme_get_var_v2p0\<close> does on every branch.  It fails and leaves the buffer alone
  without a table, with a null buffer or with an unknown name; otherwise it returns 0 and
  overwrites exactly the first \<open>min size len\<close> bytes of the caller's buffer with the item's data.\<close>

theorem idme_get_var_branches:
  assumes "idme_rep m its" "is_cstr n" "length buf = len"
  shows "idme_get_var_v2p0 n ob len None = Some (-1, ob) \<and>
    (\<not> magic_ok b \<longrightarrow> idme_get_var_v2p0 n ob len (Some b) = Some (-1, ob)) \<and>
    idme_get_var_v2p0 n None len (Some m) = Some (-1, None) \<and>
    idme_get_var_v2p0 n (Some buf) len (Some m) =
      (case lookup_item its n of
         None \<Rightarrow> Some (-1, Some buf)
       | Some it \<Rightarrow> Some (0, Some (take len (idata it) @ drop (length (idata it)) buf)))"
  using idme_get_var_refines [OF assms(1,2), of len buf] assms(1,3)
  by (auto simp: idme_get_var_v2p0_def idme_rep_def min_def split: option.splits)

theorem idme_get_var_branches_witness:
  "idme_get_var_v2p0 (cstr ''bootcount'') (Some (replicate 9 7)) 9 (Some margo_image) =
     Some (0, Some [48, 0, 0, 0, 0, 0, 0, 0, 7])"
  using idme_get_var_branches [OF margo_image_rep(1), of "cstr ''bootcount''" "replicate 9 7" 9] margo_lookup(1)
  by (simp add: bootcount_data)

text \<open>C4: \<open>idme_init_var_v2p0\<close> turns any buffer into a well-formed version 2.1 image that holds
  exactly the items of the default table in order, each with its default value zero-padded to
  its size, whenever the entries are valid and fit.\<close>

theorem idme_init_var_builds_table:
  assumes "\<forall>e \<in> set es. valid_entry e" "init_name t = []"
    and "items_end 16 (map default_item es) < CONFIG_IDME_SIZE"
  shows "\<exists>m'. idme_init_var_v2p0 (es @ [t]) m = Some (0, m') \<and>
    idme_rep m' (map default_item es) \<and> version_2p1 m'"
  using idme_init_var_rep [OF assms] by (auto simp: version_2p1_def)

theorem idme_init_var_builds_table_witness:
  "\<exists>m'. idme_init_var_v2p0 (margo_items @ [margo_end]) (\<lambda>_. 255) = Some (0, m') \<and>
    idme_rep m' (map default_item margo_items) \<and> version_2p1 m'"
  by (rule idme_init_var_builds_table)
     (simp_all add: margo_items_valid margo_end_name margo_items_end CONFIG_IDME_SIZE_def)



text \<open>C6: building the default image of the margo project from its real table is undefined
  behaviour for every prior buffer content: the \<open>cert\<close> entry has a null default value, its room
  check succeeds, and \<open>IDME_ITEM_INIT\<close> then takes \<open>strlen\<close> of the null pointer.\<close>

theorem idme_margo_default_undefined: "idme_init_var_v2p0 idme_default_values m = None"
proof -
  have "idme_init_items m' 16 (margo_items @ margo_cert # [margo_end]) = None" for m'
    by (rule idme_init_items_null)
       (simp_all add: margo_items_valid margo_items_end margo_cert_def entry_def cstr_def CONFIG_IDME_SIZE_def)
  then show ?thesis
    by (simp add: idme_init_var_v2p0_def idme_default_values_def memset_def memcpy_to_def CONFIG_IDME_SIZE_def)
qed

end
