(* ===== verification/Idme_Export.thy ===== *)
theory Idme_Export
  imports Idme_V2
begin

text \<open>
  The two ways the IDME table leaves the boot loader: \<open>idme_print_var_v2p0\<close>, which lists the
  items on the console and to the fastboot host, and \<open>idme_init_atag_v2p0\<close>, which copies the
  exportable items into the ATAG buffer handed to the kernel.  Both are given over the bytes of
  the table and characterised by the items it represents.
\<close>

section \<open>Printing and exporting the table\<close>

definition IDME_MAX_PRINT_SIZE :: nat where
  "IDME_MAX_PRINT_SIZE = 40"

text \<open>\<open>idme_permission_to_string\<close>: each round of the loop looks at the three lowest bits and
  fills the three cells that belong to them, from the right end of the buffer.\<close>

fun perm_round :: "nat \<Rightarrow> u32 \<times> byte list \<Rightarrow> u32 \<times> byte list" where
  "perm_round i (permission, buf) =
     (let buf = (if permission AND 1 \<noteq> 0 then buf[8 - i * 3 := of_char CHR ''x''] else buf);
          buf = (if permission AND 2 \<noteq> 0 then buf[7 - i * 3 := of_char CHR ''w''] else buf);
          buf = (if permission AND 4 \<noteq> 0 then buf[6 - i * 3 := of_char CHR ''r''] else buf)
      in (signed_drop_bit 3 permission, buf))"

definition idme_permission_to_string :: "u32 \<Rightarrow> byte list" where
  "idme_permission_to_string permission =
     takeWhile (\<lambda>c. c \<noteq> 0)
       (snd (fold perm_round [0..<3] (permission, replicate 9 (of_char CHR ''-'') @ [0])))"

text \<open>The line \<open>idme_print_var_v2p0\<close> logs for an item, and what it sends to the fastboot host:
  the C strings handed to \<open>fastboot_info\<close>, in order.\<close>

record idme_log_line =
  log_name :: "byte list"
  log_size :: u32
  log_exportable :: u32
  log_permission :: "byte list"
  log_data :: "byte list"

text \<open>\<open>snprintf (temp, sizeof (temp), ...)\<close> keeps one byte for the terminator; \<open>temp\<close> is zeroed
  before every use, so the string it holds ends at the first NUL of what was copied.\<close>

definition snprintf_str :: "nat \<Rightarrow> byte list \<Rightarrow> byte list" where
  "snprintf_str n s = take (n - 1) s"

definition idme_secret_names :: "byte list list" where
  "idme_secret_names = [cstr ''manufacturing'', cstr ''mac_sec'', cstr ''unlock_code'']"

definition idme_print_item :: "mem \<Rightarrow> nat \<Rightarrow> (idme_log_line \<times> byte list list) option" where
  "idme_print_item m off = do {
     sz \<leftarrow> ld32 CONFIG_IDME_SIZE m (off + off_size);
     temp \<leftarrow> memcpy_from CONFIG_IDME_SIZE m (off + sizeof_desc) (min (unat sz) IDME_MAX_PRINT_SIZE);
     let val = takeWhile (\<lambda>c. c \<noteq> 0) temp;
     nm \<leftarrow> cstr_at CONFIG_IDME_SIZE m off;
     ex \<leftarrow> ld32 CONFIG_IDME_SIZE m (off + off_exportable);
     pm \<leftarrow> ld32 CONFIG_IDME_SIZE m (off + off_permission);
     a \<leftarrow> strcmp_at CONFIG_IDME_SIZE m off (cstr ''manufacturing'');
     b \<leftarrow> strcmp_at CONFIG_IDME_SIZE m off (cstr ''mac_sec'');
     c \<leftarrow> strcmp_at CONFIG_IDME_SIZE m off (cstr ''unlock_code'');
     Some (\<lparr>log_name = nm, log_size = sz, log_exportable = ex,
            log_permission = idme_permission_to_string pm, log_data = val\<rparr>,
           if \<not> a \<and> \<not> b \<and> \<not> c
           then [snprintf_str (IDME_MAX_PRINT_SIZE + 1) (nm @ cstr '': ''), val] else []) }"

fun idme_print_items ::
  "mem \<Rightarrow> nat \<Rightarrow> nat \<Rightarrow> (idme_log_line list \<times> byte list list) option" where
  "idme_print_items m 0 off = Some ([], [])"
| "idme_print_items m (Suc k) off = do {
     (l, out) \<leftarrow> idme_print_item m off;
     off' \<leftarrow> idme_item_next m off;
     (ls, outs) \<leftarrow> idme_print_items m k off';
     Some (l # ls, out @ outs) }"

definition idme_print_var_v2p0 ::
  "mem option \<Rightarrow> (int \<times> idme_log_line list \<times> byte list list) option" where
  "idme_print_var_v2p0 data = do {
     p \<leftarrow> idme_check_magic_number data;
     if p \<noteq> 0 then Some (-1, [], [])
     else do {
       m \<leftarrow> data;
       num \<leftarrow> ld32 CONFIG_IDME_SIZE m off_items_num;
       (ls, out) \<leftarrow> idme_print_items m (unat num) off_item_data;
       Some (0, ls, out) } }"

text \<open>\<open>idme_init_atag_v2p0\<close>: the items are copied into an ATAG buffer of \<open>lim\<close> bytes.  The
  destination advances by the size of every item, but only exportable ones are copied and
  counted.  The loop state is the buffer, its position and the number of items copied; the
  result is \<open>None\<close> beside the buffer when the loop stopped for lack of room.\<close>

definition idme_atag_copy :: "mem \<Rightarrow> nat \<Rightarrow> nat \<Rightarrow> nat \<Rightarrow> mem \<Rightarrow> nat \<Rightarrow> mem option" where
  "idme_atag_copy m lim off len atag pos = do {
     xs \<leftarrow> memcpy_from CONFIG_IDME_SIZE m off len;
     atag \<leftarrow> memcpy_to lim atag pos xs;
     n \<leftarrow> ld32 lim atag off_items_num;
     st32 lim atag off_items_num (n + 1) }"

fun idme_atag_items ::
  "mem \<Rightarrow> nat \<Rightarrow> nat \<Rightarrow> nat \<Rightarrow> mem \<Rightarrow> nat \<Rightarrow> (int \<times> mem) option" where
  "idme_atag_items m lim 0 off atag pos = Some (0, atag)"
| "idme_atag_items m lim (Suc k) off atag pos = do {
     sz \<leftarrow> ld32 CONFIG_IDME_SIZE m (off + off_size);
     if pos + (sizeof_desc + unat sz) > lim then Some (-1, atag)
     else do {
       ex \<leftarrow> ld32 CONFIG_IDME_SIZE m (off + off_exportable);
       atag \<leftarrow> (if ex \<noteq> 0 then idme_atag_copy m lim off (sizeof_desc + unat sz) atag pos
         else Some atag);
       off' \<leftarrow> idme_item_next m off;
       idme_atag_items m lim k off' atag (pos + (sizeof_desc + unat sz)) } }"

text \<open>The counter \<open>count\<close> is an \<open>int\<close>; the loop \<open>while (count--)\<close> of a table that fits the
  buffer runs \<open>items_num\<close> times.  The item count is read before the magic number is checked, so
  a null pointer is undefined here.\<close>

definition idme_init_atag_v2p0 :: "mem \<Rightarrow> mem option \<Rightarrow> nat \<Rightarrow> (int \<times> mem) option" where
  "idme_init_atag_v2p0 atag_buffer data lim = do {
     m \<leftarrow> data;
     num \<leftarrow> ld32 CONFIG_IDME_SIZE m off_items_num;
     p \<leftarrow> idme_check_magic_number data;
     if p \<noteq> 0 then Some (-1, atag_buffer)
     else do {
       atag \<leftarrow> memset lim atag_buffer 0 0 lim;
       atag \<leftarrow> memcpy_to lim atag 0 IDME_MAGIC_NUMBER;
       atag \<leftarrow> memcpy_to lim atag off_version IDME_VERSION_2P0;
       atag \<leftarrow> st32 lim atag off_items_num 0;
       idme_atag_items m lim (unat num) off_item_data atag off_item_data } }"

section \<open>What printing shows\<close>

definition log_line :: "item \<Rightarrow> idme_log_line" where
  "log_line it = \<lparr>log_name = iname it, log_size = of_nat (length (idata it)),
     log_exportable = iexport it, log_permission = idme_permission_to_string (iperm it),
     log_data = takeWhile (\<lambda>c. c \<noteq> 0) (take IDME_MAX_PRINT_SIZE (idata it))\<rparr>"

text \<open>What the host sees of an item.\<close>

definition host_view :: "item \<Rightarrow> byte list list" where
  "host_view it = (if iname it \<in> set idme_secret_names then []
     else [iname it @ cstr '': '', takeWhile (\<lambda>c. c \<noteq> 0) (take IDME_MAX_PRINT_SIZE (idata it))])"

lemma is_cstr_secret [simp]:
  "is_cstr (cstr ''manufacturing'')" "is_cstr (cstr ''mac_sec'')" "is_cstr (cstr ''unlock_code'')"
  by (simp_all add: is_cstr_def cstr_def)

lemma idme_print_item_at:
  assumes "item_at m k it"
  shows "idme_print_item m k = Some (log_line it, host_view it)"
proof -
  note d = item_atD [OF assms] and s = item_at_name_string [OF assms]
  have "map m [k + 28..<k + 28 + min (length (idata it)) IDME_MAX_PRINT_SIZE] = take IDME_MAX_PRINT_SIZE (idata it)"
    by (subst d(4) [symmetric]) (simp add: take_map take_upt min_def)
  then have val: "memcpy_from CONFIG_IDME_SIZE m (k + 28) (min (length (idata it)) IDME_MAX_PRINT_SIZE) =
      Some (take IDME_MAX_PRINT_SIZE (idata it))"
    using d(1) by (simp add: memcpy_from_def item_size_def)
  have fld: "ld32 CONFIG_IDME_SIZE m (k + 20) = Some (iexport it)" "ld32 CONFIG_IDME_SIZE m (k + 24) = Some (iperm it)"
    using assms by (simp_all add: item_at_def)
  have "snprintf_str 41 (iname it @ cstr '': '') = iname it @ cstr '': ''"
    using s(3) by (simp add: snprintf_str_def cstr_def)
  then show ?thesis
    using d(2,3) fld s(1) item_at_strcmp [OF assms]
    by (simp add: idme_print_item_def log_line_def host_view_def idme_secret_names_def Let_def
        IDME_MAX_PRINT_SIZE_def val [unfolded IDME_MAX_PRINT_SIZE_def])
qed

lemma idme_print_items_at:
  "items_at m off its \<Longrightarrow>
   idme_print_items m (length its) off = Some (map log_line its, concat (map host_view its))"
  by (induction its arbitrary: off) (auto simp: idme_print_item_at)

lemma idme_print_var_rep:
  assumes "idme_rep m its"
  shows "idme_print_var_v2p0 (Some m) = Some (0, map log_line its, concat (map host_view its))"
  using assms idme_print_items_at [of m 16 its] idme_rep_num [OF assms]
  by (simp add: idme_print_var_v2p0_def idme_rep_def)

lemma bit_and_test: "(p AND 1 \<noteq> 0) = bit (p :: u32) 0" "(p AND 2 \<noteq> 0) = bit p 1" "(p AND 4 \<noteq> 0) = bit p 2"
  using and_exp_eq_0_iff_not_bit [of p 0] and_exp_eq_0_iff_not_bit [of p 1] and_exp_eq_0_iff_not_bit [of p 2]
  by simp_all

lemma perm_round_cells:
  "perm_round 0 (p, [a, b, c, d, e, f, g, h, i, z]) = (signed_drop_bit 3 p,
     [a, b, c, d, e, f, if bit p 2 then 114 else g, if bit p 1 then 119 else h, if bit p 0 then 120 else i, z])"
  "perm_round (Suc 0) (p, [a, b, c, d, e, f, g, h, i, z]) = (signed_drop_bit 3 p,
     [a, b, c, if bit p 2 then 114 else d, if bit p 1 then 119 else e, if bit p 0 then 120 else f, g, h, i, z])"
  "perm_round 2 (p, [a, b, c, d, e, f, g, h, i, z]) = (signed_drop_bit 3 p,
     [if bit p 2 then 114 else a, if bit p 1 then 119 else b, if bit p 0 then 120 else c, d, e, f, g, h, i, z])"
  by (cases "bit p 0"; cases "bit p 1"; cases "bit p 2"; simp add: bit_and_test Let_def numeral_eq_Suc)+

lemma perm_rounds:
  "snd (fold perm_round [0..<3] (p, replicate 9 (of_char CHR ''-'') @ [0])) =
     map (\<lambda>j. if bit p (8 - j) then cstr ''rwxrwxrwx'' ! j else of_char CHR ''-'') [0..<9] @ [0]"
proof -
  have u: "[0..<3] = [0, Suc 0, 2]" "[0..<9] = [0, 1, 2, 3, 4, 5, 6, 7, 8::nat]"
    "replicate 9 (of_char CHR ''-'') @ [0 :: byte] = [45, 45, 45, 45, 45, 45, 45, 45, 45, 0]"
    by (simp_all add: upt_rec numeral_eq_Suc)
  show ?thesis
    unfolding u by (simp add: perm_round_cells cstr_def bit_simps del: perm_round.simps cong: if_cong split del: if_split)
qed

lemma permission_string:
  "idme_permission_to_string p =
     map (\<lambda>j. if bit p (8 - j) then cstr ''rwxrwxrwx'' ! j else of_char CHR ''-'') [0..<9]"
proof -
  have "cstr ''rwxrwxrwx'' ! j \<noteq> 0" if "j < 9" for j
    using that by (intro is_cstr_nth) (simp_all add: is_cstr_def cstr_def)
  then show ?thesis
    unfolding idme_permission_to_string_def perm_rounds by (subst takeWhile_append2) auto
qed

section \<open>What the kernel is given\<close>

text \<open>The bytes of the ATAG copy behind its header: an exportable item's bytes where the stored
  table has them, zeros in the place of the others.\<close>

fun atag_bytes :: "item list \<Rightarrow> mem \<Rightarrow> nat \<Rightarrow> nat \<Rightarrow> byte" where
  "atag_bytes [] m off i = 0"
| "atag_bytes (it # its) m off i =
     (if off \<le> i \<and> i < off + item_size it then if iexport it \<noteq> 0 then m i else 0
      else atag_bytes its m (off + item_size it) i)"

lemma st32_ld32: "st32 n m i w = Some m' \<Longrightarrow> ld32 n m' i = Some w"
  by (auto simp: st32_def ld32_def)

lemma idme_atag_item:
  assumes it: "item_at m off it" and fits: "off + item_size it \<le> lim" and off: "16 \<le> off"
    and c: "ld32 lim atag 12 = Some c"
  shows "\<exists>atag'. (if iexport it \<noteq> 0 then idme_atag_copy m lim off (item_size it) atag off else Some atag) = Some atag' \<and>
    ld32 lim atag' 12 = Some (if iexport it \<noteq> 0 then c + 1 else c) \<and>
    (\<forall>i. i < 12 \<or> 16 \<le> i \<longrightarrow> atag' i =
       (if off \<le> i \<and> i < off + item_size it \<and> iexport it \<noteq> 0 then m i else atag i))"
proof (cases "iexport it = 0")
  case True
  then show ?thesis using c by simp
next
  case False
  let ?xs = "map m [off..<off + item_size it]"
  define a where "a = (\<lambda>i. if off \<le> i \<and> i < off + item_size it then ?xs ! (i - off) else atag i)"
  have xs: "memcpy_from CONFIG_IDME_SIZE m off (item_size it) = Some ?xs"
    using item_atD(1) [OF it] by simp
  have a: "memcpy_to lim atag off ?xs = Some a"
    using fits by (simp add: a_def cong: if_cong)
  have c1: "ld32 lim a 12 = Some c"
    using c off by (subst ld32_cong [of _ _ atag]) (auto simp: a_def)
  have "16 \<le> lim" using fits off by simp
  then obtain a2 where a2: "st32 lim a 12 (c + 1) = Some a2"
    by (simp add: st32_def memcpy_to_def)
  have "a2 i = (if off \<le> i \<and> i < off + item_size it then m i else atag i)" if "i < 12 \<or> 16 \<le> i" for i
    using a2 that by (auto simp: st32_def a_def)
  then show ?thesis
    using False st32_ld32 [OF a2] by (simp add: idme_atag_copy_def xs a c1 a2)
qed

lemma idme_atag_items_at:
  assumes "items_at m off its" "items_end off its \<le> lim" "16 \<le> off" "ld32 lim atag 12 = Some c"
    and "\<forall>i. off \<le> i \<longrightarrow> i < lim \<longrightarrow> atag i = 0"
  shows "\<exists>atag'. idme_atag_items m lim (length its) off atag off = Some (0, atag') \<and>
    ld32 lim atag' 12 = Some (c + of_nat (length (filter (\<lambda>it. iexport it \<noteq> 0) its))) \<and>
    (\<forall>i < lim. i < 12 \<or> 16 \<le> i \<longrightarrow> atag' i = (if i < off then atag i else atag_bytes its m off i))"
  using assms
proof (induction its arbitrary: off atag c)
  case Nil
  then show ?case by simp
next
  case (Cons it its)
  let ?next = "off + item_size it"
  have it: "item_at m off it" and its: "items_at m ?next its" using Cons.prems(1) by auto
  note d = item_atD [OF it]
  have usz: "28 + unat (of_nat (length (idata it)) :: u32) = item_size it" using d(2) by (simp add: item_size_def)
  have ex: "ld32 CONFIG_IDME_SIZE m (off + 20) = Some (iexport it)" using it by (simp add: item_at_def)
  have fits: "?next \<le> lim" using Cons.prems(2) items_end_mono [of ?next its] by simp
  obtain a1 where a1: "(if iexport it \<noteq> 0 then idme_atag_copy m lim off (item_size it) atag off else Some atag) = Some a1"
    and c1: "ld32 lim a1 12 = Some (if iexport it \<noteq> 0 then c + 1 else c)"
    and b1: "\<And>i. i < 12 \<or> 16 \<le> i \<Longrightarrow> a1 i =
       (if off \<le> i \<and> i < ?next \<and> iexport it \<noteq> 0 then m i else atag i)"
    using idme_atag_item [OF it fits Cons.prems(3,4)] by blast
  have z1: "\<forall>i. ?next \<le> i \<longrightarrow> i < lim \<longrightarrow> a1 i = 0" using b1 Cons.prems(3,5) by auto
  have "items_end ?next its \<le> lim" "16 \<le> ?next" using Cons.prems(2,3) by auto
  from Cons.IH [OF its this c1 z1]
  obtain a2 where a2: "idme_atag_items m lim (length its) ?next a1 ?next = Some (0, a2)"
    and c2: "ld32 lim a2 12 = Some ((if iexport it \<noteq> 0 then c + 1 else c) +
        of_nat (length (filter (\<lambda>it. iexport it \<noteq> 0) its)))"
    and b2: "\<And>i. i < lim \<Longrightarrow> i < 12 \<or> 16 \<le> i \<Longrightarrow> a2 i = (if i < ?next then a1 i else atag_bytes its m ?next i)"
    by blast
  have "idme_atag_items m lim (length (it # its)) off atag off = Some (0, a2)"
    using d(3) ex fits a1 a2 idme_item_next_item [OF it] usz
    by (simp cong: if_cong split del: if_split)
  moreover have "a2 i = (if i < off then atag i else atag_bytes (it # its) m off i)" if "i < lim" "i < 12 \<or> 16 \<le> i" for i
    using b1 [OF that(2)] b2 [OF that] that(1) Cons.prems(5) by auto
  moreover have "ld32 lim a2 12 = Some (c + of_nat (length (filter (\<lambda>it. iexport it \<noteq> 0) (it # its))))"
    using c2 by simp
  ultimately show ?case by blast
qed

lemma idme_init_atag_rep:
  assumes rep: "idme_rep m its" and fits: "items_end 16 its \<le> lim"
  shows "\<exists>atag'. idme_init_atag_v2p0 atag (Some m) lim = Some (0, atag') \<and>
    ld32 lim atag' 12 = Some (of_nat (length (filter (\<lambda>it. iexport it \<noteq> 0) its))) \<and>
    magic_ok atag' \<and> (\<forall>i < lim. 16 \<le> i \<longrightarrow> atag' i = atag_bytes its m 16 i)"
proof -
  have lim: "16 \<le> lim" using fits items_end_mono [of 16 its] by simp
  define z0 where "z0 = (\<lambda>i. if i < lim then 0 else atag i)"
  define z1 where "z1 = (\<lambda>i. if i < 8 then IDME_MAGIC_NUMBER ! i else z0 i)"
  define a0 where "a0 = (\<lambda>i. if 8 \<le> i \<and> i < 8 + 3 then IDME_VERSION_2P0 ! (i - 8) else z1 i)"
  have "memset lim atag 0 0 lim = Some z0" "memcpy_to lim z0 0 IDME_MAGIC_NUMBER = Some z1"
    "memcpy_to lim z1 8 IDME_VERSION_2P0 = Some a0"
    using lim by (simp_all add: z0_def z1_def a0_def cong: if_cong)
  note hd = this
  obtain a1 where a1: "st32 lim a0 12 0 = Some a1"
    using lim by (simp add: st32_def memcpy_to_def)
  have out: "a1 i = a0 i" if "i < 12 \<or> 16 \<le> i" for i
    using a1 that by (auto simp: st32_def)
  have z: "\<forall>i. 16 \<le> i \<longrightarrow> i < lim \<longrightarrow> a1 i = 0" using out by (simp add: a0_def z1_def z0_def)
  have "items_at m 16 its" using rep by (simp add: idme_rep_def)
  from idme_atag_items_at [OF this fits order_refl st32_ld32 [OF a1] z] obtain a2 where
    a2: "idme_atag_items m lim (length its) 16 a1 16 = Some (0, a2)"
    and c2: "ld32 lim a2 12 = Some (of_nat (length (filter (\<lambda>it. iexport it \<noteq> 0) its)))"
    and b2: "\<And>i. i < lim \<Longrightarrow> i < 12 \<or> 16 \<le> i \<Longrightarrow> a2 i = (if i < 16 then a1 i else atag_bytes its m 16 i)"
    by (simp only: add_0) blast
  have "magic_ok a2" using b2 out lim by (simp add: magic_ok_def a0_def z1_def)
  moreover have "idme_init_atag_v2p0 atag (Some m) lim = Some (0, a2)"
    using rep idme_rep_num [OF rep] a1 a2
    by (simp add: idme_init_atag_v2p0_def idme_rep_def hd)
  ultimately show ?thesis using c2 b2 by auto
qed

section \<open>Properties\<close>

lemma atag_bytes_append:
  "items_end off xs \<le> i \<Longrightarrow> atag_bytes (xs @ ys) m off i = atag_bytes ys m (items_end off xs) i"
proof (induction xs arbitrary: off)
  case (Cons x xs)
  have "off + item_size x \<le> items_end (off + item_size x) xs" by (rule items_end_mono)
  with Cons.prems have "off + item_size x \<le> i" by simp
  with Cons show ?case by simp
qed simp

lemma items_end_append: "items_end off (xs @ ys) = items_end (items_end off xs) ys"
  by (induction xs arbitrary: off) auto

lemma host_view_cong:
  "list_all2 (\<lambda>a b. iname a = iname b \<and> (iname a \<notin> set idme_secret_names \<longrightarrow> idata a = idata b)) its its' \<Longrightarrow>
   map host_view its = map host_view its'"
  by (induction its its' rule: list_all2_induct) (auto simp: host_view_def)

text \<open>C7: listing the table (\<open>idme_print_var_v2p0\<close>) sends the fastboot host the name and the
  first bytes of every item except \<open>manufacturing\<close>, \<open>mac_sec\<close> and \<open>unlock_code\<close>, in table order,
  and nothing about the contents of those three: two tables that differ only in their data
  produce the same host output.\<close>

theorem idme_print_hides_secrets:
  assumes "idme_rep m its" "idme_rep m' its'"
    and "list_all2 (\<lambda>a b. iname a = iname b \<and> (iname a \<notin> set idme_secret_names \<longrightarrow> idata a = idata b)) its its'"
  shows "\<exists>log log' out. idme_print_var_v2p0 (Some m) = Some (0, log, out) \<and>
    idme_print_var_v2p0 (Some m') = Some (0, log', out) \<and> out = concat (map host_view its)"
  using idme_print_var_rep [OF assms(1)] idme_print_var_rep [OF assms(2)] host_view_cong [OF assms(3)] by simp

theorem idme_print_hides_secrets_witness:
  "\<exists>m' log log' out. idme_write_item margo_image (cstr ''mac_sec'') (cstr ''S3CRET'') = Some m' \<and>
     idme_print_var_v2p0 (Some margo_image) = Some (0, log, out) \<and>
     idme_print_var_v2p0 (Some m') = Some (0, log', out)"
proof -
  let ?its = "map default_item margo_items" and ?n = "cstr ''mac_sec''" and ?v = "cstr ''S3CRET''"
  have "lookup_item ?its ?n \<noteq> None" by (simp add: lookup_item_def margo_items_def entry_def cstr_def)
  then obtain m' where m': "idme_write_item margo_image ?n ?v = Some m'"
    "idme_rep m' (modify_item ?its ?n (fit ?v))"
    using idme_write_item_ex [OF margo_image_rep(1) is_cstr_secret(2)] by blast
  have same: "list_all2 (\<lambda>a b. iname a = iname b \<and> (iname a \<notin> set idme_secret_names \<longrightarrow> idata a = idata b))
      its (modify_item its ?n f)" for its f
    by (induction its) (auto simp: idme_secret_names_def list.rel_refl)
  show ?thesis
    using idme_print_hides_secrets [OF margo_image_rep(1) m'(2) same] m'(1) by blast
qed

text \<open>C8: the ATAG copy of the table (\<open>idme_init_atag_v2p0\<close>), when the whole table fits the ATAG
  buffer, carries every exportable item byte for byte at its own offset, has zeros in the place of
  every other item, so no byte of a non-exportable item reaches the kernel, and counts exactly the
  exportable items.\<close>

theorem idme_atag_exports_only_exportable:
  assumes "idme_rep m (xs @ it # ys)" "items_end 16 (xs @ it # ys) \<le> lim"
  shows "\<exists>atag'. idme_init_atag_v2p0 atag (Some m) lim = Some (0, atag') \<and>
    ld32 lim atag' 12 = Some (of_nat (length (filter (\<lambda>it. iexport it \<noteq> 0) (xs @ it # ys)))) \<and>
    (\<forall>i \<in> {items_end 16 xs..<items_end 16 xs + item_size it}. atag' i = (if iexport it \<noteq> 0 then m i else 0))"
proof -
  let ?k = "items_end 16 xs"
  obtain atag' where a: "idme_init_atag_v2p0 atag (Some m) lim = Some (0, atag')"
    "ld32 lim atag' 12 = Some (of_nat (length (filter (\<lambda>it. iexport it \<noteq> 0) (xs @ it # ys))))"
    "\<forall>i < lim. 16 \<le> i \<longrightarrow> atag' i = atag_bytes (xs @ it # ys) m 16 i"
    using idme_init_atag_rep [OF assms, of atag] by blast
  have "?k + item_size it \<le> lim"
    using assms(2) items_end_mono [of "?k + item_size it" ys] by (simp add: items_end_append)
  then have "atag' i = (if iexport it \<noteq> 0 then m i else 0)" if "?k \<le> i" "i < ?k + item_size it" for i
    using a(3) that items_end_mono [of 16 xs] by (simp add: atag_bytes_append)
  then show ?thesis using a by auto
qed

theorem idme_atag_exports_only_exportable_witness:
  "\<exists>atag'. idme_init_atag_v2p0 (\<lambda>_. 255) (Some margo_image) 4096 = Some (0, atag') \<and>
    ld32 4096 atag' 12 = Some 22 \<and> (\<forall>i \<in> {16..<60}. atag' i = margo_image i)"
proof -
  define h t where "h = hd (map default_item margo_items)" and "t = tl (map default_item margo_items)"
  have its: "map default_item margo_items = [] @ h # t" by (simp add: h_def t_def margo_items_def)
  have "length (filter (\<lambda>it. iexport it \<noteq> 0) (map default_item margo_items)) = 22"
    by (simp add: margo_items_def entry_def default_item_def)
  then have n: "length (filter (\<lambda>it. iexport it \<noteq> 0) ([] @ h # t)) = 22" by (simp only: its)
  have h: "item_size h = 44" "iexport h \<noteq> 0"
    by (simp_all add: h_def margo_items_def item_size_default) (simp_all add: entry_def default_item_def)
  have "idme_rep margo_image ([] @ h # t)" "items_end 16 ([] @ h # t) \<le> 4096"
    using margo_image_rep(1) margo_items_end by (simp_all only: its)
  from idme_atag_exports_only_exportable [OF this, of "\<lambda>_. 255"] h n
  show ?thesis by (simp only: items_end.simps) simp
qed

end
