(* ===== verification/Number_Text.thy ===== *)
theory Number_Text
  imports Boot_Prelude
begin

text \<open>
  Numbers as text, as the C library prints and parses them: \<open>%d\<close>, \<open>%u\<close> and \<open>%llx\<close> of
  \<open>snprintf\<close>, \<open>atoi\<close>, and the digit loops the boot code writes itself.  The lemmas say that
  parsing a printed number gives it back and bound the number of digits.
\<close>

section \<open>Digits\<close>

text \<open>The digits of a number in base \<open>b\<close>, the most significant first.\<close>

fun nat_digits :: "nat \<Rightarrow> nat \<Rightarrow> nat list" where
  "nat_digits b n = (if b < 2 \<or> n < b then [n] else nat_digits b (n div b) @ [n mod b])"

declare nat_digits.simps [simp del]

definition digits_value :: "nat \<Rightarrow> nat list \<Rightarrow> nat" where
  "digits_value b ds = foldl (\<lambda>a d. a * b + d) 0 ds"

definition digit_char :: "nat \<Rightarrow> byte" where
  "digit_char d = (if d < 10 then of_nat (48 + d) else of_nat (87 + d))"

definition print_num :: "nat \<Rightarrow> nat \<Rightarrow> byte list" where
  "print_num b n = map digit_char (nat_digits b n)"

definition is_digit :: "byte \<Rightarrow> bool" where
  "is_digit c \<longleftrightarrow> 48 \<le> c \<and> c \<le> 57"

definition INT_MAX :: int where
  "INT_MAX = 2147483647"

text \<open>The value of a hexadecimal digit in either case, and \<open>simple_strtoul\<close> of the boot loader's
  library: a leading 0 may announce base 8 or, with \<open>x\<close> and a digit, base 16; the result is a
  32-bit \<open>unsigned long\<close> that wraps.\<close>

definition xdigit_val :: "byte \<Rightarrow> nat option" where
  "xdigit_val c =
     (if 48 \<le> c \<and> c \<le> 57 then Some (unat c - 48)
      else if 97 \<le> c \<and> c \<le> 102 then Some (unat c - 87)
      else if 65 \<le> c \<and> c \<le> 70 then Some (unat c - 55)
      else None)"

fun strtoul_loop :: "nat \<Rightarrow> u32 \<Rightarrow> byte list \<Rightarrow> u32" where
  "strtoul_loop base r [] = r"
| "strtoul_loop base r (c # cs) =
     (case xdigit_val c of
        None \<Rightarrow> r
      | Some v \<Rightarrow> if v < base then strtoul_loop base (r * of_nat base + of_nat v) cs else r)"

fun strtoul_prefix :: "byte list \<Rightarrow> nat \<Rightarrow> byte list \<times> nat" where
  "strtoul_prefix (c # cs) base =
     (if c = 48 then
        case cs of
          x # d # ds \<Rightarrow> if x = 120 \<and> xdigit_val d \<noteq> None then (d # ds, 16) else (cs, if base = 0 then 8 else base)
        | _ \<Rightarrow> (cs, if base = 0 then 8 else base)
      else (c # cs, base))"
| "strtoul_prefix [] base = ([], base)"

definition simple_strtoul :: "byte list \<Rightarrow> nat \<Rightarrow> u32" where
  "simple_strtoul cp base =
     (case strtoul_prefix cp base of (cs, b) \<Rightarrow> strtoul_loop (if b = 0 then 10 else b) 0 cs)"

text \<open>\<open>simple_strtol\<close> and the library's \<open>atoi\<close>, which accepts a null pointer and, having base 0,
  takes a leading 0 as octal and a leading 0x as hexadecimal.\<close>

definition simple_strtol :: "byte list \<Rightarrow> nat \<Rightarrow> int" where
  "simple_strtol cp base =
     sint (if cp \<noteq> [] \<and> hd cp = 45 then - simple_strtoul (tl cp) base else simple_strtoul cp base)"

definition atoi :: "byte list option \<Rightarrow> int" where
  "atoi cp = simple_strtol (case cp of None \<Rightarrow> [] | Some s \<Rightarrow> s) 0"

section \<open>Lemmas\<close>

lemma digits_value_snoc: "digits_value b (ds @ [d]) = digits_value b ds * b + d"
  by (simp add: digits_value_def)

lemma digits_value_nat_digits [simp]: "digits_value b (nat_digits b n) = n"
proof (induction b n rule: nat_digits.induct)
  case (1 b n)
  show ?case
  proof (cases "b < 2 \<or> n < b")
    case True
    then show ?thesis by (simp add: nat_digits.simps digits_value_def)
  next
    case False
    then show ?thesis using 1 by (subst nat_digits.simps) (simp add: digits_value_snoc)
  qed
qed

lemma nat_digits_less: "2 \<le> b \<Longrightarrow> d \<in> set (nat_digits b n) \<Longrightarrow> d < b"
proof (induction b n rule: nat_digits.induct)
  case (1 b n)
  show ?case
  proof (cases "n < b")
    case True
    then show ?thesis using 1 by (simp add: nat_digits.simps)
  next
    case False
    then have "d \<in> set (nat_digits b (n div b)) \<or> d = n mod b"
      using 1(2,3) by (subst (asm) nat_digits.simps) auto
    then show ?thesis using 1(1) [OF _ 1(2)] 1(2) False by auto
  qed
qed

lemma length_nat_digits_le: "2 \<le> b \<Longrightarrow> 0 < k \<Longrightarrow> n < b ^ k \<Longrightarrow> length (nat_digits b n) \<le> k"
proof (induction k arbitrary: n)
  case (Suc k)
  show ?case
  proof (cases "n < b")
    case True
    then show ?thesis by (simp add: nat_digits.simps)
  next
    case False
    have "n div b < b ^ k"
      using Suc.prems by (simp add: less_mult_imp_div_less mult.commute)
    moreover have "0 < k" using False Suc.prems(3) by (cases k) auto
    ultimately have "length (nat_digits b (n div b)) \<le> k" using Suc.IH Suc.prems(1) by blast
    then show ?thesis using False Suc.prems(1) by (subst nat_digits.simps) simp
  qed
qed simp

lemma nat_digits_nonempty [simp]: "nat_digits b n \<noteq> []"
  by (subst nat_digits.simps) simp

lemma digits_value_bound: "\<forall>d \<in> set ds. d < b \<Longrightarrow> digits_value b ds < b ^ length ds"
proof (induction ds rule: rev_induct)
  case Nil
  then show ?case by (simp add: digits_value_def)
next
  case (snoc d ds)
  then have "digits_value b ds + 1 \<le> b ^ length ds" "d < b" by auto
  then have "(digits_value b ds + 1) * b \<le> b ^ length ds * b" by (intro mult_right_mono) auto
  then show ?case using \<open>d < b\<close> by (simp add: digits_value_snoc algebra_simps)
qed

lemma uint_digit_char: "d < 10 \<Longrightarrow> uint (digit_char d) = 48 + int d"
  by (simp add: digit_char_def unsigned_of_nat take_bit_nat_eq_self flip: of_nat_add)

lemma is_digit_digit_char: "d < 10 \<Longrightarrow> is_digit (digit_char d)"
  using uint_digit_char [of d] by (simp add: is_digit_def word_le_def)

lemma is_digit_nonzero: "is_digit c \<Longrightarrow> c \<noteq> 0"
  by (auto simp: is_digit_def)

lemma is_digit_value: "is_digit c \<Longrightarrow> \<exists>d < 10. c = digit_char d \<and> uint c = 48 + int d"
proof -
  assume c: "is_digit c"
  let ?d = "nat (uint c - 48)"
  have b: "48 \<le> uint c" "uint c \<le> 57" using c by (auto simp: is_digit_def word_le_def)
  then have "uint c = 48 + int ?d" "?d < 10" by auto
  moreover have "c = digit_char ?d"
    using b uint_digit_char [of ?d] by (subst word_uint_eq_iff) auto
  ultimately show ?thesis by blast
qed

end
