(* ===== verification/Idme_Store.thy ===== *)
theory Idme_Store
  imports Idme_Export Number_Text
begin

text \<open>
  The IDME module as the rest of the boot loader sees it: \<^verbatim>\<open>features/idme/cmd_idme.c\<close> over the
  mstar platform layer \<^verbatim>\<open>features/idme/idme_platform_mstar.c\<close>.  The state holds the module's
  static variables (the RAM copy of the table, whether \<open>pidme_data\<close> points at it, whether the
  table operations are installed) and the contents of the eMMC boot partition.  The eMMC driver
  is a parameter: an outcome for every transfer, in order, so that any pattern of failures can
  occur.  The theorems say what initialisation makes of the partition, that an update survives a
  reboot, how the boot counter moves, and what the \<open>oem idme\<close> command does.
\<close>

section \<open>State and device\<close>

text \<open>The outcome of one transfer: whether the bounce buffer could be allocated, whether
  \<open>eMMC_Init\<close> and the transfer succeeded, and what a failed write leaves in the partition.\<close>

record emmc_io =
  io_alloc :: bool
  io_init :: bool
  io_done :: bool
  io_torn :: mem

type_synonym emmc = "nat \<Rightarrow> emmc_io"

record idme_state =
  gidme_buff :: mem
  pidme_data :: bool
  idme_funcs :: bool
  idme_dev_tree :: bool
  board_id :: "byte list"
  boot_part :: mem
  io_count :: nat

definition pidme :: "idme_state \<Rightarrow> mem option" where
  "pidme st = (if pidme_data st then Some (gidme_buff st) else None)"

section \<open>Platform layer\<close>

text \<open>Both routines return 0 whatever happened.  Transferring to or from a null bounce buffer is
  undefined.\<close>

definition idme_platform_read :: "emmc \<Rightarrow> idme_state \<Rightarrow> (int \<times> idme_state) option" where
  "idme_platform_read dev st =
     (let io = dev (io_count st); st = st\<lparr>io_count := io_count st + 1\<rparr> in
      if \<not> io_init io then Some (0, st)
      else if \<not> io_alloc io then None
      else if \<not> io_done io then Some (0, st)
      else Some (0, st\<lparr>gidme_buff := boot_part st\<rparr>))"

definition idme_platform_write :: "emmc \<Rightarrow> mem \<Rightarrow> idme_state \<Rightarrow> (int \<times> idme_state) option" where
  "idme_platform_write dev pbuf st =
     (let io = dev (io_count st); st = st\<lparr>io_count := io_count st + 1\<rparr> in
      if \<not> io_init io then Some (0, st)
      else if \<not> io_alloc io then None
      else if \<not> io_done io then Some (0, st\<lparr>boot_part := io_torn io\<rparr>)
      else Some (0, st\<lparr>boot_part := pbuf\<rparr>))"

definition idme_read :: "emmc \<Rightarrow> idme_state \<Rightarrow> (int \<times> idme_state) option" where
  "idme_read dev st = idme_platform_read dev st"

definition idme_write :: "emmc \<Rightarrow> mem option \<Rightarrow> idme_state \<Rightarrow> (int \<times> idme_state) option" where
  "idme_write dev pbuf st = do { m \<leftarrow> pbuf; idme_platform_write dev m st }"

section \<open>Module operations\<close>

definition idme_clean :: "emmc \<Rightarrow> idme_state \<Rightarrow> (int \<times> idme_state) option" where
  "idme_clean dev st = do {
     p \<leftarrow> idme_check_magic_number (pidme st);
     if p \<noteq> 0 then Some (-1, st)
     else do {
       m \<leftarrow> memset CONFIG_IDME_SIZE (gidme_buff st) 0 0 CONFIG_IDME_SIZE;
       let st = st\<lparr>gidme_buff := m\<rparr>;
       (r, st) \<leftarrow> idme_write dev (pidme st) st;
       Some (if r \<noteq> 0 then -1 else 0, st\<lparr>pidme_data := False\<rparr>) } }"

text \<open>\<open>idme_null_func\<close> clears the table operations; the device tree hook is left as it is.\<close>

definition idme_null_func :: "idme_state \<Rightarrow> idme_state" where
  "idme_null_func st = st\<lparr>idme_funcs := False\<rparr>"

definition idme_atag_initialize ::
  "mem option \<Rightarrow> nat \<Rightarrow> idme_state \<Rightarrow> (int \<times> mem option) option" where
  "idme_atag_initialize atag_buffer lim st =
     (case atag_buffer of
        None \<Rightarrow> Some (-1, None)
      | Some a \<Rightarrow> if \<not> idme_funcs st then Some (-1, Some a)
                  else do { (r, a) \<leftarrow> idme_init_atag_v2p0 a (pidme st) lim; Some (r, Some a) })"

text \<open>\<open>idme_update_var_ex\<close>: a table operation may only change the buffer \<open>pidme_data\<close> points
  at.\<close>

definition put_pidme :: "mem option \<Rightarrow> idme_state \<Rightarrow> idme_state" where
  "put_pidme d st = (case d of None \<Rightarrow> st | Some m \<Rightarrow> st\<lparr>gidme_buff := m\<rparr>)"

definition idme_update_var_ex ::
  "emmc \<Rightarrow> byte list option \<Rightarrow> byte list option \<Rightarrow> nat \<Rightarrow> idme_state \<Rightarrow> (int \<times> idme_state) option" where
  "idme_update_var_ex dev name val len st =
     (case (name, val) of
        (Some n, Some v) \<Rightarrow>
          if idme_funcs st then do {
            (r, d) \<leftarrow> idme_update_var_v2p0 n (Some v) len (pidme st);
            let st = put_pidme d st;
            if r \<noteq> 0 then Some (-1, st)
            else do {
              (w, st) \<leftarrow> idme_write dev (pidme st) st;
              Some (if w \<noteq> 0 then -1 else 0, st) } }
          else Some (-1, st)
      | _ \<Rightarrow> Some (-1, st))"

definition idme_get_var_external ::
  "byte list \<Rightarrow> byte list option \<Rightarrow> nat \<Rightarrow> idme_state \<Rightarrow> (int \<times> byte list option) option" where
  "idme_get_var_external name buf len st =
     (if \<not> idme_funcs st then Some (-2, buf) else idme_get_var_v2p0 name buf len (pidme st))"

text \<open>\<open>atoui\<close>: \<open>i*10 + c - '0'\<close> is computed in \<open>int\<close>; an overflow is undefined.\<close>

fun atoui_loop :: "int \<Rightarrow> byte list \<Rightarrow> int option" where
  "atoui_loop i [] = Some i"
| "atoui_loop i (c # cs) =
     (if is_digit c
      then if i * 10 + uint c > INT_MAX then None else atoui_loop (i * 10 + uint c - 48) cs
      else Some i)"

definition atoui :: "byte list \<Rightarrow> int option" where
  "atoui s = atoui_loop 0 s"

text \<open>\<open>idme_boot_info\<close>: nine bytes for the counter, of which the stored item fills at most
  eight when its size is eight.\<close>

definition BOOTCOUNT_MAX :: int where
  "BOOTCOUNT_MAX = 99999999"

definition idme_boot_info :: "emmc \<Rightarrow> idme_state \<Rightarrow> idme_state option" where
  "idme_boot_info dev st =
     (if idme_funcs st then do {
        (r, buf) \<leftarrow> idme_get_var_v2p0 (cstr ''bootcount'') (Some (replicate 9 0)) 9 (pidme st);
        if r \<noteq> 0 then Some st
        else do {
          b \<leftarrow> buf;
          s \<leftarrow> buf_str b;
          v \<leftarrow> atoui s;
          if v = BOOTCOUNT_MAX then Some st
          else do {
            b \<leftarrow> write_buf b (snprintf_str 9 (print_num 10 (nat (v + 1))) @ [0]);
            (r, st) \<leftarrow> idme_update_var_ex dev (Some (cstr ''bootcount'')) (Some b) CONFIG_IDME_SIZE st;
            Some st } } }
      else Some st)"

definition idme_boot_mode :: "idme_state \<Rightarrow> int option" where
  "idme_boot_mode st =
     (if idme_funcs st then do {
        (r, buf) \<leftarrow> idme_get_var_v2p0 (cstr ''bootmode'') (Some (replicate 6 0)) 6 (pidme st);
        if r \<noteq> 0 then Some (-1)
        else do {
          b \<leftarrow> buf;
          s \<leftarrow> buf_str b;
          let v = atoi (Some s);
          Some (if v < 0 then -1 else v) } }
      else Some (-1))"

text \<open>\<open>idme_board_id\<close>: the static 16-byte array is filled by \<open>idme_get_var\<close> and then printed
  as a string, which is undefined when the value leaves no terminator.\<close>

definition idme_board_id :: "idme_state \<Rightarrow> (byte list option \<times> idme_state) option" where
  "idme_board_id st =
     (if idme_funcs st then do {
        (r, buf) \<leftarrow> idme_get_var_v2p0 (cstr ''board_id'') (Some (board_id st)) 16 (pidme st);
        b \<leftarrow> buf;
        let st = st\<lparr>board_id := b\<rparr>;
        if r = 0 then do { s \<leftarrow> buf_str b; Some (Some b, st) } else Some (None, st) }
      else Some (None, st))"

section \<open>Initialisation\<close>

datatype version_type = IDME_VER_1P2 | IDME_VER_2P0 | IDME_VER_2P1 | IDME_VER_3P0

definition idme_ver_table :: "(byte list \<times> version_type) list" where
  "idme_ver_table = [(cstr ''1.2'', IDME_VER_1P2), (cstr ''2.0'', IDME_VER_2P0),
     (cstr ''2.1'', IDME_VER_2P1), (cstr ''3.0'', IDME_VER_3P0)]"

text \<open>The version loop of \<open>idme_initialize\<close>: the first entry whose version the table starts with
  decides; when none matches nothing is changed.\<close>

fun idme_install :: "(byte list \<times> version_type) list \<Rightarrow> idme_state \<Rightarrow> idme_state option" where
  "idme_install [] st = Some st"
| "idme_install ((v, ty) # tab) st = do {
     eq \<leftarrow> strneq_at CONFIG_IDME_SIZE (gidme_buff st) off_version v;
     if eq then
       Some (if ty = IDME_VER_2P0 \<or> ty = IDME_VER_2P1
             then st\<lparr>idme_funcs := True, idme_dev_tree := True\<rparr> else idme_null_func st)
     else idme_install tab st }"

definition idme_initialize ::
  "idme_init_values list \<Rightarrow> bool \<Rightarrow> emmc \<Rightarrow> idme_state \<Rightarrow> (int \<times> idme_state) option" where
  "idme_initialize tbl malloc_ok dev st =
     (if pidme_data st then Some (0, st)
      else do {
        m \<leftarrow> memset CONFIG_IDME_SIZE (gidme_buff st) 0 0 CONFIG_IDME_SIZE;
        (r, st) \<leftarrow> idme_read dev (st\<lparr>gidme_buff := m\<rparr>);
        if r \<noteq> 0 then Some (-1, st)
        else do {
          let st = st\<lparr>pidme_data := True\<rparr>;
          iTmp \<leftarrow> idme_check_magic_number (pidme st);
          st \<leftarrow> (if iTmp = -2 then do {
              m \<leftarrow> memcpy_to CONFIG_IDME_SIZE (gidme_buff st) 0 IDME_MAGIC_NUMBER;
              m \<leftarrow> memcpy_to CONFIG_IDME_SIZE m off_version IDME_VERSION_2P1;
              Some (st\<lparr>gidme_buff := m\<rparr>) }
            else Some st);
          st \<leftarrow> idme_install idme_ver_table st;
          if iTmp = -2 \<and> idme_funcs st then do {
            (r, m) \<leftarrow> idme_init_var_v2p0 tbl (gidme_buff st);
            let st = st\<lparr>gidme_buff := m\<rparr>;
            if r \<noteq> 0 then Some (-1, st)
            else do {
              (w, st) \<leftarrow> idme_write dev (pidme st) st;
              Some (if w \<noteq> 0 then -1 else 0, st) } }
          else if idme_funcs st then do {
            (r, d) \<leftarrow> idme_update_table_v2p0 tbl malloc_ok (pidme st);
            let st = put_pidme d st;
            if r = 0 then do {
              (w, st) \<leftarrow> idme_write dev (pidme st) st;
              Some (if w \<noteq> 0 then -1 else 0, st) }
            else Some (0, st) }
          else Some (0, st) } })"

section \<open>The \<open>oem idme\<close> command\<close>

text \<open>What a command reports to the fastboot host.\<close>

datatype fb_event = FB_INFO "byte list" | FB_FAIL "byte list" | FB_OKAY "byte list"

definition idme_log_failure :: "byte list \<Rightarrow> fb_event list" where
  "idme_log_failure msg = [FB_FAIL msg]"

text \<open>\<open>strncmp (s, lit, strlen (lit)) == 0\<close>: the argument starts with the literal.\<close>

definition starts_with :: "byte list \<Rightarrow> byte list \<Rightarrow> bool" where
  "starts_with s lit \<longleftrightarrow> strncmp_eq s lit (length lit)"

text \<open>The query branch, \<open>idme ? name\<close>: the name and the value are put into a buffer of 1024
  bytes.\<close>

definition do_idme_query :: "byte list \<Rightarrow> idme_state \<Rightarrow> (int \<times> fb_event list) option" where
  "do_idme_query name st = do {
     let pre = snprintf_str 1024 (name @ cstr '': '');
     if idme_funcs st then do {
       (r, buf) \<leftarrow> idme_get_var_v2p0 name (Some (replicate (1024 - length pre) 0)) (1024 - length pre) (pidme st);
       b \<leftarrow> buf;
       if r \<noteq> 0 then do { s \<leftarrow> buf_str (pre @ b); Some (-1, [FB_FAIL s]) }
       else do { s \<leftarrow> buf_str (pre @ b); Some (0, [FB_INFO s]) } }
     else Some (-1, [FB_FAIL pre]) }"

text \<open>\<open>oem idme version X\<close>: \<open>X\<close> is accepted when it is a prefix of a known version.\<close>

definition do_idme_version :: "emmc \<Rightarrow> byte list \<Rightarrow> idme_state \<Rightarrow> (int \<times> fb_event list \<times> idme_state) option" where
  "do_idme_version dev arg st =
     (if \<not> list_ex (\<lambda>(v, _). strncmp_eq v arg (length arg)) idme_ver_table then Some (-1, [], st)
      else do {
        m \<leftarrow> pidme st;
        m \<leftarrow> memcpy_to CONFIG_IDME_SIZE m off_version arg;
        let st = st\<lparr>gidme_buff := m\<rparr>;
        (_, st) \<leftarrow> idme_write dev (pidme st) st;
        Some (0, [], st) })"

text \<open>The common tail of the command: store the value and write the table back.\<close>

definition do_idme_set ::
  "emmc \<Rightarrow> byte list \<Rightarrow> byte list \<Rightarrow> nat \<Rightarrow> idme_state \<Rightarrow> (int \<times> fb_event list \<times> idme_state) option" where
  "do_idme_set dev name val len st =
     (if idme_funcs st then do {
        (r, d) \<leftarrow> idme_update_var_v2p0 name (Some (val @ [0])) len (pidme st);
        let st = put_pidme d st;
        if r \<noteq> 0 then Some (-1, idme_log_failure (cstr ''IDME: Failure in update var''), st)
        else do {
          (w, st) \<leftarrow> idme_write dev (pidme st) st;
          if w \<noteq> 0 then Some (-1, idme_log_failure (cstr ''IDME: Failure in idme write''), st)
          else Some (0, [], st) } }
      else Some (-1, idme_log_failure (cstr ''IDME: failure''), st))"

text \<open>\<open>do_idme\<close>: \<open>argv\<close> is the array, \<open>argc\<close> the count passed with it.  The loop that logs the
  arguments reads all \<open>argc\<close> of them.\<close>

definition do_idme ::
  "idme_init_values list \<Rightarrow> bool \<Rightarrow> emmc \<Rightarrow> nat \<Rightarrow> byte list list \<Rightarrow> idme_state \<Rightarrow>
   (int \<times> fb_event list \<times> idme_state) option" where
  "do_idme tbl malloc_ok dev argc argv st =
     (if argc > length argv then None
      else if argc = 1 \<or> starts_with (argv ! 1) (cstr ''?'') then
        if argc = 3 then do { (r, ev) \<leftarrow> do_idme_query (argv ! 2) st; Some (r, ev, st) }
        else if idme_funcs st then do {
          (r, log, out) \<leftarrow> idme_print_var_v2p0 (pidme st);
          Some (r, map FB_INFO out, st) }
        else Some (-1, [], st)
      else if argc = 3 then
        if starts_with (argv ! 2) (cstr ''clean'') then do_idme_set dev (argv ! 1) (cstr ''0'') 1 st
        else if starts_with (argv ! 1) (cstr ''version'') then do_idme_version dev (argv ! 2) st
        else do_idme_set dev (argv ! 1) (argv ! 2) (length (argv ! 2)) st
      else if argc = 2 then
        if starts_with (argv ! 1) (cstr ''clean'') then do {
          (r, st) \<leftarrow> idme_clean dev st;
          Some (if r \<noteq> 0 then (-1, idme_log_failure (cstr ''Error IDME: Failure in clean''), st) else (0, [], st)) }
        else if starts_with (argv ! 1) (cstr ''init'') then do {
          (r, st) \<leftarrow> idme_initialize tbl malloc_ok dev st;
          Some (if r \<noteq> 0 then (-1, idme_log_failure (cstr ''Error IDME: Failure in Init''), st) else (0, [], st)) }
        else Some (-1, idme_log_failure (cstr ''Error IDME: Unknown Command''), st)
      else Some (0, [], st))"

text \<open>\<open>strtok\<close> with a space as the only delimiter.\<close>

fun strtok_words :: "byte list \<Rightarrow> byte list \<Rightarrow> byte list list" where
  "strtok_words acc [] = (if acc = [] then [] else [acc])"
| "strtok_words acc (c # cs) =
     (if c = 32 then (if acc = [] then strtok_words [] cs else acc # strtok_words [] cs)
      else strtok_words (acc @ [c]) cs)"

text \<open>\<open>fastboot_idme\<close>: the first word goes to \<open>ver\<close>, the last of the others to \<open>value\<close>, and \<open>argc\<close>
  counts all of them while the argument array keeps its three cells.  A command without any word
  formats a null pointer.\<close>

definition fastboot_idme ::
  "idme_init_values list \<Rightarrow> bool \<Rightarrow> emmc \<Rightarrow> byte list \<Rightarrow> idme_state \<Rightarrow> (int \<times> fb_event list \<times> idme_state) option" where
  "fastboot_idme tbl malloc_ok dev cmd st =
     (case strtok_words [] cmd of
        [] \<Rightarrow> None
      | t # ts \<Rightarrow>
          do_idme tbl malloc_ok dev (2 + length ts)
            [cstr ''idme'', snprintf_str 32 t, if ts = [] then [] else snprintf_str 65 (last ts)] st)"

definition cmd_idme ::
  "idme_init_values list \<Rightarrow> bool \<Rightarrow> emmc \<Rightarrow> byte list \<Rightarrow> idme_state \<Rightarrow> (fb_event list \<times> idme_state) option" where
  "cmd_idme tbl malloc_ok dev arg st = do {
     (r, ev, st) \<leftarrow> fastboot_idme tbl malloc_ok dev arg st;
     Some (if r = 0 then ev @ [FB_INFO (cstr ''idme done''), FB_OKAY []]
           else ev @ [FB_FAIL (cstr ''idme fail'')], st) }"

section \<open>Lemmas on the module\<close>

text \<open>A transfer that the driver completes, and one that does not crash the caller.\<close>

definition io_ok :: "emmc_io \<Rightarrow> bool" where
  "io_ok io \<longleftrightarrow> io_alloc io \<and> io_init io \<and> io_done io"

definition io_safe :: "emmc_io \<Rightarrow> bool" where
  "io_safe io \<longleftrightarrow> (io_init io \<longrightarrow> io_alloc io)"

lemma io_ok_safe: "io_ok io \<Longrightarrow> io_safe io"
  by (simp add: io_ok_def io_safe_def)

lemma idme_platform_read_ok:
  "io_ok (dev (io_count st)) \<Longrightarrow>
   idme_platform_read dev st = Some (0, st\<lparr>io_count := io_count st + 1, gidme_buff := boot_part st\<rparr>)"
  by (simp add: idme_platform_read_def io_ok_def)

lemma idme_platform_read_fail:
  "io_safe (dev (io_count st)) \<Longrightarrow> \<not> io_ok (dev (io_count st)) \<Longrightarrow>
   idme_platform_read dev st = Some (0, st\<lparr>io_count := io_count st + 1\<rparr>)"
  by (auto simp: idme_platform_read_def io_ok_def io_safe_def Let_def)

text \<open>The partition after a write.\<close>

definition written :: "emmc_io \<Rightarrow> mem \<Rightarrow> mem \<Rightarrow> mem" where
  "written io m old = (if io_ok io then m else if io_init io then io_torn io else old)"

lemma idme_platform_write_safe:
  "io_safe (dev (io_count st)) \<Longrightarrow>
   idme_platform_write dev m st =
     Some (0, st\<lparr>io_count := io_count st + 1, boot_part := written (dev (io_count st)) m (boot_part st)\<rparr>)"
  by (auto simp: idme_platform_write_def io_ok_def io_safe_def written_def Let_def)

lemma strneq_version_other:
  "version_2p1 m \<Longrightarrow> strneq_at CONFIG_IDME_SIZE m 8 (cstr ''1.2'') = Some False"
  "version_2p1 m \<Longrightarrow> strneq_at CONFIG_IDME_SIZE m 8 (cstr ''2.0'') = Some False"
  "version_2p1 m \<Longrightarrow> strneq_at CONFIG_IDME_SIZE m 8 (cstr ''2.1'') = Some True"
  by (auto simp: rd_def CONFIG_IDME_SIZE_def cstr_def version_2p1_def IDME_VERSION_2P1_def numeral_3_eq_3 All_less_Suc)

lemma memset_whole: "memset n m 0 c n = Some (\<lambda>i. if i < n then c else m i)"
  by (simp add: memset_def)

lemma idme_install_2p1:
  "version_2p1 (gidme_buff st) \<Longrightarrow>
   idme_install idme_ver_table st = Some (st\<lparr>idme_funcs := True, idme_dev_tree := True\<rparr>)"
  by (simp add: idme_ver_table_def strneq_version_other)

text \<open>What a power cycle leaves: the partition, and RAM with arbitrary contents but the
  pointers null again.\<close>

definition power_cycle :: "mem \<Rightarrow> idme_state \<Rightarrow> idme_state" where
  "power_cycle junk st = st\<lparr>gidme_buff := junk, pidme_data := False, idme_funcs := False,
     idme_dev_tree := False, board_id := replicate 16 0\<rparr>"

text \<open>Initialisation from a partition that holds a version 2.1 table.\<close>

lemma idme_initialize_rep:
  assumes st: "\<not> pidme_data st" and io: "io_ok (dev (io_count st))" "io_safe (dev (io_count st + 1))"
    and rep: "idme_rep (boot_part st) its" and ver: "version_2p1 (boot_part st)"
    and es: "\<forall>e \<in> set es. migratable its e" and t: "init_name t = []"
    and fits: "items_end 16 (map (migrated its) es) < CONFIG_IDME_SIZE"
  shows "\<exists>st'. idme_initialize (es @ [t]) True dev st = Some (0, st') \<and>
    pidme_data st' \<and> idme_funcs st' \<and> version_2p1 (gidme_buff st') \<and>
    (if needs_migration its es
     then idme_rep (gidme_buff st') (map (migrated its) es) \<and>
          boot_part st' = written (dev (io_count st + 1)) (gidme_buff st') (boot_part st)
     else gidme_buff st' = boot_part st \<and> boot_part st' = boot_part st)"
proof -
  obtain m' where tab: "idme_update_table_v2p0 (es @ [t]) True (Some (boot_part st)) =
      Some (if needs_migration its es then 0 else -2, Some m')"
    and m': "if needs_migration its es then idme_rep m' (map (migrated its) es) \<and> version_2p1 m'
      else m' = boot_part st"
    using idme_update_table_rep [OF rep ver es t fits] by blast
  have magic: "magic_ok (boot_part st)" using rep by (simp add: idme_rep_def)
  show ?thesis
    using st io magic ver tab m'
    by (auto simp: idme_initialize_def idme_read_def idme_write_def idme_platform_read_ok pidme_def
        idme_install_2p1 put_pidme_def idme_platform_write_safe memset_whole)
qed

text \<open>Initialisation without a readable table: the defaults are generated and written back.\<close>

lemma idme_initialize_blank:
  assumes st: "\<not> pidme_data st" and io: "io_safe (dev (io_count st))" "io_safe (dev (io_count st + 1))"
    and blank: "io_ok (dev (io_count st)) \<Longrightarrow> \<not> magic_ok (boot_part st)"
    and es: "\<forall>e \<in> set es. valid_entry e" and t: "init_name t = []"
    and fits: "items_end 16 (map default_item es) < CONFIG_IDME_SIZE"
  shows "\<exists>st'. idme_initialize (es @ [t]) alloc dev st = Some (0, st') \<and>
    pidme_data st' \<and> idme_funcs st' \<and> version_2p1 (gidme_buff st') \<and>
    idme_rep (gidme_buff st') (map default_item es) \<and>
    boot_part st' = written (dev (io_count st + 1)) (gidme_buff st') (boot_part st)"
proof -
  let ?z = "\<lambda>i. if i < CONFIG_IDME_SIZE then 0 else gidme_buff st i"
  define b where "b = (if io_ok (dev (io_count st)) then boot_part st else ?z)"
  have "\<not> magic_ok ?z" by (auto simp: magic_ok_def IDME_MAGIC_NUMBER_def cstr_def CONFIG_IDME_SIZE_def intro!: exI [of _ 0])
  then have nb: "\<not> magic_ok b" using blank by (simp add: b_def)
  have rd: "idme_read dev (st\<lparr>gidme_buff := ?z\<rparr>) = Some (0, st\<lparr>gidme_buff := b, io_count := io_count st + 1\<rparr>)"
    using io(1) by (auto simp: idme_read_def b_def idme_platform_read_ok idme_platform_read_fail)
  define h where "h = (\<lambda>i. if i < 8 then IDME_MAGIC_NUMBER ! i else b i)"
  define v where "v = (\<lambda>i. if 8 \<le> i \<and> i < 8 + 3 then IDME_VERSION_2P1 ! (i - 8) else h i)"
  have cp: "memcpy_to CONFIG_IDME_SIZE b 0 IDME_MAGIC_NUMBER = Some h"
    "memcpy_to CONFIG_IDME_SIZE h 8 IDME_VERSION_2P1 = Some v"
    by (simp_all add: h_def v_def CONFIG_IDME_SIZE_def cong: if_cong)
  have ver: "version_2p1 v" by (simp add: version_2p1_def v_def)
  obtain m' where m': "idme_init_var_v2p0 (es @ [t]) v = Some (0, m')"
    "idme_rep m' (map default_item es)" "version_2p1 m'"
    using idme_init_var_rep [OF es t fits, of v] by (auto simp: version_2p1_def)
  show ?thesis
    using st io(2) nb ver m'
    by (auto simp: idme_initialize_def rd cp memset_whole idme_write_def pidme_def idme_install_2p1
        idme_platform_write_safe)
qed

lemma idme_update_var_header:
  assumes rep: "idme_rep m its" and n: "is_cstr n"
    and upd: "idme_update_var_v2p0 n (Some v) len (Some m) = Some (0, Some m')"
  shows "j < 16 \<Longrightarrow> m' j = m j"
proof (cases "item_off 16 its n")
  case None
  then show ?thesis
    using upd rep by (simp add: idme_update_var_v2p0_def idme_find_rep [OF rep n] idme_rep_def)
next
  case (Some k)
  assume "j < 16"
  moreover have "16 \<le> k" using rep Some by (auto simp: idme_rep_def elim: item_off_Some)
  ultimately show ?thesis
    using upd rep Some
    by (auto simp: idme_update_var_v2p0_def idme_find_rep [OF rep n] idme_rep_def bind_eq_Some_conv)
qed

lemma idme_update_var_ex_rep:
  assumes st: "pidme_data st" "idme_funcs st" and rep: "idme_rep (gidme_buff st) its"
    and ver: "version_2p1 (gidme_buff st)" and n: "is_cstr n" and look: "lookup_item its n = Some it"
    and len: "min (length (idata it)) len \<le> length v" and io: "io_safe (dev (io_count st))"
  shows "\<exists>st'. idme_update_var_ex dev (Some n) (Some v) len st = Some (0, st') \<and>
    pidme_data st' \<and> idme_funcs st' \<and> version_2p1 (gidme_buff st') \<and>
    idme_rep (gidme_buff st') (modify_item its n (fit (take len v))) \<and>
    boot_part st' = written (dev (io_count st)) (gidme_buff st') (boot_part st) \<and>
    io_count st' = io_count st + 1"
proof -
  obtain m' where m': "idme_update_var_v2p0 n (Some v) len (Some (gidme_buff st)) = Some (0, Some m')"
    "idme_rep m' (modify_item its n (fit (take len v)))"
    using idme_update_var_refines [OF rep n, of len v] look len by auto
  have "version_2p1 m'"
    using ver idme_update_var_header [OF rep n m'(1)] by (simp add: version_2p1_def)
  then show ?thesis
    using st m' io
    by (auto simp: idme_update_var_ex_def pidme_def put_pidme_def idme_write_def idme_platform_write_safe)
qed

lemma idme_update_var_ex_unknown:
  assumes st: "pidme_data st" "idme_funcs st" and rep: "idme_rep (gidme_buff st) its"
    and n: "is_cstr n" and look: "lookup_item its n = None"
  shows "idme_update_var_ex dev (Some n) (Some v) len st = Some (-1, st)"
  using idme_update_var_refines [OF rep n, of len v] look st
  by (simp add: idme_update_var_ex_def pidme_def put_pidme_def)

section \<open>The persistent store\<close>

text \<open>The whole module on a working device, as a store: a write is \<open>idme_update_var_ex\<close>; a read
  happens after a power cycle, through \<open>idme_initialize\<close> and \<open>idme_get_var_external\<close>.  The table
  template is the margo table.\<close>

definition good_emmc :: emmc where
  "good_emmc = (\<lambda>_. \<lparr>io_alloc = True, io_init = True, io_done = True, io_torn = (\<lambda>_. 0)\<rparr>)"

definition store_put :: "idme_state \<Rightarrow> byte list \<Rightarrow> byte list \<Rightarrow> idme_state option" where
  "store_put st n v = do {
     (r, st) \<leftarrow> idme_update_var_ex good_emmc (Some n) (Some v) (length v) st;
     if r = 0 then Some st else None }"

definition store_size :: "idme_state \<Rightarrow> byte list \<Rightarrow> nat option" where
  "store_size st n = idme_size (boot_part st) n"

definition store_fetch :: "idme_state \<Rightarrow> byte list \<Rightarrow> byte list option" where
  "store_fetch st n = do {
     (r, st) \<leftarrow> idme_initialize idme_default_values True good_emmc (power_cycle (\<lambda>_. 255) st);
     k \<leftarrow> store_size st n;
     (r, buf) \<leftarrow> idme_get_var_external n (Some (replicate k 0)) k st;
     if r = 0 then buf else None }"

text \<open>A running module whose table is the margo table (the items in any order) and is in sync
  with the partition.\<close>

definition margo_names :: "byte list list" where
  "margo_names = map init_name (margo_items @ [margo_cert])"

definition store_rep :: "idme_state \<Rightarrow> item list \<Rightarrow> bool" where
  "store_rep st its \<longleftrightarrow> pidme_data st \<and> idme_funcs st \<and> version_2p1 (gidme_buff st) \<and>
     idme_rep (gidme_buff st) its \<and> boot_part st = gidme_buff st \<and>
     length its = length margo_names \<and> (\<forall>n \<in> set margo_names. lookup_item its n \<noteq> None)"

definition store_wf :: "idme_state \<Rightarrow> bool" where
  "store_wf st \<longleftrightarrow> (\<exists>its. store_rep st its)"

lemma io_ok_good [simp]: "io_ok (good_emmc k)"
  by (simp add: io_ok_def good_emmc_def)

lemma io_safe_good [simp]: "io_safe (good_emmc k)"
  by (simp add: io_ok_safe)

lemma written_good [simp]: "written (good_emmc k) m old = m"
  by (simp add: written_def)

lemma margo_names_valid: "\<forall>e \<in> set (margo_items @ [margo_cert]). valid_name (init_name e)"
  using margo_items_valid
  by (auto simp: valid_entry_def margo_cert_def entry_def valid_name_def is_cstr_def cstr_def IDME_MAX_NAME_LEN_def)

lemma margo_names_distinct: "distinct margo_names"
  by (simp add: margo_names_def margo_items_def margo_cert_def entry_def cstr_def)

text \<open>A table that has all the names has exactly them, so the migrated table is a permutation of
  it and fits.\<close>

lemma store_rep_names:
  assumes "store_rep st its"
  shows "distinct (map iname its)" "set (map iname its) = set margo_names"
proof -
  have sub: "set margo_names \<subseteq> set (map iname its)"
    using assms by (force simp: store_rep_def dest!: lookup_item_SomeD)
  have len: "length (map iname its) = length margo_names" using assms by (simp add: store_rep_def)
  have card: "card (set margo_names) = length margo_names"
    using margo_names_distinct by (rule distinct_card)
  moreover have "card (set (map iname its)) \<le> length margo_names"
    using card_length [of "map iname its"] len by simp
  ultimately show eq: "set (map iname its) = set margo_names"
    using sub by (metis List.finite_set card_seteq)
  show "distinct (map iname its)"
    using card len by (intro card_distinct) (simp only: eq)
qed

lemma store_rep_template:
  assumes "store_rep st its"
  shows "\<forall>e \<in> set (margo_items @ [margo_cert]). migratable its e"
    and "\<not> needs_migration its (margo_items @ [margo_cert])"
    and "items_end 16 (map (migrated its) (margo_items @ [margo_cert])) < CONFIG_IDME_SIZE"
proof -
  let ?es = "margo_items @ [margo_cert]"
  have look: "lookup_item its (init_name e) \<noteq> None" if "e \<in> set ?es" for e
    using assms that by (auto simp: store_rep_def margo_names_def)
  show "\<forall>e \<in> set ?es. migratable its e"
    unfolding migratable_def using look margo_names_valid by blast
  show "\<not> needs_migration its ?es"
    unfolding needs_migration_def using look assms by (auto simp: store_rep_def margo_names_def)
  have sum: "items_end off xs = off + sum_list (map item_size xs)" for off xs
    by (induction xs arbitrary: off) auto
  let ?ms = "map (migrated its) ?es"
  have "map iname ?ms = margo_names" by (simp add: margo_names_def)
  then have dm: "distinct ?ms" using margo_names_distinct by (metis distinct_map)
  have di: "distinct its" using store_rep_names(1) [OF assms] by (simp add: distinct_map)
  have sub: "set ?ms \<subseteq> set its"
    using look by (force simp: migrated_def dest: lookup_item_SomeD)
  have "sum_list (map item_size ?ms) \<le> sum_list (map item_size its)"
    using sum_mono2 [OF _ sub, of item_size]
    by (simp only: sum_list_distinct_conv_sum_set [OF dm] sum_list_distinct_conv_sum_set [OF di] List.finite_set)
  moreover have "items_end 16 its < CONFIG_IDME_SIZE" using assms by (simp add: store_rep_def idme_rep_def)
  ultimately show "items_end 16 ?ms < CONFIG_IDME_SIZE" by (simp only: sum)
qed

lemma store_reinit:
  assumes rep: "store_rep st its"
  shows "\<exists>st'. idme_initialize idme_default_values True good_emmc (power_cycle junk st) = Some (0, st') \<and>
    pidme_data st' \<and> idme_funcs st' \<and> gidme_buff st' = boot_part st \<and> boot_part st' = boot_part st"
proof -
  have b: "idme_rep (boot_part st) its" "version_2p1 (boot_part st)"
    using rep by (auto simp: store_rep_def)
  have tbl: "idme_default_values = (margo_items @ [margo_cert]) @ [margo_end]"
    by (simp add: idme_default_values_def)
  show ?thesis
    using idme_initialize_rep [of "power_cycle junk st" good_emmc its "margo_items @ [margo_cert]" margo_end]
      b store_rep_template [OF rep] margo_end_name
    by (auto simp: power_cycle_def tbl)
qed

lemma store_fetch_rep:
  assumes rep: "store_rep st its" and n: "is_cstr n"
  shows "store_fetch st n = map_option idata (lookup_item its n)"
proof -
  have b: "idme_rep (boot_part st) its" using rep by (auto simp: store_rep_def)
  obtain st' where st': "idme_initialize idme_default_values True good_emmc (power_cycle (\<lambda>_. 255) st) = Some (0, st')"
    "pidme_data st'" "idme_funcs st'" "gidme_buff st' = boot_part st" "boot_part st' = boot_part st"
    using store_reinit [OF rep] by blast
  show ?thesis
    using st' idme_get_var_refines [OF b n, of "length (idata (the (lookup_item its n)))"
      "replicate (length (idata (the (lookup_item its n)))) 0"]
    by (auto simp: store_fetch_def store_size_def idme_size_rep [OF b n] idme_get_var_external_def pidme_def
        split: option.splits)
qed

lemma store_size_rep:
  "store_rep st its \<Longrightarrow> is_cstr n \<Longrightarrow> store_size st n = map_option (\<lambda>it. length (idata it)) (lookup_item its n)"
  by (simp add: store_size_def store_rep_def idme_size_rep)

lemma store_put_None:
  assumes "store_rep st its" "is_cstr n" "lookup_item its n = None"
  shows "store_put st n v = None"
  using idme_update_var_ex_unknown [of st its n] assms by (simp add: store_put_def store_rep_def)

lemma store_put_ex:
  assumes rep: "store_rep st its" and n: "is_cstr n" and look: "lookup_item its n \<noteq> None"
  shows "\<exists>st'. store_put st n v = Some st' \<and> store_rep st' (modify_item its n (fit v))"
proof -
  obtain it where it: "lookup_item its n = Some it" using look by auto
  obtain st' where st': "idme_update_var_ex good_emmc (Some n) (Some v) (length v) st = Some (0, st')"
    "pidme_data st'" "idme_funcs st'" "version_2p1 (gidme_buff st')"
    "idme_rep (gidme_buff st') (modify_item its n (fit v))" "boot_part st' = gidme_buff st'"
    using idme_update_var_ex_rep [OF _ _ _ _ n it, of st "length v" v good_emmc] rep
    by (auto simp: store_rep_def)
  have "store_rep st' (modify_item its n (fit v))"
    using st' rep by (auto simp: store_rep_def lookup_modify)
  then show ?thesis using st'(1) by (simp add: store_put_def)
qed

lemma store_wf_put:
  assumes "store_wf st" "is_cstr n" "store_put st n v = Some st'"
  obtains its where "store_rep st its" "store_rep st' (modify_item its n (fit v))"
proof -
  obtain its where its: "store_rep st its" using assms(1) by (auto simp: store_wf_def)
  then have "lookup_item its n \<noteq> None" using store_put_None assms(2,3) by fastforce
  then obtain st2 where "store_put st n v = Some st2" "store_rep st2 (modify_item its n (fit v))"
    using store_put_ex [OF its assms(2)] by blast
  then show ?thesis using that its assms(3) by simp
qed

interpretation store: item_store store_wf is_cstr store_size store_fetch store_put 0
proof
  fix s n v assume "store_wf s" "is_cstr n" "store_size s n \<noteq> None"
  then show "store_put s n v \<noteq> None"
    using store_put_ex [of s _ n v] by (fastforce simp: store_wf_def store_size_rep)
next
  fix s n v assume "store_wf s" "is_cstr n" "store_size s n = None"
  then show "store_put s n v = None"
    using store_put_None [of s _ n v] by (auto simp: store_wf_def store_size_rep)
next
  fix s n v s' assume "store_wf s" "is_cstr n" "store_put s n v = Some s'"
  then show "store_wf s'" by (rule store_wf_put) (auto simp: store_wf_def)
next
  fix s n n' v s' assume a: "store_wf s" "is_cstr n" "is_cstr n'" "store_put s n v = Some s'"
  show "store_size s' n' = store_size s n'"
    by (rule store_wf_put [OF a(1,2,4)])
       (simp add: store_size_rep a lookup_modify option.map_comp comp_def)
next
  fix s n v s' k assume a: "store_wf s" "is_cstr n" "store_put s n v = Some s'" "store_size s n = Some k"
  show "store_fetch s' n = Some (pad_to 0 k v)"
    by (rule store_wf_put [OF a(1-3)])
       (use a(4) in \<open>auto simp: store_size_rep a(2) store_fetch_rep lookup_modify fit_pad_to\<close>)
next
  fix s n n' v s' assume a: "store_wf s" "is_cstr n" "is_cstr n'" "n' \<noteq> n" "store_put s n v = Some s'"
  show "store_fetch s' n' = store_fetch s n'"
    by (rule store_wf_put [OF a(1,2,5)]) (simp add: store_fetch_rep a lookup_modify)
qed

section \<open>The boot counter\<close>

lemma acc_step:
  fixes i :: nat
  assumes "d < 10" "(i + 1) * 10 ^ Suc k \<le> B"
  shows "(i * 10 + d + 1) * 10 ^ k \<le> B"
proof -
  have "(i * 10 + d + 1) * 10 ^ k \<le> (i + 1) * 10 * 10 ^ k" using assms(1) by (intro mult_right_mono) auto
  also have "\<dots> = (i + 1) * 10 ^ Suc k" by (simp only: power_Suc mult.assoc)
  finally show ?thesis using assms(2) by (rule order.trans)
qed

lemma acc_le:
  fixes i :: nat
  assumes "(i + 1) * 10 ^ k \<le> B"
  shows "i + 1 \<le> B"
  using mult_le_mono2 [of 1 "10 ^ k" "i + 1"] assms by (simp only: mult_1_right) simp

lemma atoui_loop_total:
  assumes "(i + 1) * 10 ^ length cs \<le> 10 ^ 8"
  shows "\<exists>v. atoui_loop (int i) cs = Some (int v) \<and> v < 10 ^ 8"
  using assms
proof (induction cs arbitrary: i)
  case Nil
  then show ?case by auto
next
  case (Cons c cs)
  have i8: "i + 1 \<le> 10 ^ 8" using Cons.prems by (rule acc_le)
  show ?case
  proof (cases "is_digit c")
    case False
    then show ?thesis using i8 by auto
  next
    case True
    then obtain d where d: "d < 10" "uint c = 48 + int d" using is_digit_value by blast
    have "\<exists>v. atoui_loop (int (i * 10 + d)) cs = Some (int v) \<and> v < 10 ^ 8"
      using Cons.prems d(1) by (intro Cons.IH acc_step) auto
    moreover have "\<not> int i * 10 + uint c > INT_MAX"
      using i8 d by (simp add: INT_MAX_def)
    ultimately show ?thesis using True d(2) by simp
  qed
qed

lemma atoui_loop_digits:
  assumes "\<forall>d \<in> set ds. d < 10" "(i + 1) * 10 ^ length ds \<le> 10 ^ 8"
  shows "atoui_loop (int i) (map digit_char ds) = Some (int (foldl (\<lambda>a d. a * 10 + d) i ds))"
  using assms
proof (induction ds arbitrary: i)
  case Nil
  then show ?case by simp
next
  case (Cons d ds)
  have d: "d < 10" using Cons.prems(1) by simp
  have IH: "atoui_loop (int (i * 10 + d)) (map digit_char ds) =
      Some (int (foldl (\<lambda>a d. a * 10 + d) (i * 10 + d) ds))"
    using Cons.prems d by (intro Cons.IH acc_step) auto
  have "i + 1 \<le> 10 ^ 8" using Cons.prems(2) by (rule acc_le)
  then have "\<not> int i * 10 + uint (digit_char d) > INT_MAX"
    using d uint_digit_char [OF d] by (simp add: INT_MAX_def)
  then show ?case using IH is_digit_digit_char [OF d] uint_digit_char [OF d] by simp
qed

lemma atoui_print_num:
  assumes "n < 10 ^ 8"
  shows "atoui (print_num 10 n) = Some (int n)" and "length (print_num 10 n) \<le> 8"
    and "\<forall>c \<in> set (print_num 10 n). c \<noteq> 0"
proof -
  show len: "length (print_num 10 n) \<le> 8"
    using length_nat_digits_le [of 10 8 n] assms by (simp add: print_num_def)
  have ds: "\<forall>d \<in> set (nat_digits 10 n). d < 10" using nat_digits_less [of 10] by simp
  have "10 ^ length (nat_digits 10 n) \<le> (10 ^ 8 :: nat)"
    using len by (intro power_increasing) (simp_all add: print_num_def)
  then have "atoui_loop (int 0) (map digit_char (nat_digits 10 n)) =
      Some (int (foldl (\<lambda>a d. a * 10 + d) 0 (nat_digits 10 n)))"
    by (intro atoui_loop_digits ds) simp
  then show "atoui (print_num 10 n) = Some (int n)"
    using digits_value_nat_digits [of 10 n] by (simp add: atoui_def print_num_def digits_value_def)
  show "\<forall>c \<in> set (print_num 10 n). c \<noteq> 0"
    using ds is_digit_nonzero is_digit_digit_char by (auto simp: print_num_def)
qed

text \<open>The counter an item holds: the number its text starts with.\<close>

definition count_of :: "byte list \<Rightarrow> int option" where
  "count_of d = atoui (takeWhile (\<lambda>c. c \<noteq> 0) d)"

lemma count_of_total: "length d \<le> 8 \<Longrightarrow> \<exists>v. count_of d = Some v \<and> 0 \<le> v \<and> v \<le> BOOTCOUNT_MAX"
proof -
  assume "length d \<le> 8"
  then have "length (takeWhile (\<lambda>c. c \<noteq> 0) d) \<le> 8" using length_takeWhile_le order.trans by blast
  then have "10 ^ length (takeWhile (\<lambda>c. c \<noteq> 0) d) \<le> (10 ^ 8 :: nat)" by (intro power_increasing) simp_all
  then have "\<exists>v. atoui_loop (int 0) (takeWhile (\<lambda>c. c \<noteq> 0) d) = Some (int v) \<and> v < 10 ^ 8"
    by (intro atoui_loop_total) simp
  then show ?thesis by (auto simp: count_of_def atoui_def BOOTCOUNT_MAX_def)
qed

lemma takeWhile_print: 
  assumes "\<forall>c \<in> set p. c \<noteq> 0" "length p \<le> k"
  shows "takeWhile (\<lambda>c. c \<noteq> (0::byte)) (take k (p @ [0] @ r)) = p"
proof -
  have "take k (p @ [0] @ r) = p @ take (k - length p) ([0] @ r)" using assms(2) by simp
  moreover have "takeWhile (\<lambda>c. c \<noteq> 0) (take (k - length p) ([0] @ r)) = []"
    by (cases "k - length p") auto
  ultimately show ?thesis using assms(1) by (simp add: takeWhile_append2)
qed

lemma buf_str_snoc: "buf_str (d @ [0]) = Some (takeWhile (\<lambda>c. c \<noteq> 0) d)"
proof -
  have "takeWhile (\<lambda>c. c \<noteq> 0) (d @ [0 :: byte]) = takeWhile (\<lambda>c. c \<noteq> 0) d" by (induction d) auto
  then show ?thesis by (simp add: buf_str_def)
qed

lemma idme_boot_info_counts:
  assumes st: "pidme_data st" "idme_funcs st" and rep: "idme_rep (gidme_buff st) its"
    and ver: "version_2p1 (gidme_buff st)" and look: "lookup_item its (cstr ''bootcount'') = Some it"
    and len: "length (idata it) = 8" and io: "io_safe (dev (io_count st))"
    and cnt: "count_of (idata it) = Some v" and less: "v \<noteq> BOOTCOUNT_MAX"
  shows "\<exists>st' d. idme_boot_info dev st = Some st' \<and>
    idme_rep (gidme_buff st') (modify_item its (cstr ''bootcount'') (fit d)) \<and>
    count_of (fit d (idata it)) = Some (v + 1) \<and>
    boot_part st' = written (dev (io_count st)) (gidme_buff st') (boot_part st)"
proof -
  let ?n = "cstr ''bootcount''" and ?p = "print_num 10 (nat (v + 1))"
  have v: "0 \<le> v" "v < BOOTCOUNT_MAX" using count_of_total [of "idata it"] len cnt less by auto
  then have p: "nat (v + 1) < 10 ^ 8" by (simp add: BOOTCOUNT_MAX_def)
  note pr = atoui_print_num [OF p]
  let ?b = "idata it @ [0]"
  have get: "idme_get_var_v2p0 ?n (Some (replicate 9 0)) 9 (pidme st) = Some (0, Some ?b)"
    using idme_get_var_refines [OF rep is_cstr_names(1), of 9 "replicate 9 0"] look len st(1) by (simp add: pidme_def)
  have str: "do { s \<leftarrow> buf_str ?b; atoui s } = Some v" using cnt by (simp add: count_of_def buf_str_snoc)
  define d where "d = ?p @ [0] @ drop (Suc (length ?p)) ?b"
  have sn: "snprintf_str 9 ?p = ?p" using pr(2) by (simp add: snprintf_str_def)
  have wr: "write_buf ?b (snprintf_str 9 ?p @ [0]) = Some d"
    using pr(2) len by (simp add: write_buf_def sn d_def)
  have dl: "length d = 9" using pr(2) len by (simp add: d_def)
  have "take CONFIG_IDME_SIZE d = d" using dl by (simp add: CONFIG_IDME_SIZE_def)
  then obtain st' where st': "idme_update_var_ex dev (Some ?n) (Some d) CONFIG_IDME_SIZE st = Some (0, st')"
    "idme_rep (gidme_buff st') (modify_item its ?n (fit d))"
    "boot_part st' = written (dev (io_count st)) (gidme_buff st') (boot_part st)"
    using idme_update_var_ex_rep [OF st rep ver is_cstr_names(1) look, of CONFIG_IDME_SIZE d dev] dl len io by auto
  have "idme_boot_info dev st = Some st'"
    using st(2) get str less wr st'(1) by (auto simp: idme_boot_info_def bind_eq_Some_conv)
  moreover have "fit d (idata it) = take 8 d" using dl len by (simp add: fit_def)
  then have "count_of (fit d (idata it)) = Some (v + 1)"
    using takeWhile_print [of ?p 8] pr v(1) by (simp add: count_of_def d_def)
  ultimately show ?thesis using st'(2,3) by blast
qed

lemma idme_boot_info_max:
  assumes st: "pidme_data st" "idme_funcs st" and rep: "idme_rep (gidme_buff st) its"
    and look: "lookup_item its (cstr ''bootcount'') = Some it"
    and len: "length (idata it) = 8" and cnt: "count_of (idata it) = Some BOOTCOUNT_MAX"
  shows "idme_boot_info dev st = Some st"
proof -
  have get: "idme_get_var_v2p0 (cstr ''bootcount'') (Some (replicate 9 0)) 9 (pidme st) = Some (0, Some (idata it @ [0]))"
    using idme_get_var_refines [OF rep is_cstr_names(1), of 9 "replicate 9 0"] look len st(1) by (simp add: pidme_def)
  show ?thesis using st(2) get cnt by (simp add: idme_boot_info_def count_of_def buf_str_snoc)
qed

section \<open>Concrete states\<close>

text \<open>The image of a device that was provisioned with the whole margo table, and the module
  running on it.\<close>

definition margo_full :: "idme_init_values list" where
  "margo_full = margo_items @ [margo_cert\<lparr>init_value := Some []\<rparr>]"

definition full_image :: mem where
  "full_image = snd (the (idme_init_var_v2p0 (margo_full @ [margo_end]) (\<lambda>_. 0)))"

definition running :: "mem \<Rightarrow> idme_state" where
  "running m = \<lparr>gidme_buff = m, pidme_data = True, idme_funcs = True, idme_dev_tree = True,
     board_id = replicate 16 0, boot_part = m, io_count = 0\<rparr>"

lemma full_image_rep: "idme_rep full_image (map default_item margo_full)" "version_2p1 full_image"
proof -
  have v: "\<forall>e \<in> set margo_full. valid_entry e"
    using margo_items_valid margo_names_valid by (auto simp: margo_full_def valid_entry_def)
  have "items_end 16 (map default_item margo_full) = items_end (items_end 16 (map default_item margo_items))
      [default_item (margo_cert\<lparr>init_value := Some []\<rparr>)]"
    by (simp add: margo_full_def items_end_append)
  then have "items_end 16 (map default_item margo_full) < CONFIG_IDME_SIZE"
    by (simp add: margo_items_end item_size_default margo_cert_def entry_def CONFIG_IDME_SIZE_def)
  then show "idme_rep full_image (map default_item margo_full)" "version_2p1 full_image"
    using idme_init_var_rep [OF v margo_end_name, of "\<lambda>_. 0"] by (auto simp: full_image_def version_2p1_def)
qed

lemma lookup_default: "lookup_item (map default_item es) n \<noteq> None \<longleftrightarrow> n \<in> init_name ` set es"
  by (induction es) (auto simp: lookup_item_def)

lemma running_store: "store_rep (running full_image) (map default_item margo_full)"
proof -
  have "length margo_full = length margo_names" by (simp add: margo_full_def margo_names_def)
  moreover have "n \<in> init_name ` set margo_full" if "n \<in> set margo_names" for n
    using that by (auto simp: margo_full_def margo_names_def)
  ultimately show ?thesis
    unfolding store_rep_def using full_image_rep lookup_default by (auto simp: running_def)
qed

lemma full_lookup:
  "lookup_item (map default_item margo_full) (cstr ''bootcount'') = Some (default_item (entry ''bootcount'' 8 1 (Some ''0'')))"
  by (simp add: lookup_item_def margo_full_def margo_items_def entry_def cstr_def)

section \<open>Properties\<close>

text \<open>C9: initialisation from a partition with a version 2.1 table.  When the partition can be
  read, \<open>idme_initialize\<close> returns 0 with the operations installed; the RAM table is the stored
  one when it has the template's items, and otherwise the stored one migrated to the template,
  which is then also what was handed to the write-back.\<close>

theorem idme_initialize_loads:
  assumes "\<not> pidme_data st" "io_ok (dev (io_count st))" "io_safe (dev (io_count st + 1))"
    and "idme_rep (boot_part st) its" "version_2p1 (boot_part st)"
    and "\<forall>e \<in> set es. migratable its e" "init_name t = []"
    and "items_end 16 (map (migrated its) es) < CONFIG_IDME_SIZE"
  shows "\<exists>st'. idme_initialize (es @ [t]) True dev st = Some (0, st') \<and>
    pidme_data st' \<and> idme_funcs st' \<and> version_2p1 (gidme_buff st') \<and>
    (if needs_migration its es
     then idme_rep (gidme_buff st') (map (migrated its) es) \<and>
          boot_part st' = written (dev (io_count st + 1)) (gidme_buff st') (boot_part st)
     else gidme_buff st' = boot_part st \<and> boot_part st' = boot_part st)"
  using assms by (rule idme_initialize_rep)

theorem idme_initialize_loads_witness:
  "\<exists>st'. idme_initialize idme_default_values True good_emmc (power_cycle (\<lambda>_. 255) (running full_image)) = Some (0, st') \<and>
    idme_funcs st' \<and> gidme_buff st' = full_image \<and> boot_part st' = full_image"
proof -
  let ?st = "power_cycle (\<lambda>_. 255) (running full_image)" and ?its = "map default_item margo_full"
  have tbl: "idme_default_values = (margo_items @ [margo_cert]) @ [margo_end]" by (simp add: idme_default_values_def)
  have st: "\<not> pidme_data ?st" "boot_part ?st = full_image" by (simp_all add: power_cycle_def running_def)
  have rep: "idme_rep (boot_part ?st) ?its" "version_2p1 (boot_part ?st)" using full_image_rep st by simp_all
  show ?thesis
    using idme_initialize_loads [of ?st good_emmc ?its "margo_items @ [margo_cert]" margo_end]
      st rep store_rep_template [OF running_store] margo_end_name
    by (auto simp: tbl)
qed



text \<open>C11: updates are persistent.  On a working device with the margo table, any sequence of
  \<open>idme_update_var_ex\<close> calls on its items succeeds, and after a power cycle and a fresh
  \<open>idme_initialize\<close> every item reads, through \<open>idme_get_var_external\<close>, as the last value written
  to it (cut or zero-padded to its size), or as before when it was not written.\<close>

theorem idme_updates_survive_power_cycle:
  assumes "store_wf st" "\<forall>(n, v) \<in> set ops. is_cstr n \<and> store_size st n \<noteq> None"
  shows "\<exists>st'. run_writes store_put st ops = Some st' \<and> store_wf st' \<and>
    (\<forall>n k. is_cstr n \<longrightarrow> store_size st n = Some k \<longrightarrow>
       store_fetch st' n = (case map_of (rev ops) n of Some v \<Rightarrow> Some (pad_to 0 k v) | None \<Rightarrow> store_fetch st n))"
  using store.run_writes_total [OF assms] store.run_writes_read [OF assms] by blast

theorem idme_updates_survive_power_cycle_witness:
  "\<exists>st'. run_writes store_put (running full_image) [(cstr ''bootcount'', cstr ''41''), (cstr ''bootcount'', cstr ''42'')] = Some st' \<and>
     store_fetch st' (cstr ''bootcount'') = Some [52, 50, 0, 0, 0, 0, 0, 0]"
proof -
  let ?ops = "[(cstr ''bootcount'', cstr ''41''), (cstr ''bootcount'', cstr ''42'')]"
  have wf: "store_wf (running full_image)" using running_store by (auto simp: store_wf_def)
  have sz: "store_size (running full_image) (cstr ''bootcount'') = Some 8"
    by (simp add: store_size_rep [OF running_store] full_lookup bootcount_data)
  have val: "pad_to 0 8 (cstr ''42'') = [52, 50, 0, 0, 0, 0, 0, 0]"
    by (simp add: pad_to_def cstr_def numeral_eq_Suc)
  have "\<forall>(n, v) \<in> set ?ops. is_cstr n \<and> store_size (running full_image) n \<noteq> None" using sz by simp
  from idme_updates_survive_power_cycle [OF wf this] obtain st' where
    "run_writes store_put (running full_image) ?ops = Some st'"
    "\<forall>n k. is_cstr n \<longrightarrow> store_size (running full_image) n = Some k \<longrightarrow> store_fetch st' n =
      (case map_of (rev ?ops) n of Some v \<Rightarrow> Some (pad_to 0 k v) | None \<Rightarrow> store_fetch (running full_image) n)" by blast
  then show ?thesis using sz val by force
qed

text \<open>C12: the boot counter.  With a running module and an 8-byte \<open>bootcount\<close> item, the stored
  text always denotes a count between 0 and 99999999; \<open>idme_boot_info\<close> leaves the state alone at
  99999999, and otherwise replaces the item by text that denotes the count plus one, keeps every
  other item, and hands the new table to the write-back.\<close>

theorem idme_boot_info_increments:
  assumes "pidme_data st" "idme_funcs st" "idme_rep (gidme_buff st) its" "version_2p1 (gidme_buff st)"
    and "lookup_item its (cstr ''bootcount'') = Some it" "length (idata it) = 8" "io_safe (dev (io_count st))"
  shows "\<exists>v. count_of (idata it) = Some v \<and> 0 \<le> v \<and> v \<le> BOOTCOUNT_MAX \<and>
    (if v = BOOTCOUNT_MAX then idme_boot_info dev st = Some st
     else \<exists>st' d. idme_boot_info dev st = Some st' \<and>
       idme_rep (gidme_buff st') (modify_item its (cstr ''bootcount'') (fit d)) \<and>
       count_of (fit d (idata it)) = Some (v + 1) \<and>
       boot_part st' = written (dev (io_count st)) (gidme_buff st') (boot_part st))"
proof -
  obtain v where v: "count_of (idata it) = Some v" "0 \<le> v" "v \<le> BOOTCOUNT_MAX"
    using count_of_total [of "idata it"] assms(6) by auto
  then show ?thesis
    using idme_boot_info_max [of st its it dev] idme_boot_info_counts [of st its it dev v] assms by auto
qed

theorem idme_boot_info_increments_witness:
  "\<exists>st' d. idme_boot_info good_emmc (running full_image) = Some st' \<and>
     idme_rep (gidme_buff st') (modify_item (map default_item margo_full) (cstr ''bootcount'') (fit d)) \<and>
     count_of (fit d [48, 0, 0, 0, 0, 0, 0, 0]) = Some 1"
proof -
  have st: "pidme_data (running full_image)" "idme_funcs (running full_image)"
    "idme_rep (gidme_buff (running full_image)) (map default_item margo_full)"
    "version_2p1 (gidme_buff (running full_image))"
    using full_image_rep by (simp_all add: running_def)
  have "count_of [48, 0, 0, 0, 0, 0, 0, 0] = Some 0"
    by (simp add: count_of_def atoui_def is_digit_def INT_MAX_def)
  with idme_boot_info_increments [OF st full_lookup, of good_emmc]
  show ?thesis by (auto simp: bootcount_data BOOTCOUNT_MAX_def)
qed

text \<open>C13: more than one argument after the item name makes \<open>oem idme\<close> read outside its argument
  array: \<open>fastboot_idme\<close> counts every word of the command, but the array it passes to \<open>do_idme\<close>
  has three cells, and \<open>do_idme\<close> logs \<open>argc\<close> of them.\<close>

theorem fastboot_idme_argument_overrun:
  assumes "length (strtok_words [] cmd) > 2"
  shows "fastboot_idme tbl alloc dev cmd st = None"
  using assms by (auto simp: fastboot_idme_def do_idme_def split: list.splits)

theorem fastboot_idme_argument_overrun_witness:
  "fastboot_idme idme_default_values True good_emmc (cstr ''a b c'') (running full_image) = None"
  by (rule fastboot_idme_argument_overrun) (simp add: cstr_def)

text \<open>C14: \<open>oem idme NAME VALUE\<close> on a running module, for a name and a value that are not one of
  the command's keywords and fit its buffers: a known item is replaced by the value (cut or
  zero-padded), nothing else changes, the table is handed to the write-back and the host gets an
  OKAY; an unknown name changes nothing and the host gets a FAIL.\<close>

theorem oem_idme_sets_item:
  assumes "pidme_data st" "idme_funcs st" "idme_rep (gidme_buff st) its" "io_safe (dev (io_count st))"
    and "strtok_words [] cmd = [n, v]" "is_cstr n" "length n < 32" "length v < 65"
    and "\<not> starts_with n (cstr ''?'')" "\<not> starts_with v (cstr ''clean'')" "\<not> starts_with n (cstr ''version'')"
  shows "case lookup_item its n of
      None \<Rightarrow> cmd_idme tbl alloc dev cmd st =
        Some ([FB_FAIL (cstr ''IDME: Failure in update var''), FB_FAIL (cstr ''idme fail'')], st)
    | Some it \<Rightarrow> \<exists>st'. cmd_idme tbl alloc dev cmd st = Some ([FB_INFO (cstr ''idme done''), FB_OKAY []], st') \<and>
        idme_rep (gidme_buff st') (modify_item its n (fit v)) \<and>
        boot_part st' = written (dev (io_count st)) (gidme_buff st') (boot_part st)"
proof -
  have run: "fastboot_idme tbl alloc dev cmd st = do_idme_set dev n v (length v) st"
    using assms(5,7-11) by (simp add: fastboot_idme_def do_idme_def snprintf_str_def)
  have upd: "case lookup_item its n of
       None \<Rightarrow> idme_update_var_v2p0 n (Some (v @ [0])) (length v) (pidme st) = Some (-1, pidme st)
     | Some it \<Rightarrow> \<exists>m'. idme_update_var_v2p0 n (Some (v @ [0])) (length v) (pidme st) = Some (0, Some m') \<and>
         idme_rep m' (modify_item its n (fit v))"
    using idme_update_var_refines [OF assms(3,6), of "length v" "v @ [0]"] assms(1)
    by (auto simp: pidme_def split: option.splits)
  show ?thesis
  proof (cases "lookup_item its n")
    case None
    then show ?thesis
      using upd assms(1,2) by (simp add: cmd_idme_def run do_idme_set_def idme_log_failure_def put_pidme_def pidme_def)
  next
    case (Some it)
    then obtain m' where "idme_update_var_v2p0 n (Some (v @ [0])) (length v) (pidme st) = Some (0, Some m')"
      "idme_rep m' (modify_item its n (fit v))" using upd by auto
    then show ?thesis
      using Some assms(1,2,4) by (simp add: cmd_idme_def run do_idme_set_def put_pidme_def pidme_def
        idme_write_def idme_platform_write_safe)
  qed
qed

theorem oem_idme_sets_item_witness:
  "\<exists>st'. cmd_idme idme_default_values True good_emmc (cstr ''bootcount 7'') (running full_image) =
      Some ([FB_INFO (cstr ''idme done''), FB_OKAY []], st') \<and>
    idme_rep (gidme_buff st') (modify_item (map default_item margo_full) (cstr ''bootcount'') (fit (cstr ''7'')))"
proof -
  have st: "pidme_data (running full_image)" "idme_funcs (running full_image)"
    "idme_rep (gidme_buff (running full_image)) (map default_item margo_full)"
    using full_image_rep by (simp_all add: running_def)
  have w: "strtok_words [] (cstr ''bootcount 7'') = [cstr ''bootcount'', cstr ''7'']" by (simp add: cstr_def)
  show ?thesis
    using oem_idme_sets_item [of "running full_image" "map default_item margo_full" good_emmc "cstr ''bootcount 7''"
        "cstr ''bootcount''" "cstr ''7''" idme_default_values True] st w full_lookup
    by (auto simp: starts_with_def strncmp_eq_def) (auto simp: cstr_def)
qed

text \<open>The default \<open>board_id\<close> fills its sixteen bytes, so printing the static copy as a string runs
  past its end.\<close>

lemma idme_board_id_overread: "idme_board_id (running full_image) = None"
proof -
  have "lookup_item (map default_item margo_full) (cstr ''board_id'') = Some (default_item (entry ''board_id'' 16 1 (Some ''ffffff0000000000'')))"
    by (simp add: lookup_item_def margo_full_def margo_items_def entry_def)
  moreover have "is_cstr (cstr ''board_id'')" by (simp add: is_cstr_def cstr_def)
  moreover have "idata (default_item (entry ''board_id'' 16 1 (Some ''ffffff0000000000''))) = cstr ''ffffff0000000000''"
    by (simp add: default_item_def entry_def fit_def cstr_def)
  ultimately show ?thesis
    using idme_get_var_refines [OF full_image_rep(1), of "cstr ''board_id''" 16 "replicate 16 0"]
    by (simp add: idme_board_id_def running_def pidme_def cstr_def buf_str_def)
qed

end
