(* ===== verification/Margo_Board.thy ===== *)
theory Margo_Board
  imports Idme_Store
begin

text \<open>
  The board layer of the margo project and the lock state it decides: the device type and the
  unlock code (\<^verbatim>\<open>board/margo/secure_boot_cfg.c\<close>), the verification of a signed unlock code
  (\<^verbatim>\<open>features/unlock/unlock_ltc.c\<close>), the lockdown test (\<^verbatim>\<open>MstarApp/src/MsUtility.c\<close>), the check of a
  new first-stage loader, the boot command (\<^verbatim>\<open>board/margo/setup.c\<close>) and the environment set up
  from IDME at start-up (\<^verbatim>\<open>arch/arm/lib/board.c\<close>).  The registers, the GPIO lines, the eFuse, the
  hash and the RSA check are parameters, gathered in a record.
\<close>

section \<open>Hardware and crypto parameters\<close>

text \<open>\<open>rsa_verify_hash\<close> is given by its return code and the status it stores, for a signature and
  a digest; the key is the fixed unlock key of the board.\<close>

record board =
  gpio_level :: "nat \<Rightarrow> int"
  cid_reg :: byte
  sys_init_ok :: bool
  efuse_did :: "(u16 \<times> u16 \<times> u16 \<times> u16) option"
  key_alloc_ok :: bool
  key_import_ok :: bool
  sha256 :: "byte list \<Rightarrow> byte list"
  rsa_verify_hash :: "byte list \<Rightarrow> byte list \<Rightarrow> int \<times> int"

type_synonym env = "byte list \<Rightarrow> byte list option"

section \<open>Device type\<close>

datatype device_type = AMZN_ENGINEERING_DEVICE | AMZN_PRODUCTION_DEVICE | AMZN_INVALID_DEVICE

definition amzn_target_device_type :: "board \<Rightarrow> device_type" where
  "amzn_target_device_type b =
     (if gpio_level b 46 = 1 then AMZN_ENGINEERING_DEVICE else AMZN_PRODUCTION_DEVICE)"

definition target_is_production :: "board \<Rightarrow> bool" where
  "target_is_production b \<longleftrightarrow> amzn_target_device_type b = AMZN_PRODUCTION_DEVICE"

definition read_board_cid :: "board \<Rightarrow> byte" where
  "read_board_cid b = cid_reg b"

definition is_secure_cpu :: "board \<Rightarrow> bool" where
  "is_secure_cpu b \<longleftrightarrow> read_board_cid b = 0x41"

section \<open>Unlock\<close>

definition UNLOCK_CODE_LEN :: nat where
  "UNLOCK_CODE_LEN = 32"

definition SIGNED_UNLOCK_CODE_LEN :: nat where
  "SIGNED_UNLOCK_CODE_LEN = 256"

text \<open>\<open>%04x\<close> of a 16-bit value.\<close>

definition hex4 :: "u16 \<Rightarrow> byte list" where
  "hex4 w = replicate (4 - length (print_num 16 (unat w))) 48 @ print_num 16 (unat w)"

text \<open>\<open>amzn_get_unlock_code\<close> with a buffer of \<open>len\<close> bytes: \<open>None\<close> is the return code -1.\<close>

definition amzn_get_unlock_code :: "board \<Rightarrow> nat \<Rightarrow> byte list option" where
  "amzn_get_unlock_code b len =
     (if len < 17 then None
      else if \<not> sys_init_ok b then None
      else case efuse_did b of
        None \<Rightarrow> None
      | Some (e0, e1, e2, e3) \<Rightarrow> Some (hex4 0 @ hex4 e2 @ hex4 e1 @ hex4 e0))"

text \<open>The loop of \<open>verify_code\<close> over the counters: the last return code and status, \<open>None\<close> when
  the unlock code cannot be read.  On this board the limited code is the standard one.\<close>

fun verify_code_loop :: "board \<Rightarrow> byte list \<Rightarrow> nat list \<Rightarrow> int \<times> int \<Rightarrow> (int \<times> int) option" where
  "verify_code_loop b data [] (ret, status) = Some (ret, status)"
| "verify_code_loop b data (ctr # cs) (ret, status) =
     (if status < 1 then
        case amzn_get_unlock_code b UNLOCK_CODE_LEN of
          None \<Rightarrow> None
        | Some code \<Rightarrow> verify_code_loop b data cs (rsa_verify_hash b data (sha256 b code))
      else Some (ret, status))"

text \<open>\<open>verify_code\<close> and its callers.  The counter is an \<open>unsigned int\<close>, so the loop condition
  \<open>ctr \<le> ctr_max\<close> cannot become false when \<open>ctr_max\<close> is the largest one; not returning is
  \<open>None\<close>.\<close>

definition verify_code :: "board \<Rightarrow> byte list \<Rightarrow> nat \<Rightarrow> nat \<Rightarrow> int option" where
  "verify_code b data ctr_min ctr_max =
     (case verify_code_loop b data [ctr_min..<Suc ctr_max] (-1, -1) of
        None \<Rightarrow> Some (-1)
      | Some (ret, status) \<Rightarrow>
          if status < 1 \<and> ctr_max = 2 ^ 32 - 1 then None
          else Some (if ret = 0 \<and> status = 1 then 0 else -1))"

definition amzn_verify_limited_unlock :: "board \<Rightarrow> byte list option \<Rightarrow> nat \<Rightarrow> nat \<Rightarrow> int option" where
  "amzn_verify_limited_unlock b data ctr_min ctr_max =
     (case data of
        None \<Rightarrow> Some (-1)
      | Some d \<Rightarrow>
          if \<not> key_alloc_ok b then Some (-1)
          else if \<not> key_import_ok b then Some (-1)
          else verify_code b d ctr_min ctr_max)"

definition amzn_verify_unlock :: "board \<Rightarrow> byte list option \<Rightarrow> int option" where
  "amzn_verify_unlock b data = amzn_verify_limited_unlock b data 0 0"

definition amzn_device_is_unlocked :: "board \<Rightarrow> idme_state \<Rightarrow> bool option" where
  "amzn_device_is_unlocked b st = do {
     (r, buf) \<leftarrow> idme_get_var_external (cstr ''unlock_code'') (Some (replicate SIGNED_UNLOCK_CODE_LEN 0))
       SIGNED_UNLOCK_CODE_LEN st;
     if r \<noteq> 0 then Some False
     else do {
       v \<leftarrow> amzn_verify_unlock b buf;
       Some (v = 0) } }"

text \<open>\<open>is_lockdown\<close>: an unset \<open>bootmode\<close> is a null pointer, which \<open>atoi\<close> reads as 0.\<close>

definition is_lockdown :: "board \<Rightarrow> idme_state \<Rightarrow> env \<Rightarrow> bool option" where
  "is_lockdown b st e = do {
     let ibootmode = atoi (e (cstr ''bootmode''));
     u \<leftarrow> amzn_device_is_unlocked b st;
     Some (\<not> u \<and> target_is_production b \<and> ibootmode = 1) }"

definition chk_cmd_lockdown :: "board \<Rightarrow> idme_state \<Rightarrow> env \<Rightarrow> byte list \<Rightarrow> bool option" where
  "chk_cmd_lockdown b st e command = do {
     l \<leftarrow> is_lockdown b st e;
     Some (\<not> (l \<and> \<not> starts_with command (cstr ''fastboot'') \<and> \<not> starts_with command (cstr ''reset'') \<and>
              \<not> starts_with command (cstr ''usb'') \<and> \<not> starts_with command (cstr ''estar''))) }"

section \<open>Board revision\<close>

text \<open>The board identity as \<open>is_14key_keypad\<close> and \<open>read_ddr_board_id\<close> read it: at most 17 bytes
  into a zeroed buffer of 18.\<close>

definition board_id_string :: "idme_state \<Rightarrow> byte list option" where
  "board_id_string st = do {
     (r, buf) \<leftarrow> idme_get_var_external (cstr ''board_id'') (Some (replicate 18 0)) 17 st;
     buf }"

text \<open>\<open>strncmp (buf + off, lit, strlen (lit)) == 0\<close> on such a buffer.\<close>

definition buf_matches :: "byte list \<Rightarrow> nat \<Rightarrow> byte list \<Rightarrow> bool" where
  "buf_matches buf off lit \<longleftrightarrow> take (length lit) (drop off buf) = lit"

definition rev_is :: "byte list \<Rightarrow> string list \<Rightarrow> bool" where
  "rev_is buf revs \<longleftrightarrow> list_ex (\<lambda>r. buf_matches buf 7 (cstr r)) revs"

definition is_14key_keypad :: "idme_state \<Rightarrow> bool option" where
  "is_14key_keypad st = do {
     buf \<leftarrow> board_id_string st;
     Some (if \<not> buf_matches buf 0 (cstr ''0036'') then True
           else \<not> rev_is buf [''00'', ''01'', ''21'', ''22'', ''23'']) }"

definition DDR3_NUM :: byte where "DDR3_NUM = 3"
definition DDR4_NUM :: byte where "DDR4_NUM = 4"
definition INVALID_DDR :: byte where "INVALID_DDR = 0"

definition read_ddr_board_id :: "idme_state \<Rightarrow> byte option" where
  "read_ddr_board_id st = do {
     buf \<leftarrow> board_id_string st;
     Some (if \<not> buf_matches buf 0 (cstr ''0036'') then INVALID_DDR
           else if rev_is buf [''00'', ''01'', ''21'', ''22''] then DDR4_NUM
           else if rev_is buf [''23'', ''30'', ''40''] then DDR3_NUM
           else INVALID_DDR) }"

definition read_ddr_gpio :: "board \<Rightarrow> byte" where
  "read_ddr_gpio b =
     (let config1 = gpio_level b 84; config2 = gpio_level b 85 in
      if config1 = 1 \<and> config2 = 0 then DDR4_NUM
      else if config1 = 0 \<and> config2 = 1 then DDR3_NUM
      else INVALID_DDR)"

section \<open>The first-stage loader check\<close>

datatype sbvc_result =
    SBVC_MATCH | SBVC_INVALID_ARG | SBVC_MARK_NOT_FOUND | SBVC_INVALID_CID | SBVC_INVALID_DDR
  | SBVC_CID_NOT_MATCH | SBVC_DDR_NOT_MATCH | SBVC_NO_MEM | SBVC_READ_ERR | SBVC_HASH0_ERR
  | SBVC_DEV_MARK_NOT_FOUND | SBVC_SAME_VER

definition SBOOT_VER_MARK :: "byte list" where
  "SBOOT_VER_MARK = cstr ''YAMA''"

definition MAX_SBOOT_SIZE :: nat where
  "MAX_SBOOT_SIZE = 102400"

text \<open>The search loop: the first offset at most \<open>len - 8\<close> where the mark stands; the number of
  offsets left to try decreases.\<close>

fun find_mark :: "byte list \<Rightarrow> nat \<Rightarrow> nat \<Rightarrow> nat option" where
  "find_mark buf loc 0 = None"
| "find_mark buf loc (Suc k) =
     (if take 4 (drop loc buf) = SBOOT_VER_MARK then Some loc else find_mark buf (Suc loc) k)"

definition sboot_mark :: "byte list \<Rightarrow> nat option" where
  "sboot_mark buf = find_mark buf 0 (length buf - 7)"

definition le16_at :: "byte list \<Rightarrow> nat \<Rightarrow> u16" where
  "le16_at buf i = ucast (buf ! i) OR push_bit 8 (ucast (buf ! (i + 1)))"

text \<open>\<open>sboot_version_check\<close>: \<open>calloc_ok\<close> is whether the buffer could be allocated, \<open>dev_sboot\<close> the
  result of the \<open>mmc read.boot\<close> command for the requested length (\<open>None\<close> when it fails).\<close>

definition sboot_version_check ::
  "board \<Rightarrow> idme_state \<Rightarrow> bool \<Rightarrow> (nat \<Rightarrow> byte list option) \<Rightarrow> byte list option \<Rightarrow> sbvc_result option" where
  "sboot_version_check b st calloc_ok dev_sboot sboot_buf =
     (case sboot_buf of
        None \<Rightarrow> Some SBVC_INVALID_ARG
      | Some buf \<Rightarrow>
          (case sboot_mark buf of
             None \<Rightarrow> Some SBVC_MARK_NOT_FOUND
           | Some loc \<Rightarrow>
               let sboot_cid = buf ! (loc + 4); board_cid = read_board_cid b in
               if sboot_cid \<noteq> 0 \<and> sboot_cid \<noteq> 0x41 then Some SBVC_INVALID_CID
               else if board_cid \<noteq> 0 \<and> board_cid \<noteq> 0x41 then Some SBVC_INVALID_CID
               else do {
                 board_ddr \<leftarrow> read_ddr_board_id st;
                 let board_ddr_gpio = read_ddr_gpio b; sboot_ddr = buf ! (loc + 5) in
                 if board_ddr_gpio = INVALID_DDR then Some SBVC_INVALID_DDR
                 else if sboot_ddr \<noteq> DDR3_NUM \<and> sboot_ddr \<noteq> DDR4_NUM \<and> sboot_ddr \<noteq> DDR3_NUM + DDR4_NUM
                 then Some SBVC_INVALID_DDR
                 else if board_cid \<noteq> sboot_cid then Some SBVC_CID_NOT_MATCH
                 else if sboot_ddr \<noteq> DDR3_NUM + DDR4_NUM \<and> sboot_ddr \<noteq> board_ddr_gpio then Some SBVC_DDR_NOT_MATCH
                 else if \<not> calloc_ok then Some SBVC_NO_MEM
                 else case dev_sboot (min (length buf) MAX_SBOOT_SIZE) of
                   None \<Rightarrow> Some SBVC_READ_ERR
                 | Some dev \<Rightarrow>
                     (case sboot_mark dev of
                        None \<Rightarrow> Some SBVC_DEV_MARK_NOT_FOUND
                      | Some loc_dev \<Rightarrow>
                          Some (if le16_at buf (loc + 6) = le16_at dev (loc_dev + 6)
                                then SBVC_SAME_VER else SBVC_MATCH)) }))"

section \<open>Booting\<close>

text \<open>\<open>run_command\<close> is a parameter: the return code of a command, given the commands run before
  it.  A routine that runs commands returns its own code and the extended history.\<close>

type_synonym runner = "byte list list \<Rightarrow> byte list \<Rightarrow> int"

fun run_all :: "byte list list \<Rightarrow> byte list list \<Rightarrow> byte list list" where
  "run_all h [] = h"
| "run_all h (c # cs) = run_all (h @ [c]) cs"

text \<open>The steps of \<open>amzn_boot\<close> that must all succeed, in order; the first failure ends it with -1.\<close>

fun run_steps :: "runner \<Rightarrow> byte list list \<Rightarrow> byte list list \<Rightarrow> int \<times> byte list list" where
  "run_steps run h [] = (0, h)"
| "run_steps run h (c # cs) = (if run h c < 0 then (-1, h @ [c]) else run_steps run (h @ [c]) cs)"

text \<open>\<open>separated_dt\<close> is the build option \<open>BOARD_KERNEL_SEPARATED_DT\<close>: the device tree then comes
  with the boot image instead of being read from its own partition.  \<open>loadenv\<close> is the command
  text built from the partition and file names of the configuration.\<close>

definition amzn_boot_rest :: "bool \<Rightarrow> byte list list" where
  "amzn_boot_rest separated_dt =
     (if separated_dt then [] else [cstr ''mmc read.p 0x23000000 dtb 0x0100000'']) @
     [cstr ''fdt addr 0x23000000'', cstr ''fdt boardsetup'', cstr ''bootm 0x25000000'']"

definition read_image_cmd :: "string \<Rightarrow> byte list" where
  "read_image_cmd part = cstr (''mmc read.p 0x25000000 '' @ part @ '' 0x01100000'')"

definition amzn_boot ::
  "runner \<Rightarrow> bool \<Rightarrow> byte list \<Rightarrow> byte list list \<Rightarrow> byte list list \<Rightarrow> int \<times> byte list list" where
  "amzn_boot run separated_dt loadenv argv h =
     (if length argv < 2 then (-1, h)
      else if starts_with (argv ! 1) (cstr ''recover'')
      then run_steps run h (read_image_cmd ''recovery'' # amzn_boot_rest separated_dt)
      else if starts_with (argv ! 1) (cstr ''diag'')
      then run_steps run h (read_image_cmd ''dkernel'' # amzn_boot_rest separated_dt)
      else if starts_with (argv ! 1) (cstr ''transitio'')
      then (-1, run_all h
             [cstr ''mmc erase.p dkernel'', cstr ''mmc erase.p dfs'', cstr ''mmc erase.p diag_userdata'',
              cstr ''mmc remove dkernel'', cstr ''mmc remove dfs'', cstr ''mmc remove diag_userdata'',
              cstr ''mmc remove userdata'', cstr ''mmc create userdata MAX'', loadenv])
      else run_steps run h (read_image_cmd ''boot'' # amzn_boot_rest separated_dt))"

section \<open>Environment from IDME\<close>

definition DEFAULT_IP_ADDR :: "byte list" where
  "DEFAULT_IP_ADDR = cstr ''192.168.1.101''"

definition IDME_BOOTMODE_MAX :: int where
  "IDME_BOOTMODE_MAX = 7"

text \<open>An item as the start-up code reads it: into a zeroed buffer of \<open>size\<close> bytes, all but the
  last of which may be filled; the return code and the string.\<close>

definition idme_string :: "idme_state \<Rightarrow> byte list \<Rightarrow> nat \<Rightarrow> (int \<times> byte list) option" where
  "idme_string st name sz = do {
     (r, buf) \<leftarrow> idme_get_var_external name (Some (replicate sz 0)) (sz - 1) st;
     b \<leftarrow> buf;
     s \<leftarrow> buf_str b;
     Some (r, s) }"

definition print_int :: "int \<Rightarrow> byte list" where
  "print_int v = (if v < 0 then 45 # print_num 10 (nat (- v)) else print_num 10 (nat v))"

definition ipaddr_cmd :: "idme_state \<Rightarrow> byte list option" where
  "ipaddr_cmd st = do {
     (r, s) \<leftarrow> idme_string st (cstr ''eth_ip_addr'') 32;
     Some (snprintf_str 64 (cstr ''setenv ipaddr '' @ (if r = 0 \<and> 46 \<in> set s then s else DEFAULT_IP_ADDR))) }"

fun mac_colons :: "byte list \<Rightarrow> byte list" where
  "mac_colons (a # b # c # cs) = a # b # 58 # mac_colons (c # cs)"
| "mac_colons cs = cs"

definition macaddr_cmd :: "idme_state \<Rightarrow> byte list list option" where
  "macaddr_cmd st = do {
     (r, s) \<leftarrow> idme_string st (cstr ''eth_mac_addr'') 32;
     Some (if r = 0 \<and> length s = 12 then [snprintf_str 64 (cstr ''setenv macaddr '' @ mac_colons s)] else []) }"

definition start_bootmode :: "idme_state \<Rightarrow> int option" where
  "start_bootmode st = do {
     (r, s) \<leftarrow> idme_string st (cstr ''bootmode'') 6;
     let v = (if r = 0 then atoi (Some s) else 1);
     Some (if v < 0 \<or> v > IDME_BOOTMODE_MAX then 1 else v) }"

definition start_dev_flags :: "idme_state \<Rightarrow> int option" where
  "start_dev_flags st = do {
     (r, s) \<leftarrow> idme_string st (cstr ''dev_flags'') 8;
     Some (if r = 0 then atoi (Some s) else 0) }"

definition idme_env_commands :: "idme_state \<Rightarrow> byte list list option" where
  "idme_env_commands st = do {
     ip \<leftarrow> ipaddr_cmd st;
     mac \<leftarrow> macaddr_cmd st;
     bm \<leftarrow> start_bootmode st;
     df \<leftarrow> start_dev_flags st;
     Some ([ip] @ mac @ [cstr ''saveenv'', snprintf_str 64 (cstr ''setenv bootmode '' @ print_int bm),
       cstr ''saveenv'', snprintf_str 64 (cstr ''setenv dev_flags '' @ print_int df), cstr ''saveenv'']) }"

section \<open>Lemmas\<close>

definition char_digit :: "byte \<Rightarrow> nat" where
  "char_digit c = (if unat c < 58 then unat c - 48 else unat c - 87)"

lemma char_digit_digit_char: "d < 16 \<Longrightarrow> char_digit (digit_char d) = d"
  by (auto simp: char_digit_def digit_char_def unsigned_of_nat take_bit_nat_eq_self simp flip: of_nat_add)

lemma digits_value_zeros: "digits_value b (replicate k 0 @ ds) = digits_value b ds"
  by (induction k) (simp_all add: digits_value_def)

lemma length_hex4 [simp]: "length (hex4 w) = 4"
proof -
  have "unat w < 2 ^ LENGTH(16)" by (rule unsigned_less)
  then have "unat w < 16 ^ 4" by simp
  then have "length (nat_digits 16 (unat w)) \<le> 4" by (intro length_nat_digits_le) simp_all
  then show ?thesis by (simp add: hex4_def print_num_def)
qed

lemma hex4_value: "digits_value 16 (map char_digit (hex4 w)) = unat w"
proof -
  have "map char_digit (print_num 16 (unat w)) = nat_digits 16 (unat w)"
    using nat_digits_less [of 16] by (auto simp: print_num_def char_digit_digit_char intro!: map_idI)
  moreover have "char_digit 48 = 0" by (simp add: char_digit_def)
  ultimately show ?thesis by (simp add: hex4_def digits_value_zeros)
qed

lemma hex4_inj: "hex4 v = hex4 w \<Longrightarrow> v = w"
  using hex4_value [of v] hex4_value [of w] by (simp add: word_unat_eq_iff)

text \<open>What the unlock check reads of the stored code.\<close>

lemma is_cstr_unlock_code [simp]: "is_cstr (cstr ''unlock_code'')"
  by (simp add: is_cstr_def cstr_def)

definition unlock_ok :: "board \<Rightarrow> byte list \<Rightarrow> bool" where
  "unlock_ok b sig \<longleftrightarrow> key_alloc_ok b \<and> key_import_ok b \<and>
     (case amzn_get_unlock_code b UNLOCK_CODE_LEN of
        None \<Rightarrow> False
      | Some code \<Rightarrow> rsa_verify_hash b sig (sha256 b code) = (0, 1))"

lemma verify_code_loop_Nil [simp]: "verify_code_loop b sig [] p = Some p"
  by (cases p) simp

lemma amzn_verify_unlock_iff: "amzn_verify_unlock b (Some sig) = Some (if unlock_ok b sig then 0 else -1)"
  by (auto simp: amzn_verify_unlock_def amzn_verify_limited_unlock_def verify_code_def unlock_ok_def
      split: option.splits prod.splits)

lemma amzn_device_is_unlocked_rep:
  assumes "pidme_data st" "idme_funcs st" "idme_rep (gidme_buff st) its"
    and "lookup_item its (cstr ''unlock_code'') = Some it" "256 \<le> length (idata it)"
  shows "amzn_device_is_unlocked b st = Some (unlock_ok b (take 256 (idata it)))"
  using idme_get_var_refines [OF assms(3) is_cstr_unlock_code, of 256 "replicate 256 0"] assms
  by (simp add: amzn_device_is_unlocked_def idme_get_var_external_def pidme_def SIGNED_UNLOCK_CODE_LEN_def
      amzn_verify_unlock_iff)

text \<open>The mark search finds the first occurrence.\<close>

lemma find_mark_Some:
  "find_mark buf loc k = Some i \<longleftrightarrow>
     loc \<le> i \<and> i < loc + k \<and> take 4 (drop i buf) = SBOOT_VER_MARK \<and>
     (\<forall>j. loc \<le> j \<and> j < i \<longrightarrow> take 4 (drop j buf) \<noteq> SBOOT_VER_MARK)"
proof (induction k arbitrary: loc)
  case 0
  then show ?case by auto
next
  case (Suc k)
  show ?case
  proof (cases "take 4 (drop loc buf) = SBOOT_VER_MARK")
    case True
    then show ?thesis by (auto simp: order.order_iff_strict)
  next
    case False
    then show ?thesis using Suc.IH [of "Suc loc"] by (auto simp: Suc_le_eq) (metis le_neq_implies_less)+
  qed
qed

definition first_mark :: "byte list \<Rightarrow> nat \<Rightarrow> bool" where
  "first_mark buf i \<longleftrightarrow> i + 8 \<le> length buf \<and> take 4 (drop i buf) = SBOOT_VER_MARK \<and>
     (\<forall>j < i. take 4 (drop j buf) \<noteq> SBOOT_VER_MARK)"

lemma sboot_mark_Some: "sboot_mark buf = Some i \<longleftrightarrow> first_mark buf i"
  by (auto simp: sboot_mark_def find_mark_Some first_mark_def)

text \<open>The commands a run of steps has executed.\<close>

lemma run_steps_ok:
  assumes "run_steps run h cs = (0, h')"
  shows "h' = h @ cs \<and> (\<forall>i < length cs. 0 \<le> run (h @ take i cs) (cs ! i))"
  using assms
proof (induction cs arbitrary: h)
  case Nil
  then show ?case by simp
next
  case (Cons c cs)
  then have c: "0 \<le> run h c" and "run_steps run (h @ [c]) cs = (0, h')" by (auto split: if_splits)
  from Cons.IH [OF this(2)] have IH: "h' = (h @ [c]) @ cs"
    "\<forall>i < length cs. 0 \<le> run ((h @ [c]) @ take i cs) (cs ! i)" by auto
  have "0 \<le> run (h @ take i (c # cs)) ((c # cs) ! i)" if "i < length (c # cs)" for i
    using that c IH(2) by (cases i) auto
  then show ?case using IH(1) by simp
qed

lemma run_steps_code: "run_steps run h cs = (r, h') \<Longrightarrow> r = 0 \<or> r = -1"
  by (induction cs arbitrary: h) (auto split: if_splits)

section \<open>Properties\<close>

text \<open>A board for the concrete instances: a production device with an eFuse identity, DDR3 by its
  GPIO lines, a toy digest and a toy signature check.\<close>

definition demo_board :: board where
  "demo_board = \<lparr>gpio_level = (\<lambda>n. if n = 85 then 1 else 0), cid_reg = 0x41, sys_init_ok = True,
     efuse_did = Some (0x1234, 0xabcd, 0x0042, 0), key_alloc_ok = True, key_import_ok = True,
     sha256 = (\<lambda>m. take 32 (m @ replicate 32 0)),
     rsa_verify_hash = (\<lambda>sig d. (0, if take 16 sig = take 16 d then 1 else 0))\<rparr>"

lemma full_unlock_code:
  "lookup_item (map default_item margo_full) (cstr ''unlock_code'') =
     Some (default_item (entry ''unlock_code'' 1024 1 (Some [])))"
  by (simp add: lookup_item_def margo_full_def margo_items_def entry_def cstr_def)

text \<open>C15: a device counts as unlocked exactly when the first 256 bytes of its stored
  \<open>unlock_code\<close> item verify, under the board's unlock key, as a signature of the SHA-256 digest of
  its own unlock code; a code that cannot be read, a key that cannot be loaded or any other outcome
  of the signature check leaves it locked.\<close>

theorem device_unlocked_iff_signed:
  assumes "pidme_data st" "idme_funcs st" "idme_rep (gidme_buff st) its"
    and "lookup_item its (cstr ''unlock_code'') = Some it" "256 \<le> length (idata it)"
  shows "amzn_device_is_unlocked b st =
    Some (key_alloc_ok b \<and> key_import_ok b \<and>
      (\<exists>code. amzn_get_unlock_code b UNLOCK_CODE_LEN = Some code \<and>
         rsa_verify_hash b (take 256 (idata it)) (sha256 b code) = (0, 1)))"
  using amzn_device_is_unlocked_rep [OF assms] by (simp add: unlock_ok_def split: option.splits)

theorem device_unlocked_iff_signed_witness:
  "amzn_device_is_unlocked demo_board (running full_image) = Some False"
proof -
  let ?it = "default_item (entry ''unlock_code'' 1024 1 (Some []))"
  have it: "idata ?it = replicate 1024 0" by (simp add: default_item_def entry_def fit_def cstr_def)
  have st: "pidme_data (running full_image)" "idme_funcs (running full_image)"
    "idme_rep (gidme_buff (running full_image)) (map default_item margo_full)"
    using full_image_rep by (simp_all add: running_def)
  have code: "amzn_get_unlock_code demo_board UNLOCK_CODE_LEN = Some (hex4 0 @ hex4 0x0042 @ hex4 0xabcd @ hex4 0x1234)"
    by (simp add: amzn_get_unlock_code_def demo_board_def UNLOCK_CODE_LEN_def)
  have "hex4 0 = [48, 48, 48, 48]"
    by (simp add: hex4_def print_num_def nat_digits.simps digit_char_def numeral_eq_Suc)
  then have "rsa_verify_hash demo_board (replicate 256 0) (sha256 demo_board (hex4 0 @ hex4 0x0042 @ hex4 0xabcd @ hex4 0x1234)) \<noteq> (0, 1)"
    by (auto simp: demo_board_def dest!: arg_cong [where f = hd])
  then show ?thesis
    using device_unlocked_iff_signed [OF st full_unlock_code, of demo_board] code it by simp
qed

text \<open>C16: the unlock code identifies the device: it is sixteen hexadecimal digits, and two
  devices have the same code exactly when the 48 bits of their eFuse identity agree.\<close>

theorem unlock_code_identifies_device:
  assumes "amzn_get_unlock_code b UNLOCK_CODE_LEN = Some c" "amzn_get_unlock_code b' UNLOCK_CODE_LEN = Some c'"
    and "efuse_did b = Some (e0, e1, e2, e3)" "efuse_did b' = Some (e0', e1', e2', e3')"
  shows "length c = 16 \<and> (c = c' \<longleftrightarrow> e0 = e0' \<and> e1 = e1' \<and> e2 = e2')"
  using assms by (auto simp: amzn_get_unlock_code_def split: if_splits dest: hex4_inj)

theorem unlock_code_identifies_device_witness:
  "length (hex4 0 @ hex4 0x0042 @ hex4 0xabcd @ hex4 0x1234) = 16 \<and>
   hex4 0 @ hex4 0x0042 @ hex4 0xabcd @ hex4 0x1234 \<noteq> hex4 0 @ hex4 0x0042 @ hex4 0xabcd @ hex4 0x1235"
proof -
  let ?b' = "demo_board\<lparr>efuse_did := Some (0x1235, 0xabcd, 0x0042, 0)\<rparr>"
  have "amzn_get_unlock_code demo_board UNLOCK_CODE_LEN = Some (hex4 0 @ hex4 0x0042 @ hex4 0xabcd @ hex4 0x1234)"
    "amzn_get_unlock_code ?b' UNLOCK_CODE_LEN = Some (hex4 0 @ hex4 0x0042 @ hex4 0xabcd @ hex4 0x1235)"
    "efuse_did demo_board = Some (0x1234, 0xabcd, 0x0042, 0)" "efuse_did ?b' = Some (0x1235, 0xabcd, 0x0042, 0)"
    by (simp_all add: amzn_get_unlock_code_def demo_board_def UNLOCK_CODE_LEN_def)
  from unlock_code_identifies_device [OF this] show ?thesis by simp
qed

text \<open>C17: a first-stage loader is accepted for flashing exactly when it carries the version mark,
  its customer id is valid and equals the board's, its DDR type fits the type the board's GPIO
  lines report, and the loader on the device can be read, carries the mark too and has another
  version.\<close>

theorem sboot_match_iff:
  assumes "read_ddr_board_id st = Some d"
  shows "sboot_version_check b st calloc_ok dev (Some buf) = Some SBVC_MATCH \<longleftrightarrow>
    (\<exists>i old j. first_mark buf i \<and> calloc_ok \<and>
       dev (min (length buf) MAX_SBOOT_SIZE) = Some old \<and> first_mark old j \<and>
       buf ! (i + 4) = cid_reg b \<and> cid_reg b \<in> {0, 0x41} \<and>
       read_ddr_gpio b \<noteq> INVALID_DDR \<and>
       buf ! (i + 5) \<in> {read_ddr_gpio b, DDR3_NUM + DDR4_NUM} \<and>
       le16_at buf (i + 6) \<noteq> le16_at old (j + 6))"
proof (cases "sboot_mark buf")
  case None
  then show ?thesis
    using sboot_mark_Some [of buf] by (auto simp: sboot_version_check_def)
next
  case (Some i)
  let ?g = "read_ddr_gpio b" and ?all = "DDR3_NUM + DDR4_NUM" and ?dev = "dev (min (length buf) MAX_SBOOT_SIZE)"
  have i: "first_mark buf k \<longleftrightarrow> k = i" for k
    using sboot_mark_Some [of buf k] Some by auto
  have gpio: "?g = INVALID_DDR \<or> ?g = DDR3_NUM \<or> ?g = DDR4_NUM"
    by (simp add: read_ddr_gpio_def Let_def)
  have "sboot_version_check b st calloc_ok dev (Some buf) = Some SBVC_MATCH \<longleftrightarrow>
      (buf ! (i + 4) = 0 \<or> buf ! (i + 4) = 0x41) \<and> (cid_reg b = 0 \<or> cid_reg b = 0x41) \<and> ?g \<noteq> INVALID_DDR \<and>
      (buf ! (i + 5) = DDR3_NUM \<or> buf ! (i + 5) = DDR4_NUM \<or> buf ! (i + 5) = ?all) \<and>
      cid_reg b = buf ! (i + 4) \<and> (buf ! (i + 5) = ?all \<or> buf ! (i + 5) = ?g) \<and> calloc_ok \<and>
      (case ?dev of None \<Rightarrow> False | Some old \<Rightarrow>
         (case sboot_mark old of None \<Rightarrow> False | Some j \<Rightarrow> le16_at buf (i + 6) \<noteq> le16_at old (j + 6)))"
    by (simp add: sboot_version_check_def Some assms read_board_cid_def Let_def split: option.split)
  also have "\<dots> \<longleftrightarrow> (\<exists>old j. ?dev = Some old \<and> first_mark old j \<and> le16_at buf (i + 6) \<noteq> le16_at old (j + 6)) \<and>
      calloc_ok \<and> buf ! (i + 4) = cid_reg b \<and> cid_reg b \<in> {0, 0x41} \<and> ?g \<noteq> INVALID_DDR \<and>
      buf ! (i + 5) \<in> {?g, ?all}"
    using gpio by (auto simp flip: sboot_mark_Some split: option.splits)
  finally show ?thesis unfolding i by blast
qed

theorem sboot_match_iff_witness:
  "sboot_version_check demo_board (running full_image) True (\<lambda>_. Some (cstr ''YAMA'' @ [0x41, 3, 1, 0]))
     (Some (cstr ''YAMA'' @ [0x41, 7, 2, 0])) = Some SBVC_MATCH"
proof -
  have "\<exists>d. read_ddr_board_id (running full_image) = Some d"
  proof -
    have c: "is_cstr (cstr ''board_id'')" by (simp add: is_cstr_def cstr_def)
    have "lookup_item (map default_item margo_full) (cstr ''board_id'') =
        Some (default_item (entry ''board_id'' 16 1 (Some ''ffffff0000000000'')))"
      by (simp add: lookup_item_def margo_full_def margo_items_def entry_def)
    then show ?thesis
      using idme_get_var_refines [OF full_image_rep(1) c, of 17 "replicate 18 0"]
      by (simp add: read_ddr_board_id_def board_id_string_def idme_get_var_external_def running_def pidme_def)
  qed
  then obtain d where d: "read_ddr_board_id (running full_image) = Some d" ..
  let ?new = "cstr ''YAMA'' @ [0x41, 7, 2, 0]" and ?old = "cstr ''YAMA'' @ [0x41, 3, 1, 0]"
  have "first_mark ?new 0" "first_mark ?old 0" by (simp_all add: first_mark_def SBOOT_VER_MARK_def cstr_def)
  moreover have "le16_at ?new 6 \<noteq> le16_at ?old 6" by (simp add: le16_at_def cstr_def)
  moreover have "?new ! 4 = 0x41" "?new ! 5 = 7" by (simp_all add: cstr_def)
  ultimately show ?thesis
    unfolding sboot_match_iff [OF d]
    by (intro exI [of _ 0] exI [of _ ?old]) (simp add: demo_board_def read_ddr_gpio_def INVALID_DDR_def DDR3_NUM_def DDR4_NUM_def)
qed



end
