(* ===== verification/Kernel_Cert.thy ===== *)
theory Kernel_Cert
  imports Boot_Prelude
begin

text \<open>The two certificates that \<open>amzn_get_kernel_cert\<close> chooses from
  (\<^verbatim>\<open>features/secure_boot/image_verify.c\<close>), byte for byte.\<close>

datatype cert_type = AMZN_ENGINEERING_CERT | AMZN_PRODUCTION_CERT

definition production_cacert :: "byte list" where
  "production_cacert =
    [0x30, 0x82, 0x04, 0x2b, 0x30, 0x82, 0x02, 0xe3, 0xa0, 0x03, 0x02, 0x01, 0x02, 0x02, 0x09, 0x00, 0x84, 0xa7, 0xc2, 0xae,
     0x52, 0xf0, 0xc4, 0xfb, 0x30, 0x3d, 0x06, 0x09, 0x2a, 0x86, 0x48, 0x86, 0xf7, 0x0d, 0x01, 0x01, 0x0a, 0x30, 0x30, 0xa0,
     0x0d, 0x30, 0x0b, 0x06, 0x09, 0x60, 0x86, 0x48, 0x01, 0x65, 0x03, 0x04, 0x02, 0x01, 0xa1, 0x1a, 0x30, 0x18, 0x06, 0x09,
     0x2a, 0x86, 0x48, 0x86, 0xf7, 0x0d, 0x01, 0x01, 0x08, 0x30, 0x0b, 0x06, 0x09, 0x60, 0x86, 0x48, 0x01, 0x65, 0x03, 0x04,
     0x02, 0x01, 0xa2, 0x03, 0x02, 0x01, 0x20, 0x30, 0x7c, 0x31, 0x0b, 0x30, 0x09, 0x06, 0x03, 0x55, 0x04, 0x06, 0x13, 0x02,
     0x55, 0x53, 0x31, 0x13, 0x30, 0x11, 0x06, 0x03, 0x55, 0x04, 0x08, 0x0c, 0x0a, 0x43, 0x61, 0x6c, 0x69, 0x66, 0x6f, 0x72,
     0x6e, 0x69, 0x61, 0x31, 0x12, 0x30, 0x10, 0x06, 0x03, 0x55, 0x04, 0x07, 0x0c, 0x09, 0x53, 0x75, 0x6e, 0x6e, 0x79, 0x76,
     0x61, 0x6c, 0x65, 0x31, 0x16, 0x30, 0x14, 0x06, 0x03, 0x55, 0x04, 0x0a, 0x0c, 0x0d, 0x41, 0x6d, 0x61, 0x7a, 0x6f, 0x6e,
     0x20, 0x4c, 0x61, 0x62, 0x31, 0x32, 0x36, 0x31, 0x2c, 0x30, 0x2a, 0x06, 0x03, 0x55, 0x04, 0x0b, 0x0c, 0x23, 0x43, 0x6f,
     0x6d, 0x6d, 0x6f, 0x6e, 0x20, 0x4b, 0x65, 0x72, 0x6e, 0x65, 0x6c, 0x20, 0x53, 0x69, 0x67, 0x6e, 0x69, 0x6e, 0x67, 0x20,
     0x50, 0x72, 0x6f, 0x64, 0x75, 0x63, 0x74, 0x69, 0x6f, 0x6e, 0x20, 0x43, 0x41, 0x30, 0x1e, 0x17, 0x0d, 0x31, 0x35, 0x30,
     0x34, 0x31, 0x36, 0x32, 0x33, 0x33, 0x30, 0x31, 0x30, 0x5a, 0x17, 0x0d, 0x32, 0x35, 0x30, 0x32, 0x32, 0x32, 0x32, 0x33,
     0x33, 0x30, 0x31, 0x30, 0x5a, 0x30, 0x7c, 0x31, 0x0b, 0x30, 0x09, 0x06, 0x03, 0x55, 0x04, 0x06, 0x13, 0x02, 0x55, 0x53,
     0x31, 0x13, 0x30, 0x11, 0x06, 0x03, 0x55, 0x04, 0x08, 0x0c, 0x0a, 0x43, 0x61, 0x6c, 0x69, 0x66, 0x6f, 0x72, 0x6e, 0x69,
     0x61, 0x31, 0x12, 0x30, 0x10, 0x06, 0x03, 0x55, 0x04, 0x07, 0x0c, 0x09, 0x53, 0x75, 0x6e, 0x6e, 0x79, 0x76, 0x61, 0x6c,
     0x65, 0x31, 0x16, 0x30, 0x14, 0x06, 0x03, 0x55, 0x04, 0x0a, 0x0c, 0x0d, 0x41, 0x6d, 0x61, 0x7a, 0x6f, 0x6e, 0x20, 0x4c,
     0x61, 0x62, 0x31, 0x32, 0x36, 0x31, 0x2c, 0x30, 0x2a, 0x06, 0x03, 0x55, 0x04, 0x0b, 0x0c, 0x23, 0x43, 0x6f, 0x6d, 0x6d,
     0x6f, 0x6e, 0x20, 0x4b, 0x65, 0x72, 0x6e, 0x65, 0x6c, 0x20, 0x53, 0x69, 0x67, 0x6e, 0x69, 0x6e, 0x67, 0x20, 0x50, 0x72,
     0x6f, 0x64, 0x75, 0x63, 0x74, 0x69, 0x6f, 0x6e, 0x20, 0x43, 0x41, 0x30, 0x82, 0x01, 0x22, 0x30, 0x0d, 0x06, 0x09, 0x2a,
     0x86, 0x48, 0x86, 0xf7, 0x0d, 0x01, 0x01, 0x01, 0x05, 0x00, 0x03, 0x82, 0x01, 0x0f, 0x00, 0x30, 0x82, 0x01, 0x0a, 0x02,
     0x82, 0x01, 0x01, 0x00, 0x9d, 0xcd, 0xb4, 0xef, 0xa9, 0x18, 0x02, 0xc5, 0xea, 0x78, 0x55, 0x97, 0x4c, 0x11, 0x0e, 0xe4,
     0x8f, 0xe0, 0xf5, 0xcf, 0x0b, 0x32, 0x3e, 0x8a, 0xf5, 0x40, 0x9e, 0x6d, 0xf7, 0xf9, 0xfa, 0xbc, 0x1b, 0x8f, 0x2e, 0xcf,
     0x0a, 0x78, 0x00, 0x96, 0xdd, 0x30, 0x26, 0xe2, 0x0f, 0x50, 0xa2, 0x4c, 0x2c, 0x26, 0x23, 0xc5, 0x37, 0xef, 0x52, 0xc4,
     0xcb, 0x0f, 0x91, 0xbf, 0x15, 0x9e, 0x09, 0xfa, 0xc1, 0x7f, 0x67, 0xd6, 0x45, 0x4c, 0x3d, 0x13, 0x34, 0x48, 0xcd, 0xbc,
     0xfb, 0xae, 0x15, 0xe4, 0x14, 0x1f, 0x69, 0x44, 0x15, 0x19, 0x31, 0x62, 0xd6, 0x49, 0xe9, 0x0d, 0x10, 0x26, 0xe2, 0x11,
     0xa9, 0x84, 0x15, 0xb9, 0xe5, 0x4a, 0xb4, 0x45, 0xc8, 0x92, 0x02, 0x6c, 0x80, 0xa4, 0xbb, 0xec, 0x94, 0xef, 0x04, 0x38,
     0x7e, 0x92, 0x8e, 0x02, 0x1f, 0xf1, 0x84, 0x81, 0x05, 0xda, 0xf4, 0x48, 0xf6, 0xaa, 0xe7, 0xa8, 0xf3, 0x35, 0x95, 0xcd,
     0x99, 0x85, 0x53, 0x8f, 0x81, 0xe7, 0x43, 0xa6, 0x2f, 0x4b, 0x24, 0x9f, 0xf1, 0x77, 0x4f, 0xf0, 0x16, 0xa2, 0x30, 0x3f,
     0x54, 0xe1, 0x4d, 0x23, 0x99, 0xb7, 0x85, 0xf1, 0x28, 0x0a, 0xd8, 0xa4, 0xa5, 0xf3, 0xc0, 0xe4, 0x12, 0x2b, 0xb3, 0x69,
     0x60, 0x28, 0x45, 0x81, 0x8a, 0x44, 0x6b, 0xf5, 0x68, 0xcf, 0x51, 0x93, 0x04, 0xa3, 0x4d, 0x35, 0x5c, 0x9f, 0x8a, 0x6f,
     0x28, 0x69, 0xad, 0xcf, 0x7a, 0x23, 0x4b, 0x49, 0xf1, 0x4f, 0x25, 0x97, 0x50, 0xcd, 0x18, 0xa4, 0x5d, 0xa2, 0xd4, 0xfe,
     0xfe, 0x9d, 0xf5, 0x62, 0x48, 0x95, 0x2e, 0x98, 0xa4, 0xa5, 0x0d, 0xb7, 0xf9, 0xf7, 0x0c, 0xdb, 0x37, 0x72, 0x97, 0xfa,
     0x7b, 0x2b, 0xb7, 0xe5, 0x28, 0x43, 0xf1, 0x77, 0xac, 0x22, 0x19, 0x5b, 0x6a, 0xb5, 0x22, 0x9a, 0xa1, 0x2e, 0xe0, 0x67,
     0x02, 0x03, 0x01, 0x00, 0x01, 0xa3, 0x50, 0x30, 0x4e, 0x30, 0x1d, 0x06, 0x03, 0x55, 0x1d, 0x0e, 0x04, 0x16, 0x04, 0x14,
     0xc9, 0x8e, 0xce, 0x81, 0x40, 0x22, 0xc5, 0x98, 0x98, 0xb4, 0xcc, 0x31, 0x5c, 0xd6, 0x82, 0x0e, 0x67, 0xc3, 0xfa, 0x49,
     0x30, 0x1f, 0x06, 0x03, 0x55, 0x1d, 0x23, 0x04, 0x18, 0x30, 0x16, 0x80, 0x14, 0xc9, 0x8e, 0xce, 0x81, 0x40, 0x22, 0xc5,
     0x98, 0x98, 0xb4, 0xcc, 0x31, 0x5c, 0xd6, 0x82, 0x0e, 0x67, 0xc3, 0xfa, 0x49, 0x30, 0x0c, 0x06, 0x03, 0x55, 0x1d, 0x13,
     0x04, 0x05, 0x30, 0x03, 0x01, 0x01, 0xff, 0x30, 0x3d, 0x06, 0x09, 0x2a, 0x86, 0x48, 0x86, 0xf7, 0x0d, 0x01, 0x01, 0x0a,
     0x30, 0x30, 0xa0, 0x0d, 0x30, 0x0b, 0x06, 0x09, 0x60, 0x86, 0x48, 0x01, 0x65, 0x03, 0x04, 0x02, 0x01, 0xa1, 0x1a, 0x30,
     0x18, 0x06, 0x09, 0x2a, 0x86, 0x48, 0x86, 0xf7, 0x0d, 0x01, 0x01, 0x08, 0x30, 0x0b, 0x06, 0x09, 0x60, 0x86, 0x48, 0x01,
     0x65, 0x03, 0x04, 0x02, 0x01, 0xa2, 0x03, 0x02, 0x01, 0x20, 0x03, 0x82, 0x01, 0x01, 0x00, 0x07, 0x9f, 0x05, 0x00, 0x8e,
     0xe1, 0xc4, 0x61, 0x17, 0x00, 0xea, 0xce, 0xeb, 0xb9, 0x18, 0x53, 0x6a, 0xcb, 0x95, 0x36, 0x23, 0x2b, 0xfc, 0x2e, 0x46,
     0xa9, 0xc4, 0x30, 0xa0, 0x2f, 0x1c, 0x84, 0x24, 0xdd, 0x00, 0x52, 0x2b, 0x12, 0x49, 0xe4, 0xd4, 0xb0, 0xb5, 0x34, 0x20,
     0x23, 0xc0, 0xac, 0x75, 0x29, 0x93, 0xae, 0xae, 0x8d, 0x5b, 0xc1, 0x0a, 0x1e, 0xa5, 0x54, 0x81, 0xf4, 0xc7, 0x47, 0x94,
     0x82, 0x80, 0xed, 0x01, 0x61, 0x6b, 0xa9, 0x3b, 0x7f, 0x40, 0x26, 0x97, 0x05, 0xd8, 0x00, 0xf3, 0x1f, 0x09, 0xc7, 0x77,
     0x79, 0xc5, 0x38, 0xf6, 0x71, 0xa8, 0x3b, 0x34, 0x9c, 0xe2, 0xd0, 0x5e, 0xab, 0x76, 0xff, 0x1f, 0xca, 0xb5, 0x81, 0xdc,
     0x51, 0x7f, 0x19, 0x0e, 0x8b, 0xad, 0x31, 0x47, 0xbd, 0x45, 0xfd, 0xfb, 0xb0, 0x8d, 0xeb, 0xea, 0xc6, 0x47, 0xa3, 0x05,
     0xb0, 0x29, 0x68, 0xd6, 0x96, 0x3a, 0x83, 0x09, 0xbf, 0xfb, 0xad, 0x64, 0x61, 0xbf, 0xde, 0xcf, 0xa5, 0x65, 0x4a, 0x35,
     0x89, 0xb1, 0xa0, 0xb2, 0xbe, 0xa5, 0xf1, 0x3c, 0x98, 0x00, 0xc6, 0x9a, 0x65, 0xd7, 0x4a, 0x3e, 0x31, 0xf1, 0x01, 0x25,
     0x3f, 0xb2, 0x1a, 0x2e, 0xa1, 0xf4, 0xdb, 0x35, 0x62, 0x52, 0x6d, 0xe1, 0xf3, 0xe0, 0x86, 0x80, 0xe4, 0x76, 0xc1, 0x30,
     0x94, 0x03, 0x0f, 0x1c, 0xc1, 0xea, 0xae, 0x1d, 0x8c, 0xb3, 0x36, 0x7e, 0xbf, 0x46, 0x44, 0x4c, 0xd3, 0xeb, 0x36, 0xeb,
     0x71, 0x90, 0xf6, 0xd0, 0x08, 0x9a, 0x93, 0x2f, 0x67, 0xdd, 0x97, 0xb2, 0x09, 0x5d, 0x1a, 0xeb, 0x71, 0xc5, 0x1d, 0xab,
     0x2a, 0x7d, 0xb4, 0xfd, 0xfe, 0x32, 0x31, 0x0b, 0xe1, 0x00, 0xc4, 0xd1, 0x40, 0xb3, 0x70, 0x31, 0x62, 0xb5, 0xea, 0x24,
     0x42, 0x36, 0x8a, 0x8d, 0x89, 0x26, 0xad, 0x48, 0xaf, 0x67, 0x50]"

definition engineering_cacert :: "byte list" where
  "engineering_cacert =
    [0x30, 0x82, 0x04, 0x2d, 0x30, 0x82, 0x02, 0xe5, 0xa0, 0x03, 0x02, 0x01, 0x02, 0x02, 0x09, 0x00, 0xfd, 0x52, 0x91, 0x0b,
     0x2f, 0xbe, 0x3c, 0x82, 0x30, 0x3d, 0x06, 0x09, 0x2a, 0x86, 0x48, 0x86, 0xf7, 0x0d, 0x01, 0x01, 0x0a, 0x30, 0x30, 0xa0,
     0x0d, 0x30, 0x0b, 0x06, 0x09, 0x60, 0x86, 0x48, 0x01, 0x65, 0x03, 0x04, 0x02, 0x01, 0xa1, 0x1a, 0x30, 0x18, 0x06, 0x09,
     0x2a, 0x86, 0x48, 0x86, 0xf7, 0x0d, 0x01, 0x01, 0x08, 0x30, 0x0b, 0x06, 0x09, 0x60, 0x86, 0x48, 0x01, 0x65, 0x03, 0x04,
     0x02, 0x01, 0xa2, 0x03, 0x02, 0x01, 0x20, 0x30, 0x7d, 0x31, 0x0b, 0x30, 0x09, 0x06, 0x03, 0x55, 0x04, 0x06, 0x13, 0x02,
     0x55, 0x53, 0x31, 0x13, 0x30, 0x11, 0x06, 0x03, 0x55, 0x04, 0x08, 0x0c, 0x0a, 0x43, 0x61, 0x6c, 0x69, 0x66, 0x6f, 0x72,
     0x6e, 0x69, 0x61, 0x31, 0x12, 0x30, 0x10, 0x06, 0x03, 0x55, 0x04, 0x07, 0x0c, 0x09, 0x53, 0x75, 0x6e, 0x6e, 0x79, 0x76,
     0x61, 0x6c, 0x65, 0x31, 0x16, 0x30, 0x14, 0x06, 0x03, 0x55, 0x04, 0x0a, 0x0c, 0x0d, 0x41, 0x6d, 0x61, 0x7a, 0x6f, 0x6e,
     0x20, 0x4c, 0x61, 0x62, 0x31, 0x32, 0x36, 0x31, 0x2d, 0x30, 0x2b, 0x06, 0x03, 0x55, 0x04, 0x0b, 0x0c, 0x24, 0x43, 0x6f,
     0x6d, 0x6d, 0x6f, 0x6e, 0x20, 0x4b, 0x65, 0x72, 0x6e, 0x65, 0x6c, 0x20, 0x53, 0x69, 0x67, 0x6e, 0x69, 0x6e, 0x67, 0x20,
     0x45, 0x6e, 0x67, 0x69, 0x6e, 0x65, 0x65, 0x72, 0x69, 0x6e, 0x67, 0x20, 0x43, 0x41, 0x30, 0x1e, 0x17, 0x0d, 0x31, 0x35,
     0x30, 0x32, 0x30, 0x31, 0x31, 0x38, 0x33, 0x32, 0x31, 0x30, 0x5a, 0x17, 0x0d, 0x32, 0x34, 0x31, 0x32, 0x31, 0x30, 0x31,
     0x38, 0x33, 0x32, 0x31, 0x30, 0x5a, 0x30, 0x7d, 0x31, 0x0b, 0x30, 0x09, 0x06, 0x03, 0x55, 0x04, 0x06, 0x13, 0x02, 0x55,
     0x53, 0x31, 0x13, 0x30, 0x11, 0x06, 0x03, 0x55, 0x04, 0x08, 0x0c, 0x0a, 0x43, 0x61, 0x6c, 0x69, 0x66, 0x6f, 0x72, 0x6e,
     0x69, 0x61, 0x31, 0x12, 0x30, 0x10, 0x06, 0x03, 0x55, 0x04, 0x07, 0x0c, 0x09, 0x53, 0x75, 0x6e, 0x6e, 0x79, 0x76, 0x61,
     0x6c, 0x65, 0x31, 0x16, 0x30, 0x14, 0x06, 0x03, 0x55, 0x04, 0x0a, 0x0c, 0x0d, 0x41, 0x6d, 0x61, 0x7a, 0x6f, 0x6e, 0x20,
     0x4c, 0x61, 0x62, 0x31, 0x32, 0x36, 0x31, 0x2d, 0x30, 0x2b, 0x06, 0x03, 0x55, 0x04, 0x0b, 0x0c, 0x24, 0x43, 0x6f, 0x6d,
     0x6d, 0x6f, 0x6e, 0x20, 0x4b, 0x65, 0x72, 0x6e, 0x65, 0x6c, 0x20, 0x53, 0x69, 0x67, 0x6e, 0x69, 0x6e, 0x67, 0x20, 0x45,
     0x6e, 0x67, 0x69, 0x6e, 0x65, 0x65, 0x72, 0x69, 0x6e, 0x67, 0x20, 0x43, 0x41, 0x30, 0x82, 0x01, 0x22, 0x30, 0x0d, 0x06,
     0x09, 0x2a, 0x86, 0x48, 0x86, 0xf7, 0x0d, 0x01, 0x01, 0x01, 0x05, 0x00, 0x03, 0x82, 0x01, 0x0f, 0x00, 0x30, 0x82, 0x01,
     0x0a, 0x02, 0x82, 0x01, 0x01, 0x00, 0xb3, 0x23, 0xcc, 0x7d, 0x31, 0x56, 0xfc, 0x5c, 0xc6, 0xff, 0xfa, 0xde, 0xc1, 0xd2,
     0xf1, 0x02, 0xb6, 0x63, 0x62, 0x42, 0xfe, 0x60, 0x63, 0x73, 0xc9, 0xa3, 0x8d, 0xdc, 0x7e, 0x44, 0xd5, 0x3a, 0x68, 0xc9,
     0x54, 0x98, 0xfb, 0x18, 0x23, 0xf6, 0x9a, 0xae, 0xc3, 0x8f, 0x52, 0xa7, 0x7a, 0xa8, 0x3a, 0xeb, 0x96, 0x97, 0x80, 0x02,
     0x89, 0x56, 0xc7, 0xd1, 0xe3, 0xc2, 0x39, 0x00, 0x29, 0x75, 0xef, 0xce, 0x36, 0x8f, 0xce, 0x8f, 0xa2, 0x7f, 0xd6, 0x9d,
     0x26, 0x92, 0xf0, 0xf5, 0xeb, 0x7d, 0x3b, 0x65, 0x29, 0x1e, 0xb1, 0x60, 0x12, 0x57, 0x72, 0xd8, 0x79, 0x32, 0x28, 0xc1,
     0xb9, 0x9b, 0xc5, 0xb8, 0xdb, 0x56, 0xe3, 0x5e, 0xbe, 0xaa, 0xa0, 0xef, 0xb9, 0x79, 0x0c, 0x14, 0x7b, 0x5d, 0x71, 0x99,
     0xdc, 0xb4, 0xc6, 0xec, 0x36, 0x80, 0xaa, 0x3e, 0x76, 0x61, 0xdc, 0x38, 0x62, 0x9f, 0x6f, 0x8d, 0x6a, 0x5d, 0x01, 0x09,
     0xc5, 0xa9, 0x09, 0x48, 0x0d, 0x1d, 0x0b, 0x5d, 0x50, 0xb5, 0xa5, 0xe8, 0xda, 0x43, 0xd8, 0xa9, 0x14, 0xd9, 0x82, 0x5d,
     0x62, 0xca, 0xea, 0x13, 0x60, 0x73, 0x75, 0x15, 0x33, 0x9c, 0xa9, 0x24, 0x26, 0x5e, 0xe6, 0x23, 0x34, 0x3b, 0x1a, 0xb8,
     0x77, 0x7f, 0x02, 0xa8, 0xce, 0x6d, 0xe3, 0x41, 0x77, 0x9e, 0xd5, 0x2d, 0x61, 0x71, 0x6d, 0xc5, 0x2e, 0x56, 0x06, 0x9b,
     0xd0, 0xe4, 0x1a, 0x68, 0xfa, 0xa8, 0x80, 0x49, 0x3c, 0x4d, 0x08, 0x22, 0x9a, 0x33, 0x00, 0x57, 0x61, 0x5d, 0xe2, 0x7f,
     0x57, 0x3d, 0x18, 0x68, 0xdb, 0x0e, 0x57, 0xc2, 0x76, 0x22, 0x54, 0x66, 0x2d, 0x32, 0x6c, 0xde, 0xdb, 0x2b, 0x4d, 0xf7,
     0x0d, 0x03, 0xb2, 0x29, 0xc3, 0x96, 0xcb, 0xe5, 0x69, 0xf9, 0x11, 0x17, 0x1c, 0x0b, 0xd1, 0xee, 0x66, 0x6f, 0x30, 0x38,
     0xf4, 0xdb, 0x02, 0x03, 0x01, 0x00, 0x01, 0xa3, 0x50, 0x30, 0x4e, 0x30, 0x1d, 0x06, 0x03, 0x55, 0x1d, 0x0e, 0x04, 0x16,
     0x04, 0x14, 0xda, 0xfa, 0x9e, 0x4c, 0x48, 0x45, 0x54, 0x72, 0xe0, 0xa2, 0x4a, 0x55, 0xf8, 0xa8, 0x17, 0x42, 0x3e, 0x05,
     0x37, 0x8c, 0x30, 0x1f, 0x06, 0x03, 0x55, 0x1d, 0x23, 0x04, 0x18, 0x30, 0x16, 0x80, 0x14, 0xda, 0xfa, 0x9e, 0x4c, 0x48,
     0x45, 0x54, 0x72, 0xe0, 0xa2, 0x4a, 0x55, 0xf8, 0xa8, 0x17, 0x42, 0x3e, 0x05, 0x37, 0x8c, 0x30, 0x0c, 0x06, 0x03, 0x55,
     0x1d, 0x13, 0x04, 0x05, 0x30, 0x03, 0x01, 0x01, 0xff, 0x30, 0x3d, 0x06, 0x09, 0x2a, 0x86, 0x48, 0x86, 0xf7, 0x0d, 0x01,
     0x01, 0x0a, 0x30, 0x30, 0xa0, 0x0d, 0x30, 0x0b, 0x06, 0x09, 0x60, 0x86, 0x48, 0x01, 0x65, 0x03, 0x04, 0x02, 0x01, 0xa1,
     0x1a, 0x30, 0x18, 0x06, 0x09, 0x2a, 0x86, 0x48, 0x86, 0xf7, 0x0d, 0x01, 0x01, 0x08, 0x30, 0x0b, 0x06, 0x09, 0x60, 0x86,
     0x48, 0x01, 0x65, 0x03, 0x04, 0x02, 0x01, 0xa2, 0x03, 0x02, 0x01, 0x20, 0x03, 0x82, 0x01, 0x01, 0x00, 0x8b, 0x20, 0x63,
     0x48, 0x4d, 0xec, 0xa5, 0x02, 0x4b, 0xc5, 0xed, 0x8d, 0x4b, 0x99, 0x2d, 0xcd, 0xd6, 0xcf, 0x3d, 0x58, 0xe0, 0x4f, 0xdc,
     0xaa, 0xb7, 0x51, 0x45, 0xff, 0x59, 0x23, 0x45, 0x57, 0x79, 0x06, 0x26, 0xc9, 0xa5, 0xc0, 0xca, 0xef, 0xbf, 0xf6, 0x2f,
     0x22, 0xaa, 0xca, 0x1e, 0x8a, 0x25, 0xdd, 0xfa, 0x5a, 0xa6, 0x79, 0xa4, 0x3b, 0x93, 0xf3, 0x2a, 0xf6, 0x2c, 0x80, 0xd9,
     0x76, 0x33, 0xd3, 0x63, 0xa9, 0xaa, 0x4e, 0x66, 0x6e, 0x68, 0x61, 0x04, 0xb5, 0x2f, 0x35, 0xdf, 0x75, 0x3b, 0x08, 0xb4,
     0x48, 0x9e, 0x7f, 0x18, 0xf3, 0x2e, 0xdd, 0xa9, 0xb5, 0xfd, 0xd9, 0x12, 0x16, 0x46, 0x20, 0x79, 0xf9, 0xce, 0x10, 0x6a,
     0x3e, 0xa3, 0x71, 0x4c, 0x79, 0x7f, 0x55, 0x2e, 0x2a, 0xe7, 0x82, 0xc3, 0xa3, 0x68, 0xb5, 0x49, 0xc1, 0x10, 0xe5, 0x20,
     0x3d, 0xc0, 0x27, 0xff, 0x8a, 0x45, 0x34, 0x74, 0x34, 0x79, 0xc9, 0x26, 0xb3, 0x0a, 0xb7, 0x7e, 0x79, 0x21, 0x6f, 0xe6,
     0xe6, 0xb1, 0x12, 0x42, 0xad, 0x60, 0x29, 0xcf, 0x6c, 0x9e, 0xfe, 0xda, 0x96, 0xef, 0x50, 0x8b, 0x20, 0x01, 0x53, 0xd7,
     0x09, 0x56, 0x2c, 0xe1, 0x8b, 0xc9, 0x91, 0xd7, 0xf2, 0x4e, 0xa2, 0x49, 0xda, 0x90, 0x93, 0x88, 0x09, 0xb8, 0x1b, 0x0f,
     0x79, 0x73, 0x36, 0x0b, 0x39, 0xb1, 0xb8, 0x1a, 0xa4, 0x93, 0x0b, 0x0a, 0xa0, 0x91, 0xba, 0x63, 0xc3, 0x6d, 0xcb, 0x76,
     0x93, 0x82, 0x13, 0xc2, 0x14, 0xbe, 0x7c, 0x43, 0x1f, 0x3f, 0x48, 0xd3, 0x19, 0x6d, 0x3e, 0xad, 0x0c, 0x7d, 0x52, 0x3a,
     0x77, 0x31, 0x53, 0x3e, 0x09, 0x95, 0x5d, 0xfb, 0x65, 0x58, 0x8d, 0x41, 0x2e, 0xa0, 0x43, 0x50, 0x5d, 0xf9, 0x4d, 0x09,
     0xc0, 0x0f, 0xb6, 0x87, 0x82, 0xee, 0x8b, 0x60, 0x13, 0xbf, 0x01, 0x72, 0xf8]"

text \<open>The sizes the function returns beside the arrays.\<close>

definition cacert_size :: "cert_type \<Rightarrow> nat" where
  "cacert_size ct = (if ct = AMZN_ENGINEERING_CERT then 1073 else 1071)"

definition amzn_get_kernel_cert :: "cert_type \<Rightarrow> byte list option" where
  "amzn_get_kernel_cert ct =
     read_buf (if ct = AMZN_ENGINEERING_CERT then engineering_cacert else production_cacert) (cacert_size ct)"

lemma length_production_cacert: "length production_cacert = 1071"
  unfolding production_cacert_def by simp

lemma length_engineering_cacert: "length engineering_cacert = 1073"
  unfolding engineering_cacert_def by simp

lemma cacert_head:
  "take 4 production_cacert = [0x30, 0x82, 0x04, 0x2b]" "take 4 engineering_cacert = [0x30, 0x82, 0x04, 0x2d]"
  unfolding production_cacert_def engineering_cacert_def by (simp_all only: take_Cons_numeral take_0 pred_numeral_simps
    Num.BitM.simps take_Cons_numeral numeral_One One_nat_def take_Suc_Cons eval_nat_numeral)

lemma der_head:
  assumes "take 4 b = [0x30, 0x82, x, y]"
  shows "take 2 b = [0x30, 0x82]" "b ! 2 = x" "b ! 3 = y"
proof -
  have "take 2 b = take 2 (take 4 b)" by simp
  then show "take 2 b = [0x30, 0x82]" by (simp add: assms)
  have "b ! 2 = take 4 b ! 2" "b ! 3 = take 4 b ! 3" by simp_all
  then show "b ! 2 = x" "b ! 3 = y" by (simp_all add: assms)
qed

text \<open>The returned bytes are one DER sequence with nothing behind it: a tag, a two-byte length, and
  as many bytes.\<close>

lemma amzn_get_kernel_cert_der:
  "\<exists>b. amzn_get_kernel_cert ct = Some b \<and> length b = cacert_size ct \<and> take 2 b = [0x30, 0x82] \<and>
     length b = 4 + unat (b ! 2) * 256 + unat (b ! 3)"
  unfolding amzn_get_kernel_cert_def read_buf_def cacert_size_def
  using der_head [OF cacert_head(1)] der_head [OF cacert_head(2)]
  by (simp add: length_production_cacert length_engineering_cacert)

end
