(* ===== verification/Image_Verify.thy ===== *)
theory Image_Verify
  imports Margo_Board Kernel_Cert
begin

text \<open>
  Verified boot: the check of a kernel image against the certificate behind it
  (\<^verbatim>\<open>features/secure_boot/image_verify_ltc.c\<close>, \<^verbatim>\<open>image_verify.c\<close>).  The DER, RSA, hash and big number
  routines of LibTomCrypt are parameters; the walk over the decoded certificate, the checks and
  their order are modelled.
\<close>

section \<open>Decoded certificates\<close>

text \<open>The node types of the decoder that the code names.\<close>

datatype ltc_asn1_type = LTC_ASN1_SEQUENCE | LTC_ASN1_SET | LTC_ASN1_CONSTRUCTED | LTC_ASN1_INTEGER
  | LTC_ASN1_OBJECT_IDENTIFIER | LTC_ASN1_PRINTABLE_STRING | LTC_ASN1_UTF8_STRING | LTC_ASN1_UTCTIME
  | LTC_ASN1_NULL | LTC_ASN1_BIT_STRING | LTC_ASN1_OCTET_STRING | LTC_ASN1_CONTEXT_SPECIFIC | LTC_ASN1_OTHER nat

text \<open>The \<open>data\<close> of a node: a null pointer, a buffer, or the array of its children that
  \<open>der_rescan_tree\<close> builds.\<close>

datatype asn1_data = Null_data | Buf "byte list" | Elems "(ltc_asn1_type \<times> asn1_data \<times> nat \<times> nat) list"

text \<open>A node with its type, data, size, tag (\<open>used\<close>), whether its \<open>parent\<close> link is set, and its
  children.  A pointer to a node is the list of the node and its following siblings.\<close>

datatype asn1 = Asn1 (n_type: ltc_asn1_type) (n_data: asn1_data) (n_size: nat) (n_used: nat)
  (n_parent: bool) (n_child: "asn1 list")

text \<open>The library: decoding, encoding of a data array as a sequence (which fails also when its
  length cannot be computed or its buffer not be allocated), import of a key, the RSA check (return
  code and status), numbers in base 16 and as bytes; and the allocations of the code itself.\<close>

record 'key ltc =
  der_decode :: "byte list \<Rightarrow> asn1 list option"
  der_encode :: "asn1_data \<Rightarrow> nat \<Rightarrow> byte list option"
  rsa_import :: "byte list \<Rightarrow> 'key option"
  rsa_verify :: "byte list \<Rightarrow> byte list \<Rightarrow> 'key \<Rightarrow> int \<times> int"
  sha256_hash :: "byte list \<Rightarrow> byte list"
  mp_init_ok :: bool
  mp_read_radix :: "byte list \<Rightarrow> nat option"
  mp_unsigned_bin_size :: "nat \<Rightarrow> nat"
  mp_to_unsigned_bin :: "nat \<Rightarrow> byte list option"
  rescan_alloc :: "asn1 \<Rightarrow> bool"
  sig_alloc :: bool
  string_alloc :: bool
  digest_alloc :: bool

section \<open>Searching the tree\<close>

lemma size_child [simp]: "size_list size (n_child n) < size n"
  by (cases n) simp

text \<open>The nodes in the order \<open>find_node\<close> visits them: the children, the node, its siblings; each
  with its ancestors and the siblings behind it.\<close>

function visit :: "asn1 list \<Rightarrow> asn1 list \<Rightarrow> (asn1 list \<times> asn1 \<times> asn1 list) list" where
  "visit up [] = []"
| "visit up (n # ns) = visit (n # up) (n_child n) @ (up, n, ns) # visit up ns"
  by pat_completeness auto
termination
proof (relation "measure (\<lambda>(up, l). size_list size l)"; simp)
  fix n :: asn1 and ns
  have "size_list size (n_child n) < size n" by simp
  then show "size_list size (n_child n) < Suc (size n + size_list size ns)" by linarith
qed

definition find_node :: "(asn1 \<Rightarrow> bool option) \<Rightarrow> asn1 list \<Rightarrow> (asn1 list \<times> asn1 \<times> asn1 list) option option" where
  "find_node func l = do {
     bs \<leftarrow> those (map (\<lambda>(up, n, ns). func n) (visit [] l));
     Some (map_option fst (find snd (zip (visit [] l) bs))) }"

text \<open>\<open>memcmp (buf, ref, sizeof (ref)) == 0\<close>: it stops at the first difference, and running past
  the end of the buffer is undefined.\<close>

definition memcmp_eq :: "byte list \<Rightarrow> byte list \<Rightarrow> bool option" where
  "memcmp_eq buf ref =
     (if length ref \<le> length buf then Some (take (length ref) buf = ref)
      else if take (length buf) ref = buf then None else Some False)"

definition data_bytes :: "asn1_data \<Rightarrow> byte list option" where
  "data_bytes d = (case d of Buf b \<Rightarrow> Some b | _ \<Rightarrow> None)"

text \<open>The words of an object identifier as the decoder stores them (\<open>unsigned long\<close> of 32 bits).\<close>

definition oid_bytes :: "u32 list \<Rightarrow> byte list" where
  "oid_bytes ws = concat (map bytes32 ws)"

definition check_rsa_node :: "asn1 \<Rightarrow> bool option" where
  "check_rsa_node p =
     (if n_type p = LTC_ASN1_OBJECT_IDENTIFIER
      then Option.bind (data_bytes (n_data p)) (\<lambda>b. memcmp_eq b (oid_bytes [1, 2, 840, 113549, 1, 1, 1]))
      else Some False)"

definition check_san_node :: "asn1 \<Rightarrow> bool option" where
  "check_san_node p =
     (if n_type p = LTC_ASN1_OBJECT_IDENTIFIER
      then Option.bind (data_bytes (n_data p)) (\<lambda>b. memcmp_eq b (oid_bytes [2, 5, 29, 17]))
      else Some False)"

text \<open>Two levels up along the parent links.\<close>

definition grandparent :: "asn1 list \<Rightarrow> asn1 \<Rightarrow> asn1 option" where
  "grandparent up n =
     (case up of
        p # q # _ \<Rightarrow> if n_parent n \<and> n_parent p then Some q else None
      | _ \<Rightarrow> None)"

definition extract_cert_key_pub :: "'key ltc \<Rightarrow> asn1 list \<Rightarrow> 'key option option" where
  "extract_cert_key_pub c l = do {
     r \<leftarrow> find_node check_rsa_node l;
     Some (do {
       (up, n, _) \<leftarrow> r;
       g \<leftarrow> grandparent up n;
       k \<leftarrow> der_encode c (n_data g) (n_size g);
       rsa_import c k }) }"

section \<open>Signatures\<close>

text \<open>\<open>decode_signature\<close>: one byte per bit is packed, most significant bit first; \<open>y\<close> is the number
  of the next bit, \<open>buf\<close> the byte under construction.\<close>

fun pack_bits :: "byte list \<Rightarrow> nat \<Rightarrow> byte \<Rightarrow> byte list" where
  "pack_bits [] y buf = (if y mod 8 \<noteq> 0 then [buf] else [])"
| "pack_bits (d # ds) y buf =
     (let buf = buf OR push_bit (7 - y mod 8) (if d \<noteq> 0 then 1 else 0) in
      if y mod 8 = 7 then buf # pack_bits ds (y + 1) 0 else pack_bits ds (y + 1) buf)"

definition decode_signature :: "'key ltc \<Rightarrow> asn1 \<Rightarrow> byte list option option" where
  "decode_signature c l =
     (if n_type l \<noteq> LTC_ASN1_BIT_STRING \<or> n_data l = Null_data then Some None
      else if \<not> sig_alloc c then Some None
      else do {
        b \<leftarrow> data_bytes (n_data l);
        bits \<leftarrow> read_buf b (n_size l);
        Some (Some (pack_bits bits 0 0)) })"

text \<open>\<open>verify_certificate\<close> on the rescanned certificate: the first child is what is signed, the
  third the signature.\<close>

definition verify_certificate :: "'key ltc \<Rightarrow> asn1 \<Rightarrow> 'key \<Rightarrow> int option" where
  "verify_certificate c l key =
     (case n_child l of
        [] \<Rightarrow> Some (-1)
      | tbs # rest \<Rightarrow>
          (case der_encode c (n_data tbs) (n_size tbs) of
             None \<Rightarrow> Some (-1)
           | Some t \<Rightarrow>
               (case rest of
                  _ # s # _ \<Rightarrow>
                    if n_type s = LTC_ASN1_BIT_STRING
                    then do {
                      sg \<leftarrow> decode_signature c s;
                      Some (case sg of
                          None \<Rightarrow> -1
                        | Some sg \<Rightarrow> if rsa_verify c sg (sha256_hash c t) key = (0, 1) then 0 else -1) }
                    else Some (-1)
                | _ \<Rightarrow> Some (-1))))"

section \<open>The structure of the certificate\<close>

definition NUMBER_OF_SECTIONS_IN_CERTIFICATE :: nat where
  "NUMBER_OF_SECTIONS_IN_CERTIFICATE = 93"

text \<open>\<open>scan_signature\<close>: type and depth of every node.  The depth is incremented in place, so the
  siblings behind a node with children count as one level deeper.\<close>

function scan_nodes :: "asn1 list \<Rightarrow> nat \<Rightarrow> (ltc_asn1_type \<times> nat) list" where
  "scan_nodes [] depth = []"
| "scan_nodes (n # ns) depth = (n_type n, depth) #
     (if n_child n = [] then scan_nodes ns depth
      else scan_nodes (n_child n) (depth + 1) @ scan_nodes ns (depth + 1))"
  by pat_completeness auto
termination
proof (relation "measure (\<lambda>(l, depth). size_list size l)"; simp)
  fix n :: asn1 and ns
  have "size_list size (n_child n) < size n" by simp
  then show "size_list size (n_child n) < Suc (size n + size_list size ns)" by linarith
qed

text \<open>The two arrays have 93 cells, and nothing stops the scan at their end.\<close>

definition scan_signature :: "asn1 list \<Rightarrow> (ltc_asn1_type \<times> nat) list option" where
  "scan_signature l =
     (if length (scan_nodes l 0) \<le> NUMBER_OF_SECTIONS_IN_CERTIFICATE then Some (scan_nodes l 0) else None)"

definition signature_sequence :: "ltc_asn1_type list" where
  "signature_sequence = [LTC_ASN1_SEQUENCE, LTC_ASN1_SEQUENCE, LTC_ASN1_CONSTRUCTED, LTC_ASN1_INTEGER,
     LTC_ASN1_INTEGER, LTC_ASN1_SEQUENCE, LTC_ASN1_OBJECT_IDENTIFIER, LTC_ASN1_SEQUENCE,
     LTC_ASN1_CONSTRUCTED, LTC_ASN1_SEQUENCE, LTC_ASN1_OBJECT_IDENTIFIER, LTC_ASN1_CONSTRUCTED,
     LTC_ASN1_SEQUENCE, LTC_ASN1_OBJECT_IDENTIFIER, LTC_ASN1_SEQUENCE, LTC_ASN1_OBJECT_IDENTIFIER,
     LTC_ASN1_CONSTRUCTED, LTC_ASN1_INTEGER, LTC_ASN1_SEQUENCE, LTC_ASN1_SET,
     LTC_ASN1_SEQUENCE, LTC_ASN1_OBJECT_IDENTIFIER, LTC_ASN1_PRINTABLE_STRING, LTC_ASN1_SET,
     LTC_ASN1_SEQUENCE, LTC_ASN1_OBJECT_IDENTIFIER, LTC_ASN1_UTF8_STRING, LTC_ASN1_SET,
     LTC_ASN1_SEQUENCE, LTC_ASN1_OBJECT_IDENTIFIER, LTC_ASN1_UTF8_STRING, LTC_ASN1_SET,
     LTC_ASN1_SEQUENCE, LTC_ASN1_OBJECT_IDENTIFIER, LTC_ASN1_UTF8_STRING, LTC_ASN1_SET,
     LTC_ASN1_SEQUENCE, LTC_ASN1_OBJECT_IDENTIFIER, LTC_ASN1_UTF8_STRING, LTC_ASN1_SEQUENCE,
     LTC_ASN1_UTCTIME, LTC_ASN1_UTCTIME, LTC_ASN1_SEQUENCE, LTC_ASN1_SET,
     LTC_ASN1_SEQUENCE, LTC_ASN1_OBJECT_IDENTIFIER, LTC_ASN1_PRINTABLE_STRING, LTC_ASN1_SET,
     LTC_ASN1_SEQUENCE, LTC_ASN1_OBJECT_IDENTIFIER, LTC_ASN1_PRINTABLE_STRING, LTC_ASN1_SET,
     LTC_ASN1_SEQUENCE, LTC_ASN1_OBJECT_IDENTIFIER, LTC_ASN1_PRINTABLE_STRING, LTC_ASN1_SET,
     LTC_ASN1_SEQUENCE, LTC_ASN1_OBJECT_IDENTIFIER, LTC_ASN1_PRINTABLE_STRING, LTC_ASN1_SET,
     LTC_ASN1_SEQUENCE, LTC_ASN1_OBJECT_IDENTIFIER, LTC_ASN1_PRINTABLE_STRING, LTC_ASN1_SEQUENCE,
     LTC_ASN1_SEQUENCE, LTC_ASN1_OBJECT_IDENTIFIER, LTC_ASN1_NULL, LTC_ASN1_BIT_STRING,
     LTC_ASN1_CONSTRUCTED, LTC_ASN1_SEQUENCE, LTC_ASN1_SEQUENCE, LTC_ASN1_OBJECT_IDENTIFIER,
     LTC_ASN1_OCTET_STRING, LTC_ASN1_SEQUENCE, LTC_ASN1_OBJECT_IDENTIFIER, LTC_ASN1_OCTET_STRING,
     LTC_ASN1_SEQUENCE, LTC_ASN1_OBJECT_IDENTIFIER, LTC_ASN1_OCTET_STRING, LTC_ASN1_SEQUENCE,
     LTC_ASN1_OBJECT_IDENTIFIER, LTC_ASN1_SEQUENCE, LTC_ASN1_CONSTRUCTED, LTC_ASN1_SEQUENCE,
     LTC_ASN1_OBJECT_IDENTIFIER, LTC_ASN1_CONSTRUCTED, LTC_ASN1_SEQUENCE, LTC_ASN1_OBJECT_IDENTIFIER,
     LTC_ASN1_SEQUENCE, LTC_ASN1_OBJECT_IDENTIFIER, LTC_ASN1_CONSTRUCTED, LTC_ASN1_INTEGER,
     LTC_ASN1_BIT_STRING]"

definition signature_depth :: "nat list" where
  "signature_depth = [0, 1, 2, 3, 3, 3, 4, 4, 5, 6, 7, 6, 7, 8, 8, 9, 7, 8, 4, 5, 6, 7, 7, 6,
     7, 8, 8, 7, 8, 9, 9, 8, 9, 10, 10, 9, 10, 11, 11, 5, 6, 6, 6, 7, 8, 9, 9, 8,
     9, 10, 10, 9, 10, 11, 11, 10, 11, 12, 12, 11, 12, 13, 13, 7, 8, 9, 9, 9, 8, 9, 10, 11,
     11, 11, 12, 12, 12, 13, 13, 2, 3, 3, 4, 5, 6, 5, 6, 7, 7, 8, 6, 7, 3]"

definition section_ok :: "nat \<Rightarrow> ltc_asn1_type \<times> nat \<Rightarrow> bool" where
  "section_ok i s \<longleftrightarrow>
     fst s = signature_sequence ! i \<or> snd s = signature_depth ! i \<or>
     ((i = 46 \<or> i = 50 \<or> i = 54 \<or> i = 58 \<or> i = 62) \<and> fst s = LTC_ASN1_UTF8_STRING \<and> snd s = signature_depth ! i)"

definition verify_certificate_structure :: "asn1 list \<Rightarrow> int option" where
  "verify_certificate_structure l = do {
     d \<leftarrow> scan_signature l;
     Some (if list_all (\<lambda>i. section_ok i (d ! i)) [0..<length d] then 0 else -1) }"

text \<open>\<open>der_rescan_tree\<close>: constructed nodes get the array of their children as data.\<close>

definition elem :: "asn1 \<Rightarrow> ltc_asn1_type \<times> asn1_data \<times> nat \<times> nat" where
  "elem n = (n_type n, n_data n, n_size n, n_used n)"

fun rescan :: "'key ltc \<Rightarrow> asn1 \<Rightarrow> asn1" where
  "rescan c (Asn1 t d s u k cs) =
     (let cs' = map (rescan c) cs in
      if cs \<noteq> [] \<and> (t = LTC_ASN1_SEQUENCE \<or> t = LTC_ASN1_SET \<or> t = LTC_ASN1_CONSTRUCTED) \<and>
         rescan_alloc c (Asn1 t d s u k cs)
      then Asn1 t (Elems (map elem cs')) (length cs') u k cs'
      else Asn1 t d s u k cs')"

definition der_rescan_tree :: "'key ltc \<Rightarrow> asn1 list \<Rightarrow> asn1 list" where
  "der_rescan_tree c l = map (rescan c) l"

section \<open>Meta data and the image hash\<close>

text \<open>One entry of the subject: \<open>None\<close> when it is not an organisational unit with a string.  The
  object identifier is compared without a look at its type.\<close>

definition ou_string :: "asn1 \<Rightarrow> byte list option option" where
  "ou_string p =
     (case n_child p of
        [] \<Rightarrow> Some None
      | q # _ \<Rightarrow>
          (case n_child q of
             ou # str # _ \<Rightarrow> do {
               b \<leftarrow> data_bytes (n_data ou);
               e \<leftarrow> memcmp_eq b (oid_bytes [2, 5, 4, 11]);
               if \<not> e \<or> (n_type str \<noteq> LTC_ASN1_PRINTABLE_STRING \<and> n_type str \<noteq> LTC_ASN1_UTF8_STRING) \<or>
                  n_data str = Null_data
               then Some None
               else map_option Some (Option.bind (data_bytes (n_data str)) buf_str) }
           | _ \<Rightarrow> Some None))"

text \<open>The loop over the subject: \<open>None\<close> inside is the abort by the handler, otherwise the return code
  so far.  A null handler accepts everything.\<close>

fun meta_loop :: "(byte list \<Rightarrow> int) option \<Rightarrow> byte list \<Rightarrow> asn1 list \<Rightarrow> int \<Rightarrow> int option option" where
  "meta_loop handler name [] ret = Some (Some ret)"
| "meta_loop handler name (p # ps) ret = do {
     s \<leftarrow> ou_string p;
     case s of
       None \<Rightarrow> meta_loop handler name ps ret
     | Some str \<Rightarrow>
         if (case handler of None \<Rightarrow> False | Some h \<Rightarrow> h str \<noteq> 0) then Some None
         else if \<not> starts_with str (cstr ''product:'') then meta_loop handler name ps ret
         else meta_loop handler name ps
           (if strncmp_eq (drop 8 str) name (max (length (drop 8 str)) (length name)) then 0 else ret) }"

text \<open>\<open>find_hash_string\<close> on the data of the SubjectAltName: the buffer with the string and its
  terminator.\<close>

definition find_hash_string :: "'key ltc \<Rightarrow> byte list \<Rightarrow> nat \<Rightarrow> byte list option option" where
  "find_hash_string c data data_len = do {
     b \<leftarrow> read_buf data data_len;
     case der_decode c b of
       None \<Rightarrow> Some None
     | Some san \<Rightarrow>
         if san = [] then None
         else case find (\<lambda>p. n_type p = LTC_ASN1_CONTEXT_SPECIFIC \<and> n_used p = 0x86) (n_child (hd san)) of
           None \<Rightarrow> Some None
         | Some p \<Rightarrow>
             if \<not> string_alloc c then Some None
             else do {
               b \<leftarrow> data_bytes (n_data p);
               s \<leftarrow> read_buf b (n_size p);
               Some (Some (s @ [0])) } }"

text \<open>The number behind the nine characters of \<open>sha256://\<close>, as 32 bytes.\<close>

definition cert_hash :: "'key ltc \<Rightarrow> byte list \<Rightarrow> byte list option option" where
  "cert_hash c hash_string =
     (if length hash_string < 10 then None
      else do {
        s \<leftarrow> buf_str (drop 9 hash_string);
        Some (if \<not> mp_init_ok c then None
          else do {
            n \<leftarrow> mp_read_radix c s;
            if mp_unsigned_bin_size c n > 32 then None
            else do {
              b \<leftarrow> mp_to_unsigned_bin c n;
              Some (replicate (32 - mp_unsigned_bin_size c n) 0 @ b) } }) })"

text \<open>The last part of \<open>amzn_verify_image\<close>, from the subject on: \<open>l\<close> are the nodes of the signed
  part from there.\<close>

definition verify_hash :: "'key ltc \<Rightarrow> asn1 list \<Rightarrow> byte list \<Rightarrow> int option" where
  "verify_hash c l computed_hash = do {
     san \<leftarrow> find_node check_san_node l;
     case san of
       Some (_, _, nx # _) \<Rightarrow>
         if n_data nx = Null_data then Some (-1)
         else do {
           b \<leftarrow> data_bytes (n_data nx);
           hs \<leftarrow> find_hash_string c b (n_size nx);
           case hs of
             None \<Rightarrow> Some (-1)
           | Some hs \<Rightarrow> do {
               h \<leftarrow> cert_hash c hs;
               Some (if h = Some computed_hash then 0 else -1) } }
     | _ \<Rightarrow> Some (-1) }"

section \<open>Verification of an image\<close>

definition amzn_target_device_name :: "byte list" where
  "amzn_target_device_name = cstr ''margo''"

text \<open>\<open>amzn_verify_image\<close>: 0 when the image with the given hash is certified.  A decoded certificate
  is never a null pointer; when the root certificate cannot be decoded, the clean-up uses a pointer
  that was never set.\<close>

definition amzn_verify_image ::
  "'key ltc \<Rightarrow> cert_type \<Rightarrow> byte list \<Rightarrow> byte list \<Rightarrow> (byte list \<Rightarrow> int) option \<Rightarrow> int option" where
  "amzn_verify_image c ct computed_hash usercert handler = do {
     root_cert \<leftarrow> amzn_get_kernel_cert ct;
     root \<leftarrow> der_decode c root_cert;
     u \<leftarrow> read_buf usercert 2048;
     case der_decode c u of
       None \<Rightarrow> Some (-1)
     | Some user \<Rightarrow> do {
         v \<leftarrow> (if user = [] then None else verify_certificate_structure user);
         if v \<noteq> 0 then Some (-1)
         else do {
           let l = hd (der_rescan_tree c user);
           k \<leftarrow> extract_cert_key_pub c (der_rescan_tree c root);
           case k of
             None \<Rightarrow> Some (-1)
           | Some key \<Rightarrow> do {
               v \<leftarrow> verify_certificate c l key;
               if v \<noteq> 0 then Some (-1)
               else case n_child l of
                 [] \<Rightarrow> Some (-1)
               | tbs # _ \<Rightarrow>
                   (case drop 5 (n_child tbs) of
                      [] \<Rightarrow> Some (-1)
                    | subject # rest \<Rightarrow>
                        if n_type subject \<noteq> LTC_ASN1_SEQUENCE then Some (-1)
                        else do {
                          m \<leftarrow> meta_loop handler amzn_target_device_name (n_child subject) (-1);
                          if m \<noteq> Some 0 then Some (-1) else verify_hash c (subject # rest) computed_hash }) } } } }"

definition amzn_target_is_unlocked :: "board \<Rightarrow> idme_state \<Rightarrow> bool option" where
  "amzn_target_is_unlocked b st = do {
     (r, buf) \<leftarrow> idme_get_var_external (cstr ''unlock_code'') (Some (replicate SIGNED_UNLOCK_CODE_LEN 0))
       SIGNED_UNLOCK_CODE_LEN st;
     if r \<noteq> 0 then Some False
     else do {
       v \<leftarrow> amzn_verify_unlock b buf;
       Some (v = 0) } }"

definition AMZN_IMAGE_BAD :: u32 where "AMZN_IMAGE_BAD = 0"
definition AMZN_IMAGE_SIGNED :: u32 where "AMZN_IMAGE_SIGNED = 0x01"
definition AMZN_IMAGE_DEVSIGNED :: u32 where "AMZN_IMAGE_DEVSIGNED = 0x02"
definition AMZN_IMAGE_DEVSIGNED_UNLOCKED :: u32 where "AMZN_IMAGE_DEVSIGNED_UNLOCKED = 0x04"
definition AMZN_IMAGE_DEVSIGNED_ENG :: u32 where "AMZN_IMAGE_DEVSIGNED_ENG = 0x08"
definition AMZN_IMAGE_UNSIGNED_UNLOCKED :: u32 where "AMZN_IMAGE_UNSIGNED_UNLOCKED = 0x10"
definition AMZN_IMAGE_UNSIGNED_ENG :: u32 where "AMZN_IMAGE_UNSIGNED_ENG = 0x20"

lemmas image_flags = AMZN_IMAGE_BAD_def AMZN_IMAGE_SIGNED_def AMZN_IMAGE_DEVSIGNED_def
  AMZN_IMAGE_DEVSIGNED_UNLOCKED_def AMZN_IMAGE_DEVSIGNED_ENG_def AMZN_IMAGE_UNSIGNED_UNLOCKED_def
  AMZN_IMAGE_UNSIGNED_ENG_def

definition amzn_image_verify_safe ::
  "'key ltc \<Rightarrow> board \<Rightarrow> idme_state \<Rightarrow> byte list \<Rightarrow> byte list \<Rightarrow> nat \<Rightarrow> (byte list \<Rightarrow> int) option \<Rightarrow> u32 option" where
  "amzn_image_verify_safe c b st img signature image_size handler =
     (if \<not> digest_alloc c then Some AMZN_IMAGE_BAD
      else do {
        i \<leftarrow> read_buf img image_size;
        let digest = sha256_hash c i;
        p \<leftarrow> amzn_verify_image c AMZN_PRODUCTION_CERT digest signature handler;
        if p \<noteq> 0 then do {
          e \<leftarrow> amzn_verify_image c AMZN_ENGINEERING_CERT digest signature handler;
          u \<leftarrow> amzn_target_is_unlocked b st;
          let eng = amzn_target_device_type b = AMZN_ENGINEERING_DEVICE;
          Some (if e \<noteq> 0
            then AMZN_IMAGE_BAD OR (if eng then AMZN_IMAGE_UNSIGNED_ENG else 0) OR
                 (if u then AMZN_IMAGE_UNSIGNED_UNLOCKED else 0)
            else AMZN_IMAGE_BAD OR AMZN_IMAGE_DEVSIGNED OR (if eng then AMZN_IMAGE_DEVSIGNED_ENG else 0) OR
                 (if u then AMZN_IMAGE_DEVSIGNED_UNLOCKED else 0)) }
        else Some AMZN_IMAGE_SIGNED })"

definition amzn_image_verify ::
  "'key ltc \<Rightarrow> board \<Rightarrow> idme_state \<Rightarrow> byte list \<Rightarrow> byte list \<Rightarrow> nat \<Rightarrow> (byte list \<Rightarrow> int) option \<Rightarrow> int option" where
  "amzn_image_verify c b st img signature image_size handler =
     map_option (\<lambda>resp. if resp AND (AMZN_IMAGE_SIGNED OR AMZN_IMAGE_DEVSIGNED_ENG) \<noteq> 0 then 1 else 0)
       (amzn_image_verify_safe c b st img signature image_size handler)"

text \<open>The gate of \<open>bootm\<close> in front of a kernel image with its signature behind it.\<close>

definition boot_get_kernel_gate :: "'key ltc \<Rightarrow> board \<Rightarrow> idme_state \<Rightarrow> byte list \<Rightarrow> nat \<Rightarrow> bool option" where
  "boot_get_kernel_gate c b st img image_size = do {
     u \<leftarrow> amzn_device_is_unlocked b st;
     if \<not> u then map_option (\<lambda>v. v \<noteq> 0) (amzn_image_verify c b st img (drop image_size img) image_size None)
     else Some True }"

section \<open>Lemmas\<close>

lemma verify_certificate_accepts:
  assumes "verify_certificate c l key = Some 0"
  shows "\<exists>tbs x s rest t sg. n_child l = tbs # x # s # rest \<and> der_encode c (n_data tbs) (n_size tbs) = Some t \<and>
    decode_signature c s = Some (Some sg) \<and> rsa_verify c sg (sha256_hash c t) key = (0, 1)"
  using assms unfolding verify_certificate_def
  by (auto split: list.splits option.splits if_splits bind_splits)

text \<open>What the subject must contain: each string accepted by the handler, one of them naming the
  product.\<close>

lemma buf_str_is_cstr: "buf_str b = Some s \<Longrightarrow> is_cstr s"
  by (auto simp: buf_str_def is_cstr_def dest: set_takeWhileD split: if_splits)

lemma ou_string_is_cstr: "ou_string p = Some (Some s) \<Longrightarrow> is_cstr s"
  unfolding ou_string_def
  by (auto split: list.splits bind_splits if_splits intro: buf_str_is_cstr)

lemma strncmp_eq_max:
  assumes "is_cstr a" "is_cstr b" "strncmp_eq a b (max (length a) (length b))"
  shows "a = b"
proof -
  have l: "length a = length b"
  proof (rule ccontr)
    assume "length a \<noteq> length b"
    then consider "length a < length b" | "length b < length a" by linarith
    then show False
    proof cases
      case 1
      then have "take (length b) (a @ [0]) ! length a = 0" "take (length b) (b @ [0]) ! length a = b ! length a"
        by (simp_all add: nth_append)
      then show False using 1 assms unfolding strncmp_eq_def is_cstr_def by (metis max.absorb2 nth_mem order_less_imp_le)
    next
      case 2
      then have "take (length a) (b @ [0]) ! length b = 0" "take (length a) (a @ [0]) ! length b = a ! length b"
        by (simp_all add: nth_append)
      then show False using 2 assms unfolding strncmp_eq_def is_cstr_def by (metis max.absorb1 nth_mem order_less_imp_le)
    qed
  qed
  then show ?thesis using assms(3) unfolding strncmp_eq_def by simp
qed

lemma starts_with_split:
  assumes "starts_with s lit" "is_cstr lit"
  shows "s = lit @ drop (length lit) s"
proof -
  have t: "take (length lit) (s @ [0]) = lit" using assms(1) unfolding starts_with_def strncmp_eq_def by simp
  have "length lit \<le> length s"
  proof (rule ccontr)
    assume a: "\<not> length lit \<le> length s"
    then have "lit = s @ [0]" using t by simp
    then have "0 \<in> set lit" by simp
    then show False using assms(2) by (simp add: is_cstr_def)
  qed
  then show ?thesis using t by (metis append_take_drop_id append_eq_append_conv_if)
qed

definition accepted_by :: "(byte list \<Rightarrow> int) option \<Rightarrow> byte list \<Rightarrow> bool" where
  "accepted_by handler s \<longleftrightarrow> (case handler of None \<Rightarrow> True | Some h \<Rightarrow> h s = 0)"

lemma meta_loop_accepts:
  assumes "meta_loop handler name ps ret = Some (Some 0)" "is_cstr name"
  shows "(\<forall>p \<in> set ps. \<forall>s. ou_string p = Some (Some s) \<longrightarrow> accepted_by handler s) \<and>
    (ret = 0 \<or> (\<exists>p \<in> set ps. ou_string p = Some (Some (cstr ''product:'' @ name))))"
  using assms(1)
proof (induction ps arbitrary: ret)
  case (Cons p ps)
  obtain s where s: "ou_string p = Some s" using Cons.prems by (cases "ou_string p") auto
  show ?case
  proof (cases s)
    case None
    then show ?thesis using Cons s by auto
  next
    case (Some str)
    let ?r = "if strncmp_eq (drop 8 str) name (max (length (drop 8 str)) (length name)) then 0 else ret"
    have acc: "accepted_by handler str"
      using Cons.prems s Some by (auto simp: accepted_by_def split: option.splits if_splits)
    have cs: "is_cstr str" using ou_string_is_cstr s Some by simp
    have step: "meta_loop handler name ps (if starts_with str (cstr ''product:'') then ?r else ret) = Some (Some 0)"
      using Cons.prems s Some acc by (auto simp: accepted_by_def split: option.splits if_splits)
    have "str = cstr ''product:'' @ name" if "starts_with str (cstr ''product:'')" "?r = 0" "ret \<noteq> 0"
    proof -
      have "is_cstr (drop 8 str)" using cs by (meson in_set_dropD is_cstr_def)
      then have "drop 8 str = name" using strncmp_eq_max assms(2) that by (metis (full_types))
      moreover have "is_cstr (cstr ''product:'')" "length (cstr ''product:'') = 8" by (simp_all add: cstr_def is_cstr_def)
      ultimately show ?thesis using starts_with_split [OF that(1)] by metis
    qed
    then show ?thesis using Cons.IH [OF step] acc s Some by (auto split: if_splits)
  qed
qed simp

lemma is_cstr_device_name: "is_cstr amzn_target_device_name"
  by (simp add: amzn_target_device_name_def cstr_def is_cstr_def)

text \<open>The hash in the certificate does not depend on the image.\<close>

lemma verify_hash_unique:
  assumes "verify_hash c l h1 = Some 0" "verify_hash c l h2 = Some 0"
  shows "h1 = h2"
  using assms unfolding verify_hash_def
  by (auto split: option.splits list.splits if_splits bind_splits prod.splits)

lemma amzn_verify_image_accepts:
  assumes "amzn_verify_image c ct h usercert handler = Some 0"
  shows "\<exists>root_cert root user key tbs others subject rest. amzn_get_kernel_cert ct = Some root_cert \<and>
    der_decode c root_cert = Some root \<and> extract_cert_key_pub c (der_rescan_tree c root) = Some (Some key) \<and>
    der_decode c (take 2048 usercert) = Some user \<and> verify_certificate c (hd (der_rescan_tree c user)) key = Some 0 \<and>
    n_child (hd (der_rescan_tree c user)) = tbs # others \<and> drop 5 (n_child tbs) = subject # rest \<and>
    meta_loop handler amzn_target_device_name (n_child subject) (-1) = Some (Some 0) \<and>
    verify_hash c (subject # rest) h = Some 0"
  using assms unfolding amzn_verify_image_def read_buf_def Let_def
  by (auto split: bind_splits option.splits list.splits if_splits)

lemma amzn_image_verify_cases:
  assumes "amzn_image_verify c b st img sg n handler = Some 1"
  shows "\<exists>i ct. read_buf img n = Some i \<and> amzn_verify_image c ct (sha256_hash c i) sg handler = Some 0 \<and>
    (ct = AMZN_PRODUCTION_CERT \<or> amzn_target_device_type b = AMZN_ENGINEERING_DEVICE)"
  using assms unfolding amzn_image_verify_def amzn_image_verify_safe_def image_flags Let_def
  by (auto split: bind_splits if_splits)

text \<open>C33: the digest.  A certificate authenticates at most one image hash: two images that are
  accepted with the same signature bytes, in whichever state and on whichever device, have the same
  SHA-256 hash.\<close>

theorem one_digest_per_signature:
  assumes "amzn_image_verify c b1 st1 img1 sg n1 h1 = Some 1" "amzn_image_verify c b2 st2 img2 sg n2 h2 = Some 1"
  shows "sha256_hash c (take n1 img1) = sha256_hash c (take n2 img2)"
proof -
  obtain i1 ct1 where 1: "read_buf img1 n1 = Some i1" "amzn_verify_image c ct1 (sha256_hash c i1) sg h1 = Some 0"
    using amzn_image_verify_cases [OF assms(1)] by blast
  obtain i2 ct2 where 2: "read_buf img2 n2 = Some i2" "amzn_verify_image c ct2 (sha256_hash c i2) sg h2 = Some 0"
    using amzn_image_verify_cases [OF assms(2)] by blast
  have "sha256_hash c i1 = sha256_hash c i2"
    using amzn_verify_image_accepts [OF 1(2)] amzn_verify_image_accepts [OF 2(2)]
    by (auto intro: verify_hash_unique)
  then show ?thesis using 1(1) 2(1) by (auto simp: read_buf_def split: if_splits)
qed

text \<open>A certificate signed under the root of type \<open>ct\<close>: the key of the root certificate accepts the
  signature in its third part for the hash of its encoded first part.\<close>

definition signed_under :: "'key ltc \<Rightarrow> cert_type \<Rightarrow> asn1 \<Rightarrow> bool" where
  "signed_under c ct l \<longleftrightarrow> (\<exists>root_cert root key tbs x s rest t sg.
     amzn_get_kernel_cert ct = Some root_cert \<and> der_decode c root_cert = Some root \<and>
     extract_cert_key_pub c (der_rescan_tree c root) = Some (Some key) \<and>
     n_child l = tbs # x # s # rest \<and> der_encode c (n_data tbs) (n_size tbs) = Some t \<and>
     decode_signature c s = Some (Some sg) \<and> rsa_verify c sg (sha256_hash c t) key = (0, 1))"

text \<open>C34: verified boot.  A locked device boots a kernel only when the certificate behind it was
  signed under the production root, or the engineering root on an engineering device; when one of
  its subject strings names the product; and when its SubjectAltName carries the hash of the image.\<close>

theorem locked_device_boots_signed:
  assumes "boot_get_kernel_gate c b st img n = Some True" "amzn_device_is_unlocked b st = Some False"
  shows "\<exists>ct user tbs others subject rest.
    (ct = AMZN_PRODUCTION_CERT \<or> amzn_target_device_type b = AMZN_ENGINEERING_DEVICE) \<and>
    der_decode c (take 2048 (drop n img)) = Some user \<and> signed_under c ct (hd (der_rescan_tree c user)) \<and>
    n_child (hd (der_rescan_tree c user)) = tbs # others \<and> drop 5 (n_child tbs) = subject # rest \<and>
    (\<exists>p \<in> set (n_child subject). ou_string p = Some (Some (cstr ''product:margo''))) \<and>
    verify_hash c (subject # rest) (sha256_hash c (take n img)) = Some 0"
proof -
  have "amzn_image_verify c b st img (drop n img) n None = Some 1"
    using assms unfolding boot_get_kernel_gate_def amzn_image_verify_def by (auto split: if_splits)
  then obtain i ct where i: "read_buf img n = Some i" "amzn_verify_image c ct (sha256_hash c i) (drop n img) None = Some 0"
      "ct = AMZN_PRODUCTION_CERT \<or> amzn_target_device_type b = AMZN_ENGINEERING_DEVICE"
    using amzn_image_verify_cases by blast
  obtain root_cert root user key tbs others subject rest where v: "amzn_get_kernel_cert ct = Some root_cert"
      "der_decode c root_cert = Some root" "extract_cert_key_pub c (der_rescan_tree c root) = Some (Some key)"
      "der_decode c (take 2048 (drop n img)) = Some user" "verify_certificate c (hd (der_rescan_tree c user)) key = Some 0"
      "n_child (hd (der_rescan_tree c user)) = tbs # others" "drop 5 (n_child tbs) = subject # rest"
      "meta_loop None amzn_target_device_name (n_child subject) (-1) = Some (Some 0)"
      "verify_hash c (subject # rest) (sha256_hash c i) = Some 0"
    using amzn_verify_image_accepts [OF i(2)] by blast
  have "signed_under c ct (hd (der_rescan_tree c user))"
    unfolding signed_under_def using v(1-3) verify_certificate_accepts [OF v(5)] by blast
  moreover have "\<exists>p \<in> set (n_child subject). ou_string p = Some (Some (cstr ''product:margo''))"
    using meta_loop_accepts [OF v(8) is_cstr_device_name] by (simp add: amzn_target_device_name_def cstr_def)
  moreover have "i = take n img" using i(1) by (auto simp: read_buf_def split: if_splits)
  ultimately show ?thesis using i(3) v(4,6,7,9) by blast
qed

text \<open>C35: the verdicts.  For an image whose two certificate checks return, the answer has exactly
  the flags of its situation; \<open>amzn_image_verify\<close> accepts it when it is signed for production, or for
  engineering on an engineering device.  Unlocking the device adds a flag and never acceptance.\<close>

theorem image_verify_verdicts:
  assumes "digest_alloc c" "n \<le> length img" "amzn_target_is_unlocked b st = Some u"
    and "amzn_verify_image c AMZN_PRODUCTION_CERT (sha256_hash c (take n img)) sg handler = Some p"
    and "amzn_verify_image c AMZN_ENGINEERING_CERT (sha256_hash c (take n img)) sg handler = Some e"
  defines "eng \<equiv> amzn_target_device_type b = AMZN_ENGINEERING_DEVICE"
  shows "\<exists>r. amzn_image_verify_safe c b st img sg n handler = Some r \<and>
    (r AND AMZN_IMAGE_SIGNED \<noteq> 0 \<longleftrightarrow> p = 0) \<and>
    (r AND AMZN_IMAGE_DEVSIGNED \<noteq> 0 \<longleftrightarrow> p \<noteq> 0 \<and> e = 0) \<and>
    (r AND AMZN_IMAGE_DEVSIGNED_ENG \<noteq> 0 \<longleftrightarrow> p \<noteq> 0 \<and> e = 0 \<and> eng) \<and>
    (r AND AMZN_IMAGE_DEVSIGNED_UNLOCKED \<noteq> 0 \<longleftrightarrow> p \<noteq> 0 \<and> e = 0 \<and> u) \<and>
    (r AND AMZN_IMAGE_UNSIGNED_ENG \<noteq> 0 \<longleftrightarrow> p \<noteq> 0 \<and> e \<noteq> 0 \<and> eng) \<and>
    (r AND AMZN_IMAGE_UNSIGNED_UNLOCKED \<noteq> 0 \<longleftrightarrow> p \<noteq> 0 \<and> e \<noteq> 0 \<and> u) \<and>
    amzn_image_verify c b st img sg n handler = Some (if p = 0 \<or> (e = 0 \<and> eng) then 1 else 0)"
  unfolding amzn_image_verify_def amzn_image_verify_safe_def image_flags Let_def eng_def [symmetric] read_buf_def
  using assms(1-5) by (cases u; cases eng; cases "p = 0"; cases "e = 0") simp_all

lemma length_scan_nodes: "length (scan_nodes l d) = length (visit up l)"
proof (induction l d arbitrary: up rule: scan_nodes.induct)
  case (2 n ns d)
  show ?case
  proof (cases "n_child n = []")
    case True
    then show ?thesis using 2(1) [of up] by simp
  next
    case False
    then show ?thesis using 2(2) [of "n # up"] 2(3) [of up] by simp
  qed
qed simp

text \<open>C36: certificates with too many parts.  The structure check writes outside its arrays exactly
  when the decoded certificate has more than 93 nodes.  It runs before any signature is checked, so
  such a certificate behind any image makes the check of the image undefined.\<close>

theorem certificate_nodes_overflow:
  assumes "der_decode c (take 2048 usercert) = Some user"
  shows "(verify_certificate_structure user = None \<longleftrightarrow> 93 < length (visit [] user)) \<and>
    (93 < length (visit [] user) \<longrightarrow> amzn_verify_image c ct h usercert handler = None)"
proof -
  have "verify_certificate_structure user = None \<longleftrightarrow> 93 < length (visit [] user)"
    unfolding verify_certificate_structure_def scan_signature_def NUMBER_OF_SECTIONS_IN_CERTIFICATE_def
    by (auto simp: length_scan_nodes [of user 0 "[]"])
  then show ?thesis using assms unfolding amzn_verify_image_def read_buf_def
    by (auto split: bind_splits)
qed

text \<open>Where the depths agree, the check never looks at the types.\<close>

lemma structure_depth_suffices:
  assumes "map snd (scan_nodes l 0) = take k signature_depth" "k \<le> 93"
  shows "verify_certificate_structure l = Some 0"
proof -
  have l: "length signature_depth = 93" by (simp add: signature_depth_def)
  have n: "length (scan_nodes l 0) = k" using arg_cong [OF assms(1), of length] assms(2) l by simp
  have "section_ok i (scan_nodes l 0 ! i)" if "i < k" for i
    using arg_cong [OF assms(1), of "\<lambda>xs. xs ! i"] that n unfolding section_ok_def by simp
  then show ?thesis unfolding verify_certificate_structure_def scan_signature_def NUMBER_OF_SECTIONS_IN_CERTIFICATE_def
    using n assms(2) by (simp add: list_all_iff)
qed

subsection \<open>The bits of a signature\<close>

text \<open>A byte as the decoder stores the bits of a bit string: one byte each, the most significant
  first.\<close>

definition bit_bytes :: "byte \<Rightarrow> byte list" where
  "bit_bytes w = map (\<lambda>i. if bit w (7 - i) then 1 else 0) [0..<8]"

lemma bit_bytes_list: "bit_bytes w = [of_bool (bit w 7), of_bool (bit w 6), of_bool (bit w 5), of_bool (bit w 4),
    of_bool (bit w 3), of_bool (bit w 2), of_bool (bit w 1), of_bool (bit w 0)]"
  by (simp add: bit_bytes_def upt_rec)

lemma byte_of_bits:
  "push_bit 7 (of_bool (bit w 7)) OR push_bit 6 (of_bool (bit w 6)) OR push_bit 5 (of_bool (bit w 5)) OR
   push_bit 4 (of_bool (bit w 4)) OR push_bit 3 (of_bool (bit w 3)) OR push_bit 2 (of_bool (bit w 2)) OR
   push_bit 1 (of_bool (bit w 1)) OR of_bool (bit w 0) = (w :: byte)"
proof (rule bit_word_eqI)
  fix k assume "k < LENGTH(8)"
  then have "k = 0 \<or> k = 1 \<or> k = 2 \<or> k = 3 \<or> k = 4 \<or> k = 5 \<or> k = 6 \<or> k = 7" by (simp, linarith)
  then show "bit (push_bit 7 (of_bool (bit w 7)) OR push_bit 6 (of_bool (bit w 6)) OR push_bit 5 (of_bool (bit w 5)) OR
   push_bit 4 (of_bool (bit w 4)) OR push_bit 3 (of_bool (bit w 3)) OR push_bit 2 (of_bool (bit w 2)) OR
   push_bit 1 (of_bool (bit w 1)) OR of_bool (bit w 0) :: byte) k = bit w k"
    by (elim disjE; simp only:; simp add: bit_simps)
qed

lemma pack_bits_byte: "pack_bits (bit_bytes w @ ds) (8 * k) 0 = w # pack_bits ds (8 * k + 8) 0"
proof -
  have m: "(8 * k + i) mod 8 = i" if "i < 8" for i using that by simp
  have suc8: "Suc (Suc (Suc (Suc (Suc (Suc (Suc (Suc x))))))) = x + 8" for x by simp
  show ?thesis
    using byte_of_bits [of w] m [of 1] m [of 2] m [of 3] m [of 4] m [of 5] m [of 6] m [of 7]
    by (simp add: bit_bytes_list Let_def or.assoc add.assoc of_bool_def [symmetric] suc8)
qed

lemma pack_bits_bytes: "pack_bits (concat (map bit_bytes bs)) (8 * k) 0 = bs"
proof (induction bs arbitrary: k)
  case (Cons w bs)
  show ?case using Cons.IH [of "k + 1"] by (simp add: pack_bits_byte add.commute)
qed simp

lemma length_pack_bits: "length (pack_bits ds y buf) = (y mod 8 + length ds + 7) div 8"
proof (induction ds y buf rule: pack_bits.induct)
  case (1 y buf)
  show ?case by (simp, presburger)
next
  case (2 d ds y buf)
  show ?case
  proof (cases "y mod 8 = 7")
    case True
    then have "(y + 1) mod 8 = 0" by presburger
    then show ?thesis using 2(1) [OF refl True] True by (simp add: Let_def)
  next
    case False
    then have "(y + 1) mod 8 = y mod 8 + 1" by presburger
    then show ?thesis using 2(2) [OF refl False] False by (simp add: Let_def)
  qed
qed

text \<open>C37: signatures.  \<open>decode_signature\<close> gives back the bytes whose bits the node holds, and for any
  number of bits it fills at most the bytes it has allocated.\<close>

theorem decode_signature_packs:
  assumes "sig_alloc c" "length b \<ge> sz"
  shows "(\<exists>sg. decode_signature c (Asn1 LTC_ASN1_BIT_STRING (Buf b) sz u k cs) = Some (Some sg) \<and>
      length sg \<le> sz div 8 + (if sz mod 8 \<noteq> 0 then 1 else 0) + 1) \<and>
    (take sz b = concat (map bit_bytes bs) \<longrightarrow>
      decode_signature c (Asn1 LTC_ASN1_BIT_STRING (Buf b) sz u k cs) = Some (Some bs))"
proof -
  have d: "decode_signature c (Asn1 LTC_ASN1_BIT_STRING (Buf b) sz u k cs) = Some (Some (pack_bits (take sz b) 0 0))"
    using assms by (simp add: decode_signature_def data_bytes_def read_buf_def)
  have "length (pack_bits (take sz b) 0 0) = (sz + 7) div 8" using assms(2) by (simp add: length_pack_bits)
  moreover have "(sz + 7) div 8 \<le> sz div 8 + (if sz mod 8 \<noteq> 0 then 1 else 0) + 1" by presburger
  ultimately show ?thesis using d pack_bits_bytes [of bs 0] by simp
qed

section \<open>A concrete certificate\<close>

text \<open>A certificate of 68 nodes that passes the structure check, and a library that decodes it.  The
  subject names the product; the SubjectAltName holds the hash, here a checksum.\<close>

definition filler :: "nat \<Rightarrow> asn1" where
  "filler i = Asn1 (signature_sequence ! i) (Buf [9]) 1 0 False []"

definition demo_subject :: asn1 where
  "demo_subject = Asn1 LTC_ASN1_SEQUENCE Null_data 0 0 False (map filler [8..<19] @
     [Asn1 LTC_ASN1_SET Null_data 0 0 False
       [Asn1 LTC_ASN1_SEQUENCE Null_data 0 0 True
         [Asn1 LTC_ASN1_OBJECT_IDENTIFIER (Buf (oid_bytes [2, 5, 4, 11])) 4 0 True [],
          Asn1 LTC_ASN1_PRINTABLE_STRING (Buf (cstr ''product:margo'' @ [0])) 13 0 False []]]])"

definition demo_cert :: asn1 where
  "demo_cert = Asn1 LTC_ASN1_SEQUENCE Null_data 0 0 False
     [Asn1 LTC_ASN1_SEQUENCE Null_data 0 0 True (map filler [2..<7] @ [demo_subject] @ map filler [23..<25] @
        [Asn1 LTC_ASN1_OBJECT_IDENTIFIER (Buf (oid_bytes [2, 5, 29, 17])) 4 0 False [],
         Asn1 LTC_ASN1_UTF8_STRING (Buf [1]) 1 0 False []] @ map filler [27..<66]),
      filler 66, Asn1 LTC_ASN1_BIT_STRING (Buf [1, 0, 0, 0, 0, 0, 0, 1]) 8 0 False []]"

definition demo_root :: asn1 where
  "demo_root = Asn1 LTC_ASN1_SEQUENCE Null_data 0 0 False [Asn1 LTC_ASN1_SEQUENCE Null_data 0 0 True
     [Asn1 LTC_ASN1_OBJECT_IDENTIFIER (Buf (oid_bytes [1, 2, 840, 113549, 1, 1, 1])) 7 0 True []]]"

definition demo_san :: asn1 where
  "demo_san = Asn1 LTC_ASN1_SEQUENCE Null_data 0 0 False
     [Asn1 LTC_ASN1_CONTEXT_SPECIFIC (Buf (cstr ''sha256://3'')) 10 0x86 True []]"

definition demo_ltc :: "unit ltc" where
  "demo_ltc = \<lparr>der_decode = (\<lambda>b. Some [if b = [1] then demo_san else if length b = 2048 then demo_cert else demo_root]),
     der_encode = (\<lambda>d n. Some []), rsa_import = (\<lambda>k. Some ()),
     rsa_verify = (\<lambda>sg h k. (0, if sg = [0x81] then 1 else 0)),
     sha256_hash = (\<lambda>xs. replicate 31 0 @ [fold (+) xs 0]), mp_init_ok = True,
     mp_read_radix = (\<lambda>s. if s = cstr ''3'' then Some 3 else None), mp_unsigned_bin_size = (\<lambda>n. 1),
     mp_to_unsigned_bin = (\<lambda>n. Some [of_nat n]), rescan_alloc = (\<lambda>n. True), sig_alloc = True,
     string_alloc = True, digest_alloc = True\<rparr>"

lemma demo_structure: "verify_certificate_structure [demo_cert] = Some 0"
  by code_simp

lemma demo_key: "extract_cert_key_pub demo_ltc [rescan demo_ltc demo_root] = Some (Some ())"
  by code_simp

lemma demo_signature: "verify_certificate demo_ltc (rescan demo_ltc demo_cert) () = Some 0"
  by code_simp

definition demo_nodes :: "asn1 list" where
  "demo_nodes = map (rescan demo_ltc) (drop 5 (n_child (hd (n_child demo_cert))))"

lemma demo_subject_ok:
  "meta_loop None amzn_target_device_name (n_child (hd demo_nodes)) (-1) = Some (Some 0)"
  by code_simp

lemma demo_hash: "verify_hash demo_ltc demo_nodes (replicate 31 0 @ [3]) = Some 0"
  by code_simp

lemma demo_child: "n_child (rescan demo_ltc demo_cert) = map (rescan demo_ltc) (n_child demo_cert)"
  by (simp add: demo_cert_def Let_def)

lemma demo_tbs: "\<exists>tbs others. n_child demo_cert = tbs # others \<and> n_child (rescan demo_ltc tbs) = map (rescan demo_ltc) (n_child tbs)"
  by (simp add: demo_cert_def Let_def)

lemma demo_nodes_list: "\<exists>subject rest. demo_nodes = subject # rest \<and> n_type subject = LTC_ASN1_SEQUENCE"
proof -
  have "demo_nodes \<noteq> []" "n_type (hd demo_nodes) = LTC_ASN1_SEQUENCE" by code_simp+
  then show ?thesis by (metis list.collapse)
qed

lemma demo_root_cert: "\<exists>rc. amzn_get_kernel_cert ct = Some rc \<and> der_decode demo_ltc rc = Some [demo_root]"
proof -
  obtain rc where rc: "amzn_get_kernel_cert ct = Some rc" "length rc = cacert_size ct"
    using amzn_get_kernel_cert_der [of ct] by blast
  then have "length rc \<noteq> 2048" "length rc \<noteq> 1" by (simp_all add: cacert_size_def)
  then have "rc \<noteq> [1]" by auto
  then show ?thesis using rc(1) \<open>length rc \<noteq> 2048\<close> by (simp add: demo_ltc_def)
qed

lemma demo_verify_image: "amzn_verify_image demo_ltc ct (replicate 31 0 @ [3]) (replicate 2048 0) None = Some 0"
proof -
  obtain rc where rc: "amzn_get_kernel_cert ct = Some rc" "der_decode demo_ltc rc = Some [demo_root]"
    using demo_root_cert by blast
  have len: "length (replicate 2048 0 :: byte list) \<noteq> length [1 :: byte]" by simp
  then have ne: "(replicate 2048 0 :: byte list) \<noteq> [1]" by metis
  then have u: "der_decode demo_ltc (replicate 2048 0) = Some [demo_cert]" by (simp add: demo_ltc_def)
  have r: "read_buf (replicate 2048 0) 2048 = Some (replicate 2048 (0 :: byte))" by (simp add: read_buf_def)
  obtain tbs others where t: "n_child demo_cert = tbs # others"
      "n_child (rescan demo_ltc tbs) = map (rescan demo_ltc) (n_child tbs)" using demo_tbs by blast
  obtain subject rest where s: "demo_nodes = subject # rest" "n_type subject = LTC_ASN1_SEQUENCE"
    using demo_nodes_list by blast
  have d: "drop 5 (n_child (rescan demo_ltc tbs)) = subject # rest"
    using s(1) t by (simp add: demo_nodes_def drop_map)
  have ok: "meta_loop None amzn_target_device_name (n_child subject) (-1) = Some (Some 0)"
      "verify_hash demo_ltc (subject # rest) (replicate 31 0 @ [3]) = Some 0"
    using demo_subject_ok [unfolded s(1)] demo_hash [unfolded s(1)] by simp_all
  show ?thesis
    unfolding amzn_verify_image_def rc r u bind.bind_lunit option.case der_rescan_tree_def list.map Let_def list.sel
    using demo_structure demo_key demo_signature demo_child t(1) d s(2) ok
    by simp
qed

definition demo_off :: idme_state where
  "demo_off = (running (\<lambda>_. 0))\<lparr>idme_funcs := False\<rparr>"

lemma demo_off_locked: "amzn_device_is_unlocked b demo_off = Some False" "amzn_target_is_unlocked b demo_off = Some False"
  by (simp_all add: amzn_device_is_unlocked_def amzn_target_is_unlocked_def idme_get_var_external_def demo_off_def)

lemma demo_accepts:
  assumes "fold (+) (take n img) 0 = 3" "n \<le> length img"
  shows "amzn_image_verify demo_ltc b demo_off img (replicate 2048 0) n None = Some 1"
proof -
  have "sha256_hash demo_ltc (take n img) = replicate 31 0 @ [3]" "digest_alloc demo_ltc"
    using assms(1) by (simp_all add: demo_ltc_def)
  then show ?thesis
    using assms(2) demo_verify_image by (simp add: amzn_image_verify_def amzn_image_verify_safe_def read_buf_def image_flags)
qed

theorem one_digest_per_signature_witness:
  "sha256_hash demo_ltc (take 2 [1, 2]) = sha256_hash demo_ltc (take 3 [0, 2, 1])"
  by (rule one_digest_per_signature [OF demo_accepts demo_accepts]) simp_all

theorem locked_device_boots_signed_witness:
  "\<exists>ct user. der_decode demo_ltc (take 2048 (drop 2 ([1, 2] @ replicate 2048 0))) = Some user \<and>
    signed_under demo_ltc ct (hd (der_rescan_tree demo_ltc user))"
proof -
  have "boot_get_kernel_gate demo_ltc demo_board demo_off ([1, 2] @ replicate 2048 0) 2 = Some True"
    using demo_accepts [of 2 "[1, 2] @ replicate 2048 0"] by (simp add: boot_get_kernel_gate_def demo_off_locked)
  then show ?thesis using locked_device_boots_signed [OF _ demo_off_locked(1)] by blast
qed

theorem image_verify_verdicts_witness:
  "amzn_image_verify demo_ltc demo_board demo_off [1, 2] (replicate 2048 0) 2 None = Some 1"
  using image_verify_verdicts [of demo_ltc 2 "[1, 2]" demo_board demo_off False "replicate 2048 0" None 0 0]
    demo_off_locked demo_verify_image by (auto simp: demo_ltc_def)

theorem certificate_nodes_overflow_witness:
  "amzn_verify_image (demo_ltc\<lparr>der_decode := \<lambda>b. Some (replicate 94 demo_root)\<rparr>) AMZN_PRODUCTION_CERT [] (replicate 2048 0) None = None"
proof -
  have "length (visit [] (replicate n demo_root)) = 3 * n" for n
    by (induction n) (simp_all add: demo_root_def)
  then show ?thesis
    using certificate_nodes_overflow [of "demo_ltc\<lparr>der_decode := \<lambda>b. Some (replicate 94 demo_root)\<rparr>" "replicate 2048 0"
        "replicate 94 demo_root"] by simp
qed

theorem decode_signature_packs_witness:
  "decode_signature demo_ltc (Asn1 LTC_ASN1_BIT_STRING (Buf [1, 0, 0, 0, 0, 0, 0, 1]) 8 0 False []) = Some (Some [0x81])"
  using decode_signature_packs [of demo_ltc 8 "[1, 0, 0, 0, 0, 0, 0, 1]" 0 False "[]" "[0x81]"]
  by (simp add: demo_ltc_def bit_bytes_list)

end
