(* ===== verification/Boot_Control.thy ===== *)
theory Boot_Control
  imports Margo_Board
begin

text \<open>
  The boot control block in the misc partition (\<^verbatim>\<open>features/bcb/bcb.c\<close>, \<^verbatim>\<open>cmd_bcb.c\<close>): choosing one of
  two slots by priority, counting failed boots down, falling back, and the console and fastboot
  command on it.  Partition access and the answer to "did the last boot fail" come from the platform.
\<close>

section \<open>The block and its layout\<close>

record slot_metadata =
  priority :: "4 word"
  tries_remaining :: "3 word"
  successful_boot :: "1 word"

record boot_ctrl =
  bc_magic :: u32
  bc_version :: byte
  slot_info :: "slot_metadata list"
  recovery_tries_remaining :: byte

definition OFFSETOF_SLOT_SUFFIX :: nat where "OFFSETOF_SLOT_SUFFIX = 864"
definition BOOTCTRL_MAGIC :: u32 where "BOOTCTRL_MAGIC = 0x42424100"
definition BOOT_CONTROL_VERSION :: byte where "BOOT_CONTROL_VERSION = 1"
definition BCB_DEFAULT_MAX_RETRIES :: "3 word" where "BCB_DEFAULT_MAX_RETRIES = 3"
definition BCB_DEFAULT_ACTIVE_SLOT_PRIORITY :: "4 word" where "BCB_DEFAULT_ACTIVE_SLOT_PRIORITY = 15"
definition BCB_DEFAULT_OTHER_SLOT_PRIORITY :: "4 word" where "BCB_DEFAULT_OTHER_SLOT_PRIORITY = 14"

text \<open>The eight bytes of the structure; bit-fields are laid out from the low bit on.\<close>

definition slot_byte :: "slot_metadata \<Rightarrow> byte" where
  "slot_byte s = ucast (priority s) OR push_bit 4 (ucast (tries_remaining s)) OR push_bit 7 (ucast (successful_boot s))"

definition byte_slot :: "byte \<Rightarrow> slot_metadata" where
  "byte_slot b = \<lparr>priority = ucast b, tries_remaining = ucast (drop_bit 4 b), successful_boot = ucast (drop_bit 7 b)\<rparr>"

definition ctrl_bytes :: "boot_ctrl \<Rightarrow> byte list" where
  "ctrl_bytes c = bytes32 (bc_magic c) @ [bc_version c, slot_byte (slot_info c ! 0), slot_byte (slot_info c ! 1),
     recovery_tries_remaining c]"

definition bytes_ctrl :: "byte list \<Rightarrow> boot_ctrl" where
  "bytes_ctrl bs = \<lparr>bc_magic = le32 (bs ! 0) (bs ! 1) (bs ! 2) (bs ! 3), bc_version = bs ! 4,
     slot_info = [byte_slot (bs ! 5), byte_slot (bs ! 6)], recovery_tries_remaining = bs ! 7\<rparr>"

definition MISC_SIZE :: nat where "MISC_SIZE = OFFSETOF_SLOT_SUFFIX + 8"

text \<open>A buffer for the front of the partition, and the structure at its end.\<close>

definition buf_ctrl :: "byte list \<Rightarrow> boot_ctrl" where
  "buf_ctrl buf = bytes_ctrl (drop OFFSETOF_SLOT_SUFFIX buf)"

definition put_ctrl :: "byte list \<Rightarrow> boot_ctrl \<Rightarrow> byte list" where
  "put_ctrl buf c = take OFFSETOF_SLOT_SUFFIX buf @ ctrl_bytes c"

section \<open>Platform and state\<close>

text \<open>What the platform provides.  Each access has a number, so that it may fail at one time and not
  at another; a failed write may leave anything.  \<open>pl_stack\<close> is what an uninitialised buffer holds.\<close>

record bcb_pl =
  pl_pingpong :: bool
  pl_read :: "nat \<Rightarrow> mem \<Rightarrow> byte list option"
  pl_write :: "nat \<Rightarrow> byte list \<Rightarrow> mem \<Rightarrow> bool \<times> mem"
  pl_last_failed :: bool
  pl_stack :: "byte list"
  pl_part_name :: "int \<Rightarrow> byte list option"
  pl_part_info :: "byte list \<Rightarrow> u32 option"
  pl_setenv_hex :: "byte list \<Rightarrow> u32 \<Rightarrow> env \<Rightarrow> int \<times> env"
  pl_cmd_usage :: int
  pl_response_len :: nat

record bcb_state =
  misc :: mem
  misc_io :: nat
  bcb_env :: env
  fastboot_context :: bool
  bcb_out :: "fb_event list"

text \<open>A call may return, hang (the loop on a device without bootable slot), or be undefined.\<close>

datatype 'a bcb_run = Ret 'a | Hang | Undef

section \<open>Access to the partition\<close>

fun read_tries :: "bcb_pl \<Rightarrow> nat \<Rightarrow> bcb_state \<Rightarrow> byte list option \<times> bcb_state" where
  "read_tries p 0 st = (None, st)"
| "read_tries p (Suc retry) st =
     (case pl_read p (misc_io st) (misc st) of
        Some b \<Rightarrow> (Some b, st\<lparr>misc_io := misc_io st + 1\<rparr>)
      | None \<Rightarrow> read_tries p retry (st\<lparr>misc_io := misc_io st + 1\<rparr>))"

definition ufbl_read_misc :: "bcb_pl \<Rightarrow> bcb_state \<Rightarrow> byte list option \<times> bcb_state" where
  "ufbl_read_misc p st = read_tries p 3 st"

fun write_tries :: "bcb_pl \<Rightarrow> byte list \<Rightarrow> nat \<Rightarrow> bcb_state \<Rightarrow> bool \<times> bcb_state" where
  "write_tries p buf 0 st = (False, st)"
| "write_tries p buf (Suc retry) st =
     (case pl_write p (misc_io st) buf (misc st) of (ok, m) \<Rightarrow>
        let st = st\<lparr>misc_io := misc_io st + 1, misc := m\<rparr> in
        if ok then (True, st) else write_tries p buf retry st)"

definition ufbl_write_misc :: "bcb_pl \<Rightarrow> byte list \<Rightarrow> bcb_state \<Rightarrow> bool \<times> bcb_state" where
  "ufbl_write_misc p buf st = write_tries p buf 3 st"

definition create_default_metadata :: "boot_ctrl \<Rightarrow> nat \<Rightarrow> boot_ctrl" where
  "create_default_metadata c default_active_slot =
     (let slot = (\<lambda>pr. \<lparr>priority = pr, tries_remaining = BCB_DEFAULT_MAX_RETRIES, successful_boot = 0\<rparr>) in
      c\<lparr>bc_magic := BOOTCTRL_MAGIC, bc_version := BOOT_CONTROL_VERSION,
        slot_info := (if default_active_slot = 0
          then [slot BCB_DEFAULT_ACTIVE_SLOT_PRIORITY, slot BCB_DEFAULT_OTHER_SLOT_PRIORITY]
          else [slot BCB_DEFAULT_OTHER_SLOT_PRIORITY, slot BCB_DEFAULT_ACTIVE_SLOT_PRIORITY])\<rparr>)"

definition ufbl_get_boot_ctrl :: "bcb_pl \<Rightarrow> bcb_state \<Rightarrow> boot_ctrl option \<times> bcb_state" where
  "ufbl_get_boot_ctrl p st =
     (if pl_pingpong p
      then case ufbl_read_misc p st of (b, st) \<Rightarrow> (map_option buf_ctrl b, st)
      else (None, st))"

text \<open>The buffer in front of the structure is never initialised.\<close>

definition ufbl_set_boot_ctrl :: "bcb_pl \<Rightarrow> boot_ctrl \<Rightarrow> bcb_state \<Rightarrow> bool \<times> bcb_state" where
  "ufbl_set_boot_ctrl p c st =
     (if pl_pingpong p then ufbl_write_misc p (put_ctrl (pl_stack p) c) st else (False, st))"

section \<open>The active slot\<close>

text \<open>A buffer of zeros with the default data; the default slot is 0 in this configuration.\<close>

definition default_buf :: "byte list" where
  "default_buf = put_ctrl (replicate OFFSETOF_SLOT_SUFFIX 0) (create_default_metadata (bytes_ctrl (replicate 8 0)) 0)"

text \<open>The choice by priority: the slot, the buffer and whether it is to be written back.  Equal
  priorities above zero are replaced by the default data.\<close>

definition select_slot :: "byte list \<Rightarrow> bool \<Rightarrow> int \<times> byte list \<times> bool" where
  "select_slot buf write_back =
     (let s0 = priority (slot_info (buf_ctrl buf) ! 0); s1 = priority (slot_info (buf_ctrl buf) ! 1) in
      if s0 > s1 then (0, buf, write_back)
      else if s0 < s1 then (1, buf, write_back)
      else if s0 > 0 then (0, default_buf, True)
      else (-1, buf, write_back))"

text \<open>After a failed boot: one try less, or the slot is given up for the other one.\<close>

definition count_failure :: "bool \<Rightarrow> int \<Rightarrow> byte list \<Rightarrow> bool \<Rightarrow> int \<times> byte list \<times> bool" where
  "count_failure failed slot buf write_back =
     (if slot < 0 \<or> \<not> failed then (slot, buf, write_back)
      else
        let c = buf_ctrl buf; i = nat slot; s = slot_info c ! i in
        if tries_remaining s > 0
        then (slot, put_ctrl buf (c\<lparr>slot_info := (slot_info c)[i := s\<lparr>tries_remaining := tries_remaining s - 1\<rparr>]\<rparr>), True)
        else
          let c = c\<lparr>slot_info := (slot_info c)[i := s\<lparr>priority := 0, successful_boot := 0\<rparr>]\<rparr>;
              other = (if slot = 0 then 1 else 0) in
          (if priority (slot_info c ! nat other) = 0 then -1 else other, put_ctrl buf c, True))"

definition ufbl_get_active_slot :: "bcb_pl \<Rightarrow> bcb_state \<Rightarrow> int bcb_run \<times> bcb_state" where
  "ufbl_get_active_slot p st =
     (if \<not> pl_pingpong p then (Ret (-1), st)
      else case ufbl_read_misc p st of (r, st) \<Rightarrow>
        let (buf, wb) = (case r of None \<Rightarrow> (default_buf, True) | Some b \<Rightarrow> (b, False));
            (buf, wb) = (if bc_magic (buf_ctrl buf) \<noteq> BOOTCTRL_MAGIC then (default_buf, True) else (buf, wb));
            (slot, buf, wb) = select_slot buf wb;
            (slot, buf, wb) = count_failure (pl_last_failed p) slot buf wb;
            st = (if wb
              then case ufbl_write_misc p buf st of (ok, st) \<Rightarrow> if ok then snd (ufbl_read_misc p st) else st
              else st) in
        (if slot < 0 then Hang else Ret slot, st))"

definition ufbl_is_slot_bootable :: "bcb_pl \<Rightarrow> nat \<Rightarrow> bcb_state \<Rightarrow> bool bcb_run \<times> bcb_state" where
  "ufbl_is_slot_bootable p slot st =
     (case ufbl_get_boot_ctrl p st of
        (None, st) \<Rightarrow> (Ret False, st)
      | (Some c, st) \<Rightarrow> if slot < 2 then (Ret (priority (slot_info c ! slot) > 0), st) else (Undef, st))"

definition ufbl_set_slot_as_unbootable :: "bcb_pl \<Rightarrow> nat \<Rightarrow> bcb_state \<Rightarrow> int bcb_run \<times> bcb_state" where
  "ufbl_set_slot_as_unbootable p slot st =
     (case ufbl_get_boot_ctrl p st of
        (None, st) \<Rightarrow> (Ret (-1), st)
      | (Some c, st) \<Rightarrow>
          if slot < 2
          then case ufbl_set_boot_ctrl p
              (c\<lparr>slot_info := (slot_info c)[slot := \<lparr>priority = 0, tries_remaining = 0, successful_boot = 0\<rparr>]\<rparr>) st of
            (ok, st) \<Rightarrow> (Ret (if ok then 0 else -1), st)
          else (Undef, st))"

section \<open>The command\<close>

text \<open>\<open>fastboot_printf\<close>: the part that reaches the host.\<close>

definition fastboot_printf :: "bcb_pl \<Rightarrow> (byte list \<Rightarrow> fb_event) \<Rightarrow> byte list \<Rightarrow> bcb_state \<Rightarrow> bcb_state" where
  "fastboot_printf p lev text st =
     (if fastboot_context st then st\<lparr>bcb_out := bcb_out st @ [lev (snprintf_str (pl_response_len p) text)]\<rparr> else st)"

definition slot_text :: "int \<Rightarrow> byte list" where
  "slot_text slot = cstr ''Active slot: '' @ print_int slot"

definition do_bcb_info :: "bcb_pl \<Rightarrow> bcb_state \<Rightarrow> int bcb_run \<times> bcb_state" where
  "do_bcb_info p st =
     (case ufbl_get_active_slot p st of
        (Ret slot, st) \<Rightarrow> (Ret 0, fastboot_printf p FB_INFO (slot_text slot) st)
      | r \<Rightarrow> r)"

definition meta_text :: "slot_metadata \<Rightarrow> byte list" where
  "meta_text s = cstr ''P'' @ print_num 10 (unat (priority s)) @ cstr '' T'' @ print_num 10 (unat (tries_remaining s)) @
     cstr '' S'' @ print_num 10 (unat (successful_boot s))"

definition do_bcb_read :: "bcb_pl \<Rightarrow> bcb_state \<Rightarrow> int bcb_run \<times> bcb_state" where
  "do_bcb_read p st =
     (case ufbl_get_boot_ctrl p st of
        (None, st) \<Rightarrow> (Ret (-1), st)
      | (Some c, st) \<Rightarrow> (Ret 0, fastboot_printf p FB_INFO
          (cstr ''S0: '' @ meta_text (slot_info c ! 0) @ cstr '' S1: '' @ meta_text (slot_info c ! 1)) st))"

text \<open>The values are cut to the widths of the bit-fields.\<close>

definition arg_slot :: "byte list \<Rightarrow> byte list \<Rightarrow> byte list \<Rightarrow> slot_metadata" where
  "arg_slot pr tr su = \<lparr>priority = ucast (simple_strtoul pr 10), tries_remaining = ucast (simple_strtoul tr 10),
     successful_boot = ucast (simple_strtoul su 10)\<rparr>"

definition do_bcb_write :: "bcb_pl \<Rightarrow> byte list list \<Rightarrow> bcb_state \<Rightarrow> int bcb_run \<times> bcb_state" where
  "do_bcb_write p argv st =
     (if length argv \<noteq> 7 then (Ret (-1), fastboot_printf p FB_FAIL (cstr ''Incorrect number of parameters'') st)
      else case ufbl_get_boot_ctrl p st of
        (None, st) \<Rightarrow> (Ret (-1), st)
      | (Some c, st) \<Rightarrow>
          (case ufbl_set_boot_ctrl p (c\<lparr>slot_info := [arg_slot (argv ! 1) (argv ! 2) (argv ! 3),
                  arg_slot (argv ! 4) (argv ! 5) (argv ! 6)]\<rparr>) st of
             (ok, st) \<Rightarrow> (Ret (if ok then 0 else -1), st)))"

text \<open>Slot \<open>i\<close> gets the active priority, the other one at most the one below.\<close>

definition raise_slot :: "nat \<Rightarrow> slot_metadata list \<Rightarrow> slot_metadata list" where
  "raise_slot i ss =
     (let ss = ss[i := (ss ! i)\<lparr>priority := BCB_DEFAULT_ACTIVE_SLOT_PRIORITY\<rparr>]; o' = ss ! (1 - i) in
      if priority o' > BCB_DEFAULT_OTHER_SLOT_PRIORITY
      then ss[1 - i := o'\<lparr>priority := BCB_DEFAULT_OTHER_SLOT_PRIORITY\<rparr>] else ss)"

text \<open>The block that is written back was read before \<open>ufbl_get_active_slot\<close>, which may change it.\<close>

definition do_bcb_swap :: "bcb_pl \<Rightarrow> bcb_state \<Rightarrow> int bcb_run \<times> bcb_state" where
  "do_bcb_swap p st =
     (case ufbl_get_boot_ctrl p st of
        (None, st) \<Rightarrow> (Ret (-1), st)
      | (Some c, st) \<Rightarrow>
          (case ufbl_get_active_slot p st of
             (Ret slot, st) \<Rightarrow>
               let curr = (if slot \<noteq> 1 then 0 else 1) in
               (case ufbl_set_boot_ctrl p (c\<lparr>slot_info := raise_slot (1 - curr) (slot_info c)\<rparr>) st of
                  (True, st) \<Rightarrow>
                    (case ufbl_get_active_slot p st of
                       (Ret slot, st) \<Rightarrow> (Ret 0, fastboot_printf p FB_INFO (slot_text slot) st)
                     | r \<Rightarrow> r)
                | (False, st) \<Rightarrow> (Ret (-1), st))
           | r \<Rightarrow> r))"

definition do_bcb_get_boot_part :: "bcb_pl \<Rightarrow> bcb_state \<Rightarrow> int bcb_run \<times> bcb_state" where
  "do_bcb_get_boot_part p st =
     (case ufbl_get_active_slot p st of
        (Ret slot, st) \<Rightarrow>
          (case pl_part_name p slot of
             None \<Rightarrow> (Ret (-1), st)
           | Some name \<Rightarrow>
               (case pl_part_info p name of
                  None \<Rightarrow> (Ret (-1), st)
                | Some start \<Rightarrow>
                    let st = fastboot_printf p FB_INFO
                      (cstr ''Active boot partition is '' @ name @ cstr '' @ '' @ print_num 16 (unat start)) st in
                    (case pl_setenv_hex p (cstr ''bootpart'') start (bcb_env st) of
                       (ret, e) \<Rightarrow> (Ret ret, st\<lparr>bcb_env := e\<rparr>))))
      | r \<Rightarrow> r)"

text \<open>The slot an argument names: by number, or by the suffixes in the environment.  Only the first
  character of a number is looked at, the second suffix is compared in the size of a pointer.\<close>

definition slot_of_arg :: "byte list \<Rightarrow> env \<Rightarrow> nat option" where
  "slot_of_arg arg e =
     (if starts_with arg (cstr ''0'') then Some 0
      else if starts_with arg (cstr ''1'') then Some 1
      else case e (cstr ''slot-suffixes'') of
        None \<Rightarrow> None
      | Some suf \<Rightarrow>
          if 44 \<notin> set suf then None
          else if strncmp_eq arg suf (length (takeWhile (\<lambda>c. c \<noteq> 44) suf)) then Some 0
          else if strncmp_eq arg (tl (dropWhile (\<lambda>c. c \<noteq> 44) suf)) 4 then Some 1
          else None)"

definition do_bcb_set_active :: "bcb_pl \<Rightarrow> byte list list \<Rightarrow> bcb_state \<Rightarrow> int bcb_run \<times> bcb_state" where
  "do_bcb_set_active p argv st =
     (if length argv \<noteq> 2 then (Ret (-1), fastboot_printf p FB_FAIL (cstr ''Incorrect number of parameters'') st)
      else case ufbl_get_boot_ctrl p st of
        (None, st) \<Rightarrow> (Ret (-1), fastboot_printf p FB_FAIL (cstr ''Failed to read slot data'') st)
      | (Some c, st) \<Rightarrow>
          (case slot_of_arg (argv ! 1) (bcb_env st) of
             None \<Rightarrow> (Ret (-1), fastboot_printf p FB_FAIL (cstr ''Failed to find slot '' @ argv ! 1 @ [10]) st)
           | Some i \<Rightarrow>
               let ss = slot_info c in
               if priority (ss ! i) \<le> priority (ss ! (1 - i))
               then
                 let ss = (if priority (ss ! i) = 0 then ss[i := (ss ! i)\<lparr>successful_boot := 0\<rparr>] else ss) in
                 (case ufbl_set_boot_ctrl p (c\<lparr>slot_info := raise_slot i ss\<rparr>) st of
                    (ok, st) \<Rightarrow> (Ret (if ok then 0 else -1), st))
               else (Ret 0, st)))"

subsection \<open>Dispatch\<close>

text \<open>\<open>find_cmd_tbl\<close> of the console (\<^verbatim>\<open>common/command.c\<close>): an exact name, or the only one it
  abbreviates; a dot ends the name.\<close>

fun find_cmd_loop :: "byte list \<Rightarrow> nat \<Rightarrow> (byte list \<times> 'a) list \<Rightarrow> (byte list \<times> 'a) option \<Rightarrow> nat \<Rightarrow> (byte list \<times> 'a) option" where
  "find_cmd_loop cmd len [] temp n_found = (if n_found = 1 then temp else None)"
| "find_cmd_loop cmd len (e # es) temp n_found =
     (if strncmp_eq cmd (fst e) len
      then if len = length (fst e) then Some e else find_cmd_loop cmd len es (Some e) (n_found + 1)
      else find_cmd_loop cmd len es temp n_found)"

definition find_cmd_tbl :: "byte list \<Rightarrow> (byte list \<times> 'a) list \<Rightarrow> (byte list \<times> 'a) option" where
  "find_cmd_tbl cmd tbl = find_cmd_loop cmd (length (takeWhile (\<lambda>c. c \<noteq> 46) cmd)) tbl None 0"

datatype bcb_cb = Bcb_info | Bcb_read | Bcb_write | Bcb_swap | Bcb_set_active | Bcb_bootpart

text \<open>The table: name, maximal number of arguments, callback; none is repeatable.\<close>

definition cmd_bcb :: "(byte list \<times> nat \<times> bcb_cb) list" where
  "cmd_bcb = [(cstr ''info'', 1, Bcb_info), (cstr ''read'', 1, Bcb_read), (cstr ''write'', 7, Bcb_write),
     (cstr ''swap'', 1, Bcb_swap), (cstr ''set_active'', 2, Bcb_set_active), (cstr ''bootpart'', 1, Bcb_bootpart)]"

definition call_bcb :: "bcb_pl \<Rightarrow> bcb_cb \<Rightarrow> byte list list \<Rightarrow> bcb_state \<Rightarrow> int bcb_run \<times> bcb_state" where
  "call_bcb p cb argv st =
     (case cb of Bcb_info \<Rightarrow> do_bcb_info p st | Bcb_read \<Rightarrow> do_bcb_read p st | Bcb_write \<Rightarrow> do_bcb_write p argv st
      | Bcb_swap \<Rightarrow> do_bcb_swap p st | Bcb_set_active \<Rightarrow> do_bcb_set_active p argv st
      | Bcb_bootpart \<Rightarrow> do_bcb_get_boot_part p st)"

text \<open>\<open>do_bcb_uboot\<close>: the console ends its arguments with a null pointer, the array of \<open>fastboot_bcb\<close>
  is not initialised behind its words.\<close>

definition do_bcb_uboot :: "bcb_pl \<Rightarrow> bool \<Rightarrow> bool \<Rightarrow> byte list list \<Rightarrow> bcb_state \<Rightarrow> int bcb_run \<times> bcb_state" where
  "do_bcb_uboot p terminated repeat argv st =
     (if length argv < 2 \<and> \<not> (terminated \<and> length argv = 1) then (Undef, st)
      else case (if length argv < 2 then None else find_cmd_tbl (argv ! 1) cmd_bcb) of
        None \<Rightarrow> (Ret (pl_cmd_usage p), st)
      | Some (_, maxargs, cb) \<Rightarrow>
          if length argv - 1 > maxargs then (Ret (pl_cmd_usage p), st)
          else if repeat then (Ret 0, st)
          else call_bcb p cb (tl argv) st)"

text \<open>\<open>fastboot_bcb\<close>: the words of the command, at most eight.\<close>

function bcb_words :: "byte list \<Rightarrow> byte list list" where
  "bcb_words [] = []"
| "bcb_words (c # cs) =
     (if c = 32 then bcb_words cs
      else takeWhile (\<lambda>c. c \<noteq> 32) (c # cs) # bcb_words (dropWhile (\<lambda>c. c \<noteq> 32) cs))"
  by pat_completeness auto
termination
  by (relation "measure length") (simp_all add: le_imp_less_Suc length_dropWhile_le)

definition fastboot_bcb :: "bcb_pl \<Rightarrow> byte list \<Rightarrow> bcb_state \<Rightarrow> int bcb_run \<times> bcb_state" where
  "fastboot_bcb p cmd st =
     (if 9 \<le> length (bcb_words cmd) then (Ret (-1), st)
      else case do_bcb_uboot p False False (bcb_words cmd) (st\<lparr>fastboot_context := True\<rparr>) of
        (r, st) \<Rightarrow> (r, st\<lparr>fastboot_context := False\<rparr>))"

section \<open>Lemmas\<close>

lemma byte_slot_byte [simp]: "byte_slot (slot_byte s) = s"
proof -
  have "ucast (slot_byte s) = priority s"
    unfolding slot_byte_def by (rule bit_word_eqI) (auto simp: bit_simps)
  moreover have "ucast (drop_bit 4 (slot_byte s)) = tries_remaining s"
    unfolding slot_byte_def by (rule bit_word_eqI) (auto simp: bit_simps dest: bit_imp_le_length)
  moreover have "ucast (drop_bit 7 (slot_byte s)) = successful_boot s"
    unfolding slot_byte_def by (rule bit_word_eqI) (auto simp: bit_simps dest: bit_imp_le_length)
  ultimately show ?thesis by (simp add: byte_slot_def)
qed

lemma two_slots: "length ss = 2 \<Longrightarrow> [ss ! 0, ss ! 1] = ss"
  by (auto simp: length_Suc_conv numeral_2_eq_2)

lemma bytes_ctrl_bytes [simp]: "length (slot_info c) = 2 \<Longrightarrow> bytes_ctrl (ctrl_bytes c) = c"
  using two_slots [of "slot_info c"]
  by (simp add: bytes_ctrl_def ctrl_bytes_def bytes32_def le32_bytes32_raw)

lemma length_ctrl_bytes [simp]: "length (ctrl_bytes c) = 8"
  by (simp add: ctrl_bytes_def bytes32_def)

lemma buf_ctrl_put [simp]:
  "OFFSETOF_SLOT_SUFFIX \<le> length buf \<Longrightarrow> length (slot_info c) = 2 \<Longrightarrow> buf_ctrl (put_ctrl buf c) = c"
  by (simp add: buf_ctrl_def put_ctrl_def)

lemma length_put_ctrl [simp]: "OFFSETOF_SLOT_SUFFIX \<le> length buf \<Longrightarrow> length (put_ctrl buf c) = MISC_SIZE"
  by (simp add: put_ctrl_def MISC_SIZE_def)

lemma length_slot_info_buf [simp]: "length (slot_info (buf_ctrl buf)) = 2"
  by (simp add: buf_ctrl_def bytes_ctrl_def)

lemma length_default_slots [simp]: "length (slot_info (create_default_metadata c i)) = 2"
  by (simp add: create_default_metadata_def Let_def)

lemma default_buf_ctrl [simp]: "length default_buf = MISC_SIZE" "buf_ctrl default_buf = create_default_metadata (bytes_ctrl (replicate 8 0)) 0"
  unfolding default_buf_def by simp_all

text \<open>A platform on which every access works.\<close>

definition pl_good :: "bcb_pl \<Rightarrow> bool" where
  "pl_good p \<longleftrightarrow> pl_pingpong p \<and> (\<forall>k m. pl_read p k m = Some (map m [0..<MISC_SIZE])) \<and>
     (\<forall>k bs m. pl_write p k bs m = (True, \<lambda>i. if i < length bs then bs ! i else m i)) \<and>
     length (pl_stack p) = OFFSETOF_SLOT_SUFFIX"

definition misc_buf :: "bcb_state \<Rightarrow> byte list" where
  "misc_buf st = map (misc st) [0..<MISC_SIZE]"

definition ctrl_of :: "bcb_state \<Rightarrow> boot_ctrl" where
  "ctrl_of st = buf_ctrl (misc_buf st)"

lemma length_misc_buf [simp]: "length (misc_buf st) = MISC_SIZE" "OFFSETOF_SLOT_SUFFIX \<le> length (misc_buf st)"
  by (simp_all add: misc_buf_def MISC_SIZE_def)

lemma length_slot_info_ctrl [simp]: "length (slot_info (ctrl_of st)) = 2"
  by (simp add: ctrl_of_def)

lemma read_good:
  assumes "pl_good p"
  shows "ufbl_read_misc p st = (Some (misc_buf st), st\<lparr>misc_io := misc_io st + 1\<rparr>)"
  using assms by (simp add: ufbl_read_misc_def pl_good_def misc_buf_def numeral_3_eq_3)

lemma write_good:
  assumes "pl_good p" "length buf = MISC_SIZE"
  obtains st' where "ufbl_write_misc p buf st = (True, st')" "misc_buf st' = buf" "bcb_env st' = bcb_env st"
    "\<And>k. misc_buf (st'\<lparr>misc_io := k\<rparr>) = buf"
proof -
  have "ufbl_write_misc p buf st = (True, st\<lparr>misc_io := misc_io st + 1, misc := \<lambda>i. if i < length buf then buf ! i else misc st i\<rparr>)"
    using assms(1) by (simp add: ufbl_write_misc_def pl_good_def numeral_3_eq_3)
  moreover have "map (\<lambda>i. if i < length buf then buf ! i else misc st i) [0..<MISC_SIZE] = buf"
    using assms(2) by (intro nth_equalityI) auto
  ultimately show thesis using that by (simp add: misc_buf_def)
qed

lemma misc_buf_io [simp]: "misc_buf (st\<lparr>misc_io := k\<rparr>) = misc_buf st"
  by (simp add: misc_buf_def)

text \<open>The choice of the slot as a function of the block: refinement.\<close>

definition sane_ctrl :: "boot_ctrl \<Rightarrow> boot_ctrl" where
  "sane_ctrl c =
     (if bc_magic c \<noteq> BOOTCTRL_MAGIC \<or>
         (priority (slot_info c ! 0) = priority (slot_info c ! 1) \<and> priority (slot_info c ! 0) \<noteq> 0)
      then create_default_metadata (bytes_ctrl (replicate 8 0)) 0 else c)"

definition best_slot :: "boot_ctrl \<Rightarrow> nat option" where
  "best_slot c = (if priority (slot_info c ! 0) > priority (slot_info c ! 1) then Some 0
     else if priority (slot_info c ! 0) < priority (slot_info c ! 1) then Some 1 else None)"

definition fail_slot :: "nat \<Rightarrow> boot_ctrl \<Rightarrow> nat option \<times> boot_ctrl" where
  "fail_slot i c =
     (let s = slot_info c ! i in
      if tries_remaining s \<noteq> 0
      then (Some i, c\<lparr>slot_info := (slot_info c)[i := s\<lparr>tries_remaining := tries_remaining s - 1\<rparr>]\<rparr>)
      else (if priority (slot_info c ! (1 - i)) = 0 then None else Some (1 - i),
            c\<lparr>slot_info := (slot_info c)[i := s\<lparr>priority := 0, successful_boot := 0\<rparr>]\<rparr>))"

definition slot_spec :: "bool \<Rightarrow> boot_ctrl \<Rightarrow> nat option \<times> boot_ctrl" where
  "slot_spec failed c =
     (case best_slot (sane_ctrl c) of
        None \<Rightarrow> (None, sane_ctrl c)
      | Some i \<Rightarrow> if failed then fail_slot i (sane_ctrl c) else (Some i, sane_ctrl c))"

lemma select_slot_spec:
  assumes "bc_magic (buf_ctrl buf) = BOOTCTRL_MAGIC"
  shows "\<exists>buf' wb'. select_slot buf wb = (case best_slot (sane_ctrl (buf_ctrl buf)) of None \<Rightarrow> -1 | Some i \<Rightarrow> int i, buf', wb') \<and>
    buf_ctrl buf' = sane_ctrl (buf_ctrl buf) \<and> (wb' \<or> (buf' = buf \<and> wb' = wb)) \<and>
    (length buf = MISC_SIZE \<longrightarrow> length buf' = MISC_SIZE)"
proof (cases "priority (slot_info (buf_ctrl buf) ! 0) = priority (slot_info (buf_ctrl buf) ! 1) \<and>
    priority (slot_info (buf_ctrl buf) ! 0) \<noteq> 0")
  case True
  have "best_slot (create_default_metadata (bytes_ctrl (replicate 8 0)) 0) = Some 0"
    by (simp add: best_slot_def create_default_metadata_def Let_def BCB_DEFAULT_ACTIVE_SLOT_PRIORITY_def
        BCB_DEFAULT_OTHER_SLOT_PRIORITY_def)
  moreover have "sane_ctrl (buf_ctrl buf) = create_default_metadata (bytes_ctrl (replicate 8 0)) 0"
    using True by (auto simp: sane_ctrl_def)
  ultimately show ?thesis
    using True by (auto simp: select_slot_def Let_def word_gt_0)
next
  case False
  then have "sane_ctrl (buf_ctrl buf) = buf_ctrl buf" using assms by (auto simp: sane_ctrl_def)
  then show ?thesis using False
    by (auto simp: select_slot_def best_slot_def Let_def word_gt_0)
qed

lemma count_failure_spec:
  assumes "i < 2" "OFFSETOF_SLOT_SUFFIX \<le> length buf"
  shows "\<exists>buf'. count_failure True (int i) buf wb =
      (case fst (fail_slot i (buf_ctrl buf)) of None \<Rightarrow> -1 | Some j \<Rightarrow> int j, buf', True) \<and>
    buf_ctrl buf' = snd (fail_slot i (buf_ctrl buf)) \<and> length buf' = MISC_SIZE"
proof -
  have "i = 0 \<or> i = 1" using assms(1) by linarith
  then show ?thesis using assms(2)
    by (auto simp: count_failure_def fail_slot_def Let_def word_gt_0)
qed

lemma best_slot_lt: "best_slot c = Some i \<Longrightarrow> i < 2"
  by (auto simp: best_slot_def split: if_splits)

lemma write_back_good:
  assumes "pl_good p" "length buf = MISC_SIZE" "wb \<or> buf = misc_buf st"
    and "st' = (if wb then case ufbl_write_misc p buf st of (ok, st) \<Rightarrow> if ok then snd (ufbl_read_misc p st) else st else st)"
  shows "misc_buf st' = buf \<and> bcb_env st' = bcb_env st"
proof (cases wb)
  case True
  obtain s where "ufbl_write_misc p buf st = (True, s)" "misc_buf s = buf" "bcb_env s = bcb_env st"
    using write_good [OF assms(1,2), of st] by blast
  then show ?thesis using True assms(4) read_good [OF assms(1)] by simp
qed (use assms in simp)

lemma sane_sane [simp]: "sane_ctrl (sane_ctrl c) = sane_ctrl c" "bc_magic (sane_ctrl c) = BOOTCTRL_MAGIC"
  by (auto simp: sane_ctrl_def create_default_metadata_def Let_def BCB_DEFAULT_ACTIVE_SLOT_PRIORITY_def
      BCB_DEFAULT_OTHER_SLOT_PRIORITY_def)

text \<open>On a working platform \<open>ufbl_get_active_slot\<close> is this function of the stored block.\<close>

lemma get_active_refines:
  assumes good: "pl_good p"
  shows "\<exists>st'. ufbl_get_active_slot p st =
      (case fst (slot_spec (pl_last_failed p) (ctrl_of st)) of None \<Rightarrow> Hang | Some i \<Rightarrow> Ret (int i), st') \<and>
    ctrl_of st' = snd (slot_spec (pl_last_failed p) (ctrl_of st)) \<and> bcb_env st' = bcb_env st"
proof -
  let ?c = "ctrl_of st"
  let ?st = "st\<lparr>misc_io := misc_io st + 1\<rparr>"
  obtain buf wb where b: "(if bc_magic (buf_ctrl (misc_buf st)) \<noteq> BOOTCTRL_MAGIC then (default_buf, True) else (misc_buf st, False)) = (buf, wb)"
    by fastforce
  have bm: "bc_magic (buf_ctrl buf) = BOOTCTRL_MAGIC" "sane_ctrl (buf_ctrl buf) = sane_ctrl ?c" "length buf = MISC_SIZE"
      "wb \<or> buf = misc_buf st"
    using b sane_sane [of ?c] by (auto simp: ctrl_of_def sane_ctrl_def create_default_metadata_def Let_def split: if_splits)
  obtain buf1 wb1 where s: "select_slot buf wb = (case best_slot (sane_ctrl ?c) of None \<Rightarrow> -1 | Some i \<Rightarrow> int i, buf1, wb1)"
      "buf_ctrl buf1 = sane_ctrl ?c" "wb1 \<or> buf1 = misc_buf st" "length buf1 = MISC_SIZE"
    using select_slot_spec [OF bm(1), of wb] bm(2-4) by auto
  let ?r = "slot_spec (pl_last_failed p) ?c"
  obtain buf2 wb2 where f: "count_failure (pl_last_failed p) (case best_slot (sane_ctrl ?c) of None \<Rightarrow> -1 | Some i \<Rightarrow> int i) buf1 wb1 =
      (case fst ?r of None \<Rightarrow> -1 | Some i \<Rightarrow> int i, buf2, wb2)"
      "buf_ctrl buf2 = snd ?r" "wb2 \<or> buf2 = misc_buf ?st" "length buf2 = MISC_SIZE"
  proof (cases "best_slot (sane_ctrl ?c)")
    case None
    then show ?thesis using that [of buf1 wb1] s(2-4) by (simp add: count_failure_def slot_spec_def)
  next
    case (Some i)
    show ?thesis
    proof (cases "pl_last_failed p")
      case False
      then show ?thesis using that [of buf1 wb1] s(2-4) Some by (simp add: count_failure_def slot_spec_def)
    next
      case True
      have "OFFSETOF_SLOT_SUFFIX \<le> length buf1" using s(4) by (simp add: MISC_SIZE_def)
      then obtain buf2 where "count_failure True (int i) buf1 wb1 =
          (case fst (fail_slot i (buf_ctrl buf1)) of None \<Rightarrow> -1 | Some j \<Rightarrow> int j, buf2, True)"
          "buf_ctrl buf2 = snd (fail_slot i (buf_ctrl buf1))" "length buf2 = MISC_SIZE"
        using count_failure_spec [OF best_slot_lt [OF Some]] by blast
      then show ?thesis using that [of buf2 True] s(2) Some True by (simp add: slot_spec_def)
    qed
  qed
  define st' where "st' = (if wb2 then case ufbl_write_misc p buf2 ?st of (ok, st) \<Rightarrow> if ok then snd (ufbl_read_misc p st) else st else ?st)"
  have w: "misc_buf st' = buf2 \<and> bcb_env st' = bcb_env ?st"
    by (rule write_back_good [OF good f(4,3) st'_def])
  have "ufbl_get_active_slot p st = (if (case fst ?r of None \<Rightarrow> -1 | Some i \<Rightarrow> int i) < 0 then Hang else
      Ret (case fst ?r of None \<Rightarrow> -1 | Some i \<Rightarrow> int i), st')"
    using good unfolding ufbl_get_active_slot_def st'_def
    by (simp only: read_good [OF good] option.case prod.case b s(1) f(1) Let_def pl_good_def if_False simp_thms)
  then show ?thesis using w f(2) by (auto simp: ctrl_of_def split: option.splits)
qed

section \<open>Fallback\<close>

text \<open>A block whose slot \<open>i\<close> has priority \<open>pr\<close> and \<open>t\<close> tries, the other one \<open>pr'\<close> and \<open>t'\<close>.\<close>

definition slots_are :: "boot_ctrl \<Rightarrow> nat \<Rightarrow> 4 word \<Rightarrow> nat \<Rightarrow> 4 word \<Rightarrow> nat \<Rightarrow> bool" where
  "slots_are c i pr t pr' t' \<longleftrightarrow> bc_magic c = BOOTCTRL_MAGIC \<and> length (slot_info c) = 2 \<and> i < 2 \<and>
     priority (slot_info c ! i) = pr \<and> unat (tries_remaining (slot_info c ! i)) = t \<and>
     priority (slot_info c ! (1 - i)) = pr' \<and> unat (tries_remaining (slot_info c ! (1 - i))) = t'"

lemma slots_are_best:
  assumes "slots_are c i pr t pr' t'" "pr > pr'"
  shows "sane_ctrl c = c" "best_slot c = Some i"
proof -
  have "i = 0 \<or> i = 1" using assms(1) by (auto simp: slots_are_def)
  then show "sane_ctrl c = c" "best_slot c = Some i"
    using assms by (auto simp: slots_are_def sane_ctrl_def best_slot_def)
qed

lemma fail_retries:
  assumes "slots_are c i pr (Suc t) pr' t'" "pr > pr'"
  shows "\<exists>c'. slot_spec True c = (Some i, c') \<and> slots_are c' i pr t pr' t'"
proof -
  let ?s = "slot_info c ! i"
  have nz: "tries_remaining ?s \<noteq> 0" using assms(1) by (auto simp: slots_are_def)
  then have "unat (tries_remaining ?s - 1) = t" using assms(1) by (simp add: slots_are_def unat_minus_one)
  moreover have "i = 0 \<or> i = 1" using assms(1) by (auto simp: slots_are_def)
  ultimately show ?thesis
    using slots_are_best [OF assms] nz assms(1)
    by (auto simp: slot_spec_def fail_slot_def Let_def slots_are_def)
qed

lemma fail_gives_up:
  assumes "slots_are c i pr 0 pr' t'" "pr > pr'"
  shows "\<exists>c'. slot_spec True c = (if pr' = 0 then None else Some (1 - i), c') \<and> slots_are c' (1 - i) pr' t' 0 0"
proof -
  have "tries_remaining (slot_info c ! i) = 0" using assms(1) by (auto simp: slots_are_def unat_eq_0)
  moreover have "i = 0 \<or> i = 1" using assms(1) by (auto simp: slots_are_def)
  ultimately show ?thesis
    using slots_are_best [OF assms] assms(1)
    by (auto simp: slot_spec_def fail_slot_def Let_def slots_are_def)
qed

text \<open>The answers of a sequence of boots.\<close>

fun boots :: "bcb_pl \<Rightarrow> nat \<Rightarrow> bcb_state \<Rightarrow> int bcb_run list" where
  "boots p 0 st = []"
| "boots p (Suc n) st = (case ufbl_get_active_slot p st of (r, st') \<Rightarrow> r # boots p n st')"

lemma boots_step:
  assumes "pl_good p" "pl_last_failed p" "slot_spec True (ctrl_of st) = (r, c')"
  shows "\<exists>st'. boots p (Suc n) st = (case r of None \<Rightarrow> Hang | Some i \<Rightarrow> Ret (int i)) # boots p n st' \<and> ctrl_of st' = c'"
  using get_active_refines [OF assms(1), of st] assms(2,3) by auto

lemma boots_until_given_up:
  assumes "pl_good p" "pl_last_failed p" "slots_are (ctrl_of st) i pr t pr' t'" "pr > pr'"
  shows "\<exists>st'. boots p (t + 1 + n) st =
    replicate t (Ret (int i)) @ (if pr' = 0 then Hang else Ret (int (1 - i))) # boots p n st' \<and>
    slots_are (ctrl_of st') (1 - i) pr' t' 0 0"
  using assms(3)
proof (induction t arbitrary: st)
  case 0
  then show ?case using fail_gives_up [OF 0 assms(4)] boots_step [OF assms(1,2), of st _ _ n] by fastforce
next
  case (Suc t)
  obtain c' where c': "slot_spec True (ctrl_of st) = (Some i, c')" "slots_are c' i pr t pr' t'"
    using fail_retries [OF Suc.prems assms(4)] by blast
  obtain st1 where st1: "boots p (Suc (t + 1 + n)) st = Ret (int i) # boots p (t + 1 + n) st1" "ctrl_of st1 = c'"
    using boots_step [OF assms(1,2) c'(1), of "t + 1 + n"] by auto
  show ?case using Suc.IH [of st1] st1 c'(2) by auto
qed

text \<open>C38: fallback.  On a device whose every boot fails, the slot of the higher priority is booted
  as often as it has tries left, then the other slot once and as often as it has tries left, and then
  the boot loader stops: no sequence of failures makes it retry forever.\<close>

theorem failing_boots_fall_back:
  assumes "pl_good p" "pl_last_failed p" "slots_are (ctrl_of st) i pr t pr' t'" "pr > pr'" "pr' > 0"
  shows "boots p (t + t' + 2) st = replicate t (Ret (int i)) @ replicate (t' + 1) (Ret (int (1 - i))) @ [Hang]"
proof -
  obtain st1 where 1: "boots p (t + 1 + (t' + 1 + 0)) st = replicate t (Ret (int i)) @ Ret (int (1 - i)) # boots p (t' + 1 + 0) st1"
      "slots_are (ctrl_of st1) (1 - i) pr' t' 0 0"
    using boots_until_given_up [OF assms(1-4), of "t' + 1 + 0"] assms(5) by (auto simp: word_gt_0)
  obtain st2 where 2: "boots p (t' + 1 + 0) st1 = replicate t' (Ret (int (1 - i))) @ [Hang]"
    using boots_until_given_up [OF assms(1,2) 1(2) assms(5), of 0] by auto
  have "t + 1 + (t' + 1 + 0) = t + t' + 2" by simp
  then show ?thesis using 1(1) 2 by (simp only: replicate_Suc Suc_eq_plus1 [symmetric] append_Cons)
qed

text \<open>A working platform, with the default block in its partition.\<close>

definition demo_pl :: "bool \<Rightarrow> bcb_pl" where
  "demo_pl failed = \<lparr>pl_pingpong = True, pl_read = (\<lambda>k m. Some (map m [0..<MISC_SIZE])),
     pl_write = (\<lambda>k bs m. (True, \<lambda>i. if i < length bs then bs ! i else m i)), pl_last_failed = failed,
     pl_stack = replicate OFFSETOF_SLOT_SUFFIX 7, pl_part_name = (\<lambda>i. None), pl_part_info = (\<lambda>n. None),
     pl_setenv_hex = (\<lambda>n v e. (0, e)), pl_cmd_usage = -1, pl_response_len = 64\<rparr>"

definition demo_bcb :: bcb_state where
  "demo_bcb = \<lparr>misc = (\<lambda>i. default_buf ! i), misc_io = 0, bcb_env = (\<lambda>n. None), fastboot_context = False, bcb_out = []\<rparr>"

lemma demo_pl_good: "pl_good (demo_pl failed)"
  by (simp add: pl_good_def demo_pl_def)

lemma demo_ctrl: "ctrl_of demo_bcb = create_default_metadata (bytes_ctrl (replicate 8 0)) 0"
proof -
  have "misc_buf demo_bcb = default_buf"
    unfolding misc_buf_def demo_bcb_def bcb_state.simps default_buf_ctrl(1) [symmetric] by (rule map_nth)
  then show ?thesis by (simp add: ctrl_of_def)
qed

lemma demo_slots: "slots_are (ctrl_of demo_bcb) 0 15 3 14 3"
  by (simp add: slots_are_def demo_ctrl create_default_metadata_def Let_def BCB_DEFAULT_ACTIVE_SLOT_PRIORITY_def
      BCB_DEFAULT_OTHER_SLOT_PRIORITY_def BCB_DEFAULT_MAX_RETRIES_def)

theorem failing_boots_fall_back_witness:
  "boots (demo_pl True) 8 demo_bcb = [Ret 0, Ret 0, Ret 0, Ret 1, Ret 1, Ret 1, Ret 1, Hang]"
proof -
  have "pl_last_failed (demo_pl True)" "(15 :: 4 word) > 14" "(14 :: 4 word) > 0" by (simp_all add: demo_pl_def)
  then have "boots (demo_pl True) (3 + 3 + 2) demo_bcb =
      replicate 3 (Ret (int 0)) @ replicate (3 + 1) (Ret (int (1 - 0))) @ [Hang]"
    by (rule failing_boots_fall_back [OF demo_pl_good _ demo_slots])
  moreover have "replicate 3 x @ replicate (3 + 1) y @ [z] = [x, x, x, y, y, y, y, z]" for x y z :: "int bcb_run"
    by (simp add: numeral_eq_Suc)
  ultimately show ?thesis by simp
qed

lemma slot_of_arg_lt: "slot_of_arg arg e = Some i \<Longrightarrow> i < 2"
  by (auto simp: slot_of_arg_def split: if_splits option.splits)

lemma raise_slot_best:
  assumes "i < 2" "length ss = 2"
  shows "best_slot (c\<lparr>slot_info := raise_slot i ss\<rparr>) = Some i" "length (raise_slot i ss) = 2"
proof -
  have "i = 0 \<or> i = 1" using assms(1) by linarith
  then show "best_slot (c\<lparr>slot_info := raise_slot i ss\<rparr>) = Some i"
    using assms(2) by (auto simp: best_slot_def raise_slot_def Let_def BCB_DEFAULT_ACTIVE_SLOT_PRIORITY_def
      BCB_DEFAULT_OTHER_SLOT_PRIORITY_def not_less word_le_nat_alt word_less_nat_alt)
  show "length (raise_slot i ss) = 2" using assms(2) by (simp add: raise_slot_def Let_def)
qed

lemma best_slot_sane: "best_slot c = Some i \<Longrightarrow> bc_magic c = BOOTCTRL_MAGIC \<Longrightarrow> sane_ctrl c = c"
  by (auto simp: best_slot_def sane_ctrl_def)

text \<open>C39: choosing a slot.  Setting the active slot succeeds, and the next boot, unless it has to
  count a failure, takes that slot.  When the command has to change the block, the 864 bytes in front
  of it, where the partition holds the message of the recovery system, are replaced by whatever the
  uninitialised buffer held.\<close>

theorem set_active_selects:
  assumes "pl_good p" "slot_of_arg arg (bcb_env st) = Some i" "bc_magic (ctrl_of st) = BOOTCTRL_MAGIC"
  shows "\<exists>st'. do_bcb_set_active p [name, arg] st = (Ret 0, st') \<and>
    (\<not> pl_last_failed p \<longrightarrow> fst (ufbl_get_active_slot p st') = Ret (int i)) \<and>
    (best_slot (ctrl_of st) \<noteq> Some i \<longrightarrow> take OFFSETOF_SLOT_SUFFIX (misc_buf st') = pl_stack p)"
proof -
  have i: "i < 2" by (rule slot_of_arg_lt [OF assms(2)])
  have g: "ufbl_get_boot_ctrl p st = (Some (ctrl_of st), st\<lparr>misc_io := misc_io st + 1\<rparr>)"
    using assms(1) read_good [OF assms(1)] by (simp add: ufbl_get_boot_ctrl_def pl_good_def ctrl_of_def)
  have next_boot: "fst (ufbl_get_active_slot p st') = Ret (int i)"
    if "best_slot (ctrl_of st') = Some i" "bc_magic (ctrl_of st') = BOOTCTRL_MAGIC" "\<not> pl_last_failed p" for st'
    using get_active_refines [OF assms(1), of st'] that best_slot_sane [OF that(1,2)] by (auto simp: slot_spec_def)
  let ?ss = "slot_info (ctrl_of st)"
  show ?thesis
  proof (cases "priority (?ss ! i) \<le> priority (?ss ! (1 - i))")
    case True
    let ?s2 = "if priority (?ss ! i) = 0 then ?ss[i := (?ss ! i)\<lparr>successful_boot := 0\<rparr>] else ?ss"
    let ?c = "(ctrl_of st)\<lparr>slot_info := raise_slot i ?s2\<rparr>"
    have l: "length (pl_stack p) = OFFSETOF_SLOT_SUFFIX" "pl_pingpong p" using assms(1) by (simp_all add: pl_good_def)
    then have "length (put_ctrl (pl_stack p) ?c) = MISC_SIZE" by simp
    then obtain st' where w: "ufbl_write_misc p (put_ctrl (pl_stack p) ?c) (st\<lparr>misc_io := misc_io st + 1\<rparr>) = (True, st')"
        "misc_buf st' = put_ctrl (pl_stack p) ?c"
      using write_good [OF assms(1), of _ "st\<lparr>misc_io := misc_io st + 1\<rparr>"] by metis
    have c: "ctrl_of st' = ?c" using w(2) l(1) raise_slot_best(2) [OF i, of ?s2] by (simp add: ctrl_of_def)
    have "do_bcb_set_active p [name, arg] st = (Ret 0, st')"
      using True w(1) l(2) g assms(2) by (simp add: do_bcb_set_active_def ufbl_set_boot_ctrl_def Let_def)
    moreover have "best_slot (ctrl_of st') = Some i" using c raise_slot_best(1) [OF i, of ?s2] by simp
    moreover have "take OFFSETOF_SLOT_SUFFIX (misc_buf st') = pl_stack p" using w(2) l(1) by (simp add: put_ctrl_def)
    ultimately show ?thesis using next_boot [of st'] c assms(3) by auto
  next
    case False
    have "i = 0 \<or> i = 1" using i by linarith
    then have b: "best_slot (ctrl_of st) = Some i" using False by (auto simp: best_slot_def)
    have "do_bcb_set_active p [name, arg] st = (Ret 0, st\<lparr>misc_io := misc_io st + 1\<rparr>)"
      using False g assms(2) by (simp add: do_bcb_set_active_def Let_def)
    then show ?thesis using next_boot [of "st\<lparr>misc_io := misc_io st + 1\<rparr>"] b assms(3) by (auto simp: ctrl_of_def)
  qed
qed

theorem set_active_selects_witness:
  "\<exists>st'. do_bcb_set_active (demo_pl False) [cstr ''set_active'', cstr ''1''] demo_bcb = (Ret 0, st') \<and>
    fst (ufbl_get_active_slot (demo_pl False) st') = Ret 1 \<and> take OFFSETOF_SLOT_SUFFIX (misc_buf st') = replicate OFFSETOF_SLOT_SUFFIX 7"
proof -
  have "slot_of_arg (cstr ''1'') (bcb_env demo_bcb) = Some 1"
    by (simp add: slot_of_arg_def starts_with_def strncmp_eq_def cstr_def)
  moreover have "best_slot (ctrl_of demo_bcb) = Some 0" "bc_magic (ctrl_of demo_bcb) = BOOTCTRL_MAGIC"
    using slots_are_best(2) [OF demo_slots] demo_slots by (simp_all add: slots_are_def)
  ultimately show ?thesis
    using set_active_selects [OF demo_pl_good [of False], of "cstr ''1''" demo_bcb 1 "cstr ''set_active''"]
    by (auto simp: demo_pl_def)
qed

end
