(* ===== verification/Fastboot_Packet.thy ===== *)
theory Fastboot_Packet
  imports Boot_Prelude
begin

text \<open>
  The packet layer of the UDP fastboot of \<^verbatim>\<open>common/cmd_fastboot.c\<close>: the big-endian fields and the
  header of a packet and the bitmap of received data packets.  The lemmas read a header back field
  by field and describe the bitmap as the set of received packet numbers.
\<close>

section \<open>Header fields\<close>

definition kHeaderSize :: nat where
  "kHeaderSize = 8"

definition extract_uint16 :: "byte \<Rightarrow> byte \<Rightarrow> u16" where
  "extract_uint16 b0 b1 = push_bit 8 (ucast b0) OR ucast b1"

definition put_uint16 :: "u16 \<Rightarrow> byte list" where
  "put_uint16 v = [ucast (drop_bit 8 v), ucast v]"

definition extract_uint32 :: "byte \<Rightarrow> byte \<Rightarrow> byte \<Rightarrow> byte \<Rightarrow> u32" where
  "extract_uint32 b0 b1 b2 b3 =
     push_bit 24 (ucast b0) OR push_bit 16 (ucast b1) OR push_bit 8 (ucast b2) OR ucast b3"

definition put_uint32 :: "u32 \<Rightarrow> byte list" where
  "put_uint32 v = [ucast (drop_bit 24 v), ucast (drop_bit 16 v), ucast (drop_bit 8 v), ucast v]"

definition header_set :: "byte \<Rightarrow> u16 \<Rightarrow> byte \<Rightarrow> u32 \<Rightarrow> byte list" where
  "header_set pid sequence flag packetnum =
     [pid, flag, ucast (drop_bit 8 sequence), ucast sequence,
      ucast (drop_bit 24 packetnum), ucast (drop_bit 16 packetnum), ucast (drop_bit 8 packetnum), ucast packetnum]"

text \<open>The fields of a received packet, which must have at least the eight header bytes.\<close>

definition pkt_id :: "byte list \<Rightarrow> byte" where "pkt_id pkt = pkt ! 0"
definition pkt_flag :: "byte list \<Rightarrow> byte" where "pkt_flag pkt = pkt ! 1"
definition pkt_seq :: "byte list \<Rightarrow> u16" where "pkt_seq pkt = extract_uint16 (pkt ! 2) (pkt ! 3)"
definition pkt_num :: "byte list \<Rightarrow> u32" where
  "pkt_num pkt = extract_uint32 (pkt ! 4) (pkt ! 5) (pkt ! 6) (pkt ! 7)"

section \<open>Receive bitmap\<close>

definition RECV_BITMAP_SIZE :: nat where
  "RECV_BITMAP_SIZE = 16 * 1024"

text \<open>The index is a C \<open>int\<close>.  A negative index, or one past the end, addresses memory outside the
  bitmap: the division truncates towards zero, so the indices -7 to -1 fall into the first byte,
  where the shift count is negative.\<close>

definition bitmap_cell :: "int \<Rightarrow> (nat \<times> nat) option" where
  "bitmap_cell index =
     (if 0 \<le> index \<and> index < 8 * int RECV_BITMAP_SIZE then Some (nat index div 8, nat index mod 8) else None)"

definition set_receive_bitmap :: "mem \<Rightarrow> int \<Rightarrow> mem option" where
  "set_receive_bitmap bm index = do {
     (c, k) \<leftarrow> bitmap_cell index;
     Some (bm(c := bm c OR push_bit k 1)) }"

definition get_receive_bitmap :: "mem \<Rightarrow> int \<Rightarrow> bool option" where
  "get_receive_bitmap bm index = do {
     (c, k) \<leftarrow> bitmap_cell index;
     Some (bm c AND push_bit k 1 \<noteq> 0) }"

text \<open>\<open>first_unset_bit\<close>: the two loops, over bytes and over the bits of a byte, with the number of
  cells left as the decreasing argument.\<close>

fun skip_full :: "mem \<Rightarrow> nat \<Rightarrow> nat \<Rightarrow> nat" where
  "skip_full bm index 0 = index"
| "skip_full bm index (Suc k) = (if bm index = 0xFF then skip_full bm (Suc index) k else index)"

fun skip_set :: "byte \<Rightarrow> nat \<Rightarrow> nat \<Rightarrow> nat" where
  "skip_set c b 0 = b"
| "skip_set c b (Suc k) = (if c AND push_bit b 1 \<noteq> 0 then skip_set c (Suc b) k else b)"

definition first_unset_bit :: "mem \<Rightarrow> nat" where
  "first_unset_bit bm =
     (let index = skip_full bm 0 RECV_BITMAP_SIZE in
      index * 8 + (if index < RECV_BITMAP_SIZE then skip_set (bm index) 0 8 else 0))"

section \<open>Lemmas\<close>

lemma extract_put_uint16: "extract_uint16 (put_uint16 v ! 0) (put_uint16 v ! 1) = v"
proof (rule bit_word_eqI)
  fix k assume k: "k < LENGTH(16)"
  then have "k < 8 \<or> (8 \<le> k \<and> k < 16)" by auto
  with k show "bit (extract_uint16 (put_uint16 v ! 0) (put_uint16 v ! 1)) k \<longleftrightarrow> bit v k"
    unfolding extract_uint16_def put_uint16_def by (elim disjE conjE; simp add: bit_simps less_diff_conv2)
qed

lemma extract_put_uint32:
  "extract_uint32 (put_uint32 v ! 0) (put_uint32 v ! 1) (put_uint32 v ! 2) (put_uint32 v ! 3) = v"
proof (rule bit_word_eqI)
  fix k assume k: "k < LENGTH(32)"
  then have "k < 8 \<or> (8 \<le> k \<and> k < 16) \<or> (16 \<le> k \<and> k < 24) \<or> (24 \<le> k \<and> k < 32)"
    by (simp, linarith)
  with k show "bit (extract_uint32 (put_uint32 v ! 0) (put_uint32 v ! 1) (put_uint32 v ! 2) (put_uint32 v ! 3)) k \<longleftrightarrow> bit v k"
    unfolding extract_uint32_def put_uint32_def
    by (elim disjE conjE; simp add: bit_simps less_diff_conv2; (auto simp: less_diff_conv2)?)
qed

text \<open>The bitmap as a set of packet numbers.\<close>

definition has_bit :: "mem \<Rightarrow> nat \<Rightarrow> bool" where
  "has_bit bm i \<longleftrightarrow> bit (bm (i div 8)) (i mod 8)"

lemma and_push_bit_1: "(c AND push_bit k 1 \<noteq> 0) = bit (c :: byte) k" "(c AND 2 ^ k \<noteq> 0) = bit c k"
  using and_exp_eq_0_iff_not_bit [of c k] by (simp_all add: push_bit_eq_mult)

lemma get_receive_bitmap_nat:
  "i < 8 * RECV_BITMAP_SIZE \<Longrightarrow> get_receive_bitmap bm (int i) = Some (has_bit bm i)"
  by (simp add: get_receive_bitmap_def bitmap_cell_def and_push_bit_1 has_bit_def)

lemma set_receive_bitmap_nat:
  assumes "i < 8 * RECV_BITMAP_SIZE"
  shows "\<exists>bm'. set_receive_bitmap bm (int i) = Some bm' \<and> (\<forall>j. has_bit bm' j \<longleftrightarrow> j = i \<or> has_bit bm j)"
proof -
  let ?bm' = "bm(i div 8 := bm (i div 8) OR push_bit (i mod 8) 1)"
  have "has_bit ?bm' j \<longleftrightarrow> j = i \<or> has_bit bm j" for j
  proof (cases "j div 8 = i div 8")
    case True
    then have "j = i \<longleftrightarrow> j mod 8 = i mod 8" by (metis div_mult_mod_eq)
    then show ?thesis using True by (auto simp: has_bit_def bit_simps)
  next
    case False
    then show ?thesis by (auto simp: has_bit_def)
  qed
  then show ?thesis using assms by (simp add: set_receive_bitmap_def bitmap_cell_def)
qed

text \<open>\<open>first_unset_bit\<close> is the least packet number that is not set.\<close>

lemma skip_full_spec:
  "index \<le> skip_full bm index k \<and> skip_full bm index k \<le> index + k \<and>
   (\<forall>j. index \<le> j \<and> j < skip_full bm index k \<longrightarrow> bm j = 0xFF) \<and>
   (skip_full bm index k < index + k \<longrightarrow> bm (skip_full bm index k) \<noteq> 0xFF)"
proof (induction k arbitrary: index)
  case (Suc k)
  show ?case
  proof (cases "bm index = 0xFF")
    case True
    have IH: "Suc index \<le> skip_full bm (Suc index) k" "skip_full bm (Suc index) k \<le> Suc index + k"
      "\<forall>j. Suc index \<le> j \<and> j < skip_full bm (Suc index) k \<longrightarrow> bm j = 0xFF"
      "skip_full bm (Suc index) k < Suc index + k \<longrightarrow> bm (skip_full bm (Suc index) k) \<noteq> 0xFF"
      using Suc.IH [of "Suc index"] by auto
    have "bm j = 0xFF" if "index \<le> j" "j < skip_full bm (Suc index) k" for j
      using that True IH(3) by (cases "j = index") auto
    then show ?thesis using True IH by auto
  qed auto
qed auto

lemma skip_set_spec:
  "b \<le> skip_set c b k \<and> skip_set c b k \<le> b + k \<and>
   (\<forall>j. b \<le> j \<and> j < skip_set c b k \<longrightarrow> bit c j) \<and> (skip_set c b k < b + k \<longrightarrow> \<not> bit c (skip_set c b k))"
proof (induction k arbitrary: b)
  case (Suc k)
  show ?case
  proof (cases "bit c b")
    case True
    have IH: "Suc b \<le> skip_set c (Suc b) k" "skip_set c (Suc b) k \<le> Suc b + k"
      "\<forall>j. Suc b \<le> j \<and> j < skip_set c (Suc b) k \<longrightarrow> bit c j"
      "skip_set c (Suc b) k < Suc b + k \<longrightarrow> \<not> bit c (skip_set c (Suc b) k)"
      using Suc.IH [of "Suc b"] by auto
    have "bit c j" if "b \<le> j" "j < skip_set c (Suc b) k" for j
      using that True IH(3) by (cases "j = b") auto
    then show ?thesis using True IH by (auto simp: and_push_bit_1)
  qed (auto simp: and_push_bit_1)
qed auto

lemma byte_full: "c = 0xFF \<longleftrightarrow> (\<forall>k < 8. bit (c :: byte) k)"
proof -
  have "bit (0xFF :: byte) k" if "k < 8" for k
  proof -
    have m: "(0xFF :: byte) = mask 8" by (simp add: mask_eq_exp_minus_1)
    show ?thesis unfolding m bit_mask_iff using that by simp
  qed
  moreover have "c = 0xFF" if "\<forall>k < 8. bit c k"
    using that calculation by (intro bit_word_eqI) auto
  ultimately show ?thesis by auto
qed

lemma first_unset_bit_spec:
  "(\<forall>j < first_unset_bit bm. has_bit bm j) \<and> first_unset_bit bm \<le> 8 * RECV_BITMAP_SIZE \<and>
   (first_unset_bit bm < 8 * RECV_BITMAP_SIZE \<longrightarrow> \<not> has_bit bm (first_unset_bit bm))"
proof -
  let ?i = "skip_full bm 0 RECV_BITMAP_SIZE"
  note full = skip_full_spec [of 0 bm RECV_BITMAP_SIZE]
  have low: "has_bit bm j" if "j < ?i * 8" for j
  proof -
    have "j div 8 < ?i" using that by (simp add: less_mult_imp_div_less)
    then show ?thesis using full byte_full [of "bm (j div 8)"] by (simp add: has_bit_def)
  qed
  show ?thesis
  proof (cases "?i < RECV_BITMAP_SIZE")
    case False
    then have "?i = RECV_BITMAP_SIZE" using full by auto
    then show ?thesis using low by (simp add: first_unset_bit_def)
  next
    case True
    let ?b = "skip_set (bm ?i) 0 8"
    note sk = skip_set_spec [of 0 "bm ?i" 8]
    have "bm ?i \<noteq> 0xFF" using full True by simp
    then obtain k where k: "k < 8" "\<not> bit (bm ?i) k" using byte_full by blast
    then have b: "?b < 8" using sk by (metis add_0 not_less order_le_less zero_le)
    have at: "first_unset_bit bm = ?i * 8 + ?b" using True by (simp add: first_unset_bit_def Let_def)
    have "has_bit bm j" if "j < ?i * 8 + ?b" for j
    proof (cases "j < ?i * 8")
      case False
      then have "j div 8 = ?i" "j mod 8 = j - ?i * 8" using that b by (auto simp: div_nat_eqI mod_nat_eqI)
      then show ?thesis using sk that False by (simp add: has_bit_def)
    qed (rule low)
    moreover have "\<not> has_bit bm (?i * 8 + ?b)" using sk b by (simp add: has_bit_def)
    ultimately show ?thesis using at True b by simp
  qed
qed

end
