(* ===== verification/Fastboot_Session.thy ===== *)
theory Fastboot_Session
  imports Fastboot_Packet Number_Text
begin

text \<open>
  The state of the UDP fastboot (\<^verbatim>\<open>common/cmd_fastboot.c\<close>): the response being built, the packet
  buffer it is sent from, the sequence number, and the download session.  Memory is the 32-bit
  address space.  Progress output and the LED are left out.  A download is a number of data packets
  that may arrive in any order, more than once, truncated or not at all: a step relation over the two
  packet handlers, whose invariant says which bytes of the image are in memory.
\<close>

section \<open>State\<close>

datatype StatusCode = kStatusError | kStatusInfo | kStatusOkay | kStatusData

text \<open>\<open>message\<close> and the entries of \<open>info_msg\<close> are the C strings of their buffers; \<open>info_num\<close> is the
  length of the list.  \<open>sent\<close> collects the packets handed to the network.\<close>

record fb_state =
  status_code :: StatusCode
  message :: "byte list"
  info_index :: nat
  info_msg :: "byte list list"
  fb_download_flag :: bool
  dl_total :: u32
  dl_received :: u32
  dl_max_num :: u32
  dl_last_size :: u32
  fb_packet :: "byte list"
  last_resp_len :: nat
  fb_expected_seq :: u16
  download_addr :: u32
  fb_need_reset :: bool
  fb_need_halt :: bool
  receive_bitmap :: mem
  max_packet_len :: u16
  ram :: "u32 \<Rightarrow> byte"
  fastboot_running :: bool
  sent :: "byte list list"

definition FASTBOOT_RESPONSE_LEN :: nat where "FASTBOOT_RESPONSE_LEN = 65"
definition MAX_INFO_NUM :: nat where "MAX_INFO_NUM = 100"
definition MAX_DOWNLOAD_SIZE :: u32 where "MAX_DOWNLOAD_SIZE = 150 * 1024 * 1024"
definition INVALID_NUM :: u32 where "INVALID_NUM = 0xFFFFFFFF"
definition BARRIER_NUM :: int where "BARRIER_NUM = 1000"
definition PAYLOAD_SIZE :: u16 where "PAYLOAD_SIZE = 1400"

text \<open>Copying bytes to an address, and reading them back.\<close>

definition ram_write :: "(u32 \<Rightarrow> byte) \<Rightarrow> u32 \<Rightarrow> byte list \<Rightarrow> u32 \<Rightarrow> byte" where
  "ram_write r a xs = (\<lambda>x. if unat (x - a) < length xs then xs ! unat (x - a) else r x)"

definition ram_read :: "(u32 \<Rightarrow> byte) \<Rightarrow> u32 \<Rightarrow> nat \<Rightarrow> byte list" where
  "ram_read r a n = map (\<lambda>i. r (a + of_nat i)) [0..<n]"

section \<open>Responses\<close>

definition fb_init_resp :: "fb_state \<Rightarrow> fb_state" where
  "fb_init_resp s = s\<lparr>status_code := kStatusOkay, message := [], info_index := 0, info_msg := []\<rparr>"

definition fb_init :: "fb_state \<Rightarrow> fb_state" where
  "fb_init s = (fb_init_resp (s\<lparr>fb_download_flag := False, dl_total := 0, dl_received := 0, dl_max_num := 0,
     dl_last_size := 0, fb_need_reset := False, fb_need_halt := False\<rparr>))\<lparr>fastboot_running := True\<rparr>"

definition fb_set_resp :: "StatusCode \<Rightarrow> byte list \<Rightarrow> fb_state \<Rightarrow> fb_state" where
  "fb_set_resp code msg s =
     (if code = kStatusInfo then
        if length (info_msg s) < MAX_INFO_NUM
        then s\<lparr>info_msg := info_msg s @ [take (FASTBOOT_RESPONSE_LEN - 1) msg]\<rparr> else s
      else s\<lparr>status_code := code, message := take (FASTBOOT_RESPONSE_LEN - 1) msg\<rparr>)"

definition fastboot_info :: "byte list \<Rightarrow> fb_state \<Rightarrow> fb_state" where
  "fastboot_info reason s = (if \<not> fastboot_running s then s else fb_set_resp kStatusInfo reason s)"

definition fastboot_fail :: "byte list \<Rightarrow> fb_state \<Rightarrow> fb_state" where
  "fastboot_fail reason s = (if \<not> fastboot_running s then s else fb_set_resp kStatusError reason s)"

definition fastboot_okay :: "byte list \<Rightarrow> fb_state \<Rightarrow> fb_state" where
  "fastboot_okay info s = (if \<not> fastboot_running s then s else fb_set_resp kStatusOkay info s)"

text \<open>Overwriting part of the 65-byte packet buffer; \<open>None\<close> when the bytes do not fit.\<close>

definition put_packet :: "nat \<Rightarrow> byte list \<Rightarrow> fb_state \<Rightarrow> fb_state option" where
  "put_packet off xs s =
     (if off + length xs \<le> FASTBOOT_RESPONSE_LEN
      then Some (s\<lparr>fb_packet := take off (fb_packet s) @ xs @ drop (off + length xs) (fb_packet s)\<rparr>) else None)"

text \<open>\<open>fb_gen_resp\<close>: the response text, which is four letters and at most sixty bytes of the message,
  with its terminator.  It is written into \<open>fb_packet\<close> behind the header.\<close>

definition fb_resp_text :: "fb_state \<Rightarrow> byte list" where
  "fb_resp_text s =
     (if info_index s = length (info_msg s) then
        (case status_code s of kStatusError \<Rightarrow> cstr ''FAIL'' | kStatusData \<Rightarrow> cstr ''DATA'' | _ \<Rightarrow> cstr ''OKAY'') @
        take (FASTBOOT_RESPONSE_LEN - 4 - 1) (message s)
      else cstr ''INFO'' @ take (FASTBOOT_RESPONSE_LEN - 4 - 1) (info_msg s ! info_index s))"

definition fb_gen_resp :: "fb_state \<Rightarrow> fb_state option" where
  "fb_gen_resp s = do {
     s' \<leftarrow> put_packet kHeaderSize (fb_resp_text s @ [0]) s;
     Some (if info_index s = length (info_msg s) then s' else s'\<lparr>info_index := info_index s + 1\<rparr>) }"

definition fb_send :: "nat \<Rightarrow> fb_state \<Rightarrow> fb_state" where
  "fb_send len s = s\<lparr>sent := sent s @ [take len (fb_packet s)]\<rparr>"

text \<open>\<open>fb_udp_ack\<close>: the header of the packet with its flag cleared and the given number.\<close>

definition fb_udp_ack :: "byte list \<Rightarrow> u32 \<Rightarrow> fb_state \<Rightarrow> fb_state" where
  "fb_udp_ack pkt num s =
     fb_send kHeaderSize (s\<lparr>fb_packet := [pkt ! 0, 0, pkt ! 2, pkt ! 3] @ put_uint32 num @ drop 8 (fb_packet s),
       last_resp_len := kHeaderSize\<rparr>)"

definition fb_udp_error :: "u16 \<Rightarrow> fb_state \<Rightarrow> fb_state" where
  "fb_udp_error pktSeq s =
     (let p = header_set 0 pktSeq 0 INVALID_NUM @ cstr ''invalid packet'' in
      fb_send (length p) (s\<lparr>fb_packet := p @ replicate (FASTBOOT_RESPONSE_LEN - length p) 0, last_resp_len := length p\<rparr>))"

definition fb_resend_resp :: "u16 \<Rightarrow> fb_state \<Rightarrow> fb_state" where
  "fb_resend_resp pktSeq s =
     (if pktSeq = extract_uint16 (fb_packet s ! 2) (fb_packet s ! 3) then fb_send (last_resp_len s) s else s)"

section \<open>Downloads\<close>

definition hex8 :: "u32 \<Rightarrow> byte list" where
  "hex8 w = replicate (8 - length (print_num 16 (unat w))) 48 @ print_num 16 (unat w)"

text \<open>\<open>cmd_download_start\<close>: a packet length of zero makes the division undefined.\<close>

definition cmd_download_start :: "byte list \<Rightarrow> fb_state \<Rightarrow> fb_state option" where
  "cmd_download_start buffer s =
     (let size = simple_strtoul buffer 16; mpl = (ucast (max_packet_len s) :: u32) in
      if size = 0 then Some (fb_set_resp kStatusError (cstr ''data invalid size'') s)
      else if size > MAX_DOWNLOAD_SIZE then Some (fb_set_resp kStatusError (cstr ''data too large'') s)
      else if mpl = 0 then None
      else
        let s = fb_set_resp kStatusData (hex8 size) s;
            last = size mod mpl in
        Some (s\<lparr>fb_download_flag := True, dl_total := size, dl_received := 0,
          dl_last_size := (if last = 0 then mpl else last),
          dl_max_num := (if last = 0 then size div mpl else size div mpl + 1),
          receive_bitmap := (\<lambda>i. if i < RECV_BITMAP_SIZE then 0 else receive_bitmap s i),
          ram := ram_write (ram s) (download_addr s + size) [0]\<rparr>))"

text \<open>Storing the payload of data packet \<open>packet_num\<close>.  The offset \<open>packet_num * max_packet_len\<close> is
  computed in \<open>int\<close>.\<close>

definition store_payload :: "int \<Rightarrow> byte list \<Rightarrow> fb_state \<Rightarrow> fb_state option" where
  "store_payload packet_num payload s =
     (let off = packet_num * uint (max_packet_len s) in
      if off > INT_MAX then None
      else Some (s\<lparr>ram := ram_write (ram s) (download_addr s + of_int off) payload,
                   dl_received := dl_received s + of_nat (length payload)\<rparr>))"

definition cmd_download_cont :: "byte list \<Rightarrow> fb_state \<Rightarrow> fb_state option" where
  "cmd_download_cont pkt s =
     (let s = (if status_code s = kStatusData then fb_set_resp kStatusError (cstr ''download incomplete'') s else s);
          packet_num = sint (pkt_num pkt) in
      if length pkt \<noteq> kHeaderSize + unat (max_packet_len s) then Some s
      else
        let s = (if packet_num mod BARRIER_NUM = 0
                 then fb_udp_ack pkt (pkt_num pkt) (s\<lparr>fb_expected_seq := fb_expected_seq s + 1\<rparr>) else s) in
        do {
          got \<leftarrow> get_receive_bitmap (receive_bitmap s) packet_num;
          if got then Some s
          else do {
            bm \<leftarrow> set_receive_bitmap (receive_bitmap s) packet_num;
            store_payload packet_num (drop kHeaderSize pkt) (s\<lparr>receive_bitmap := bm\<rparr>) } })"

definition cmd_download_end :: "byte list \<Rightarrow> fb_state \<Rightarrow> fb_state option" where
  "cmd_download_end pkt s =
     (let num = pkt_num pkt; packet_num = sint num; payload = drop kHeaderSize pkt in do {
        is_received \<leftarrow> get_receive_bitmap (receive_bitmap s) packet_num;
        if (num = dl_max_num s - 1 \<and> length payload \<noteq> unat (dl_last_size s)) \<or>
           (num \<noteq> dl_max_num s - 1 \<and> length payload \<noteq> unat (max_packet_len s))
        then Some s
        else do {
          s \<leftarrow> (if is_received then Some s
               else do {
                 bm \<leftarrow> set_receive_bitmap (receive_bitmap s) packet_num;
                 store_payload packet_num payload (s\<lparr>receive_bitmap := bm\<rparr>) });
          let s = s\<lparr>fb_expected_seq := fb_expected_seq s + 1\<rparr>;
          Some (if dl_received s = dl_total s
                then (fb_udp_ack pkt INVALID_NUM (fb_set_resp kStatusOkay [] s))\<lparr>fb_download_flag := False\<rparr>
                else fb_udp_ack pkt (of_nat (first_unset_bit (receive_bitmap s))) s) } })"

section \<open>A download session\<close>

text \<open>The data packets of an image: the pieces of \<open>mpl\<close> bytes it is cut into.\<close>

definition chunk :: "byte list \<Rightarrow> nat \<Rightarrow> nat \<Rightarrow> byte list" where
  "chunk img mpl k = take mpl (drop (k * mpl) img)"

definition num_chunks :: "byte list \<Rightarrow> nat \<Rightarrow> nat" where
  "num_chunks img mpl = (length img + mpl - 1) div mpl"

text \<open>A packet that carries one of them, or a truncated one.\<close>

definition carries :: "byte list \<Rightarrow> nat \<Rightarrow> byte list \<Rightarrow> nat \<Rightarrow> bool" where
  "carries img mpl pkt k \<longleftrightarrow> k < num_chunks img mpl \<and> 8 \<le> length pkt \<and>
     pkt_num pkt = of_nat k \<and>
     (drop 8 pkt = chunk img mpl k \<or> length pkt < 8 + length (chunk img mpl k))"

text \<open>The session: any order, any repetition, any loss; each packet is handled as a continuation or
  as the end of a round, according to its flag.\<close>

inductive dl_step :: "byte list \<Rightarrow> fb_state \<Rightarrow> fb_state \<Rightarrow> bool" for img :: "byte list" where
  dl_cont: "fb_download_flag s \<Longrightarrow> carries img (unat (max_packet_len s)) pkt k \<Longrightarrow>
    cmd_download_cont pkt s = Some s' \<Longrightarrow> dl_step img s s'"
| dl_fin: "fb_download_flag s \<Longrightarrow> carries img (unat (max_packet_len s)) pkt k \<Longrightarrow>
    cmd_download_end pkt s = Some s' \<Longrightarrow> dl_step img s s'"

inductive dl_run :: "byte list \<Rightarrow> fb_state \<Rightarrow> fb_state \<Rightarrow> bool" for img :: "byte list" where
  dl_refl: "dl_run img s s"
| dl_more: "dl_run img s s' \<Longrightarrow> dl_step img s' s'' \<Longrightarrow> dl_run img s s''"

text \<open>The invariant: the bytes of the received pieces are in memory, and the counter is their
  number.\<close>

definition got_bytes :: "byte list \<Rightarrow> nat \<Rightarrow> mem \<Rightarrow> nat set" where
  "got_bytes img mpl bm = {i. i < length img \<and> has_bit bm (i div mpl)}"

definition in_memory :: "byte list \<Rightarrow> fb_state \<Rightarrow> bool" where
  "in_memory img s \<longleftrightarrow> (\<forall>i < length img. ram s (download_addr s + of_nat i) = img ! i)"

definition dl_ok :: "byte list \<Rightarrow> nat \<Rightarrow> bool" where
  "dl_ok img mpl \<longleftrightarrow> 0 < mpl \<and> mpl < 2 ^ 16 \<and> img \<noteq> [] \<and> length img \<le> unat MAX_DOWNLOAD_SIZE \<and>
     length img \<le> 8 * RECV_BITMAP_SIZE * mpl"

definition dl_inv :: "byte list \<Rightarrow> fb_state \<Rightarrow> bool" where
  "dl_inv img s \<longleftrightarrow> (let mpl = unat (max_packet_len s) in
     dl_ok img mpl \<and> unat (dl_total s) = length img \<and>
     unat (dl_max_num s) = num_chunks img mpl \<and>
     unat (dl_last_size s) = length (chunk img mpl (num_chunks img mpl - 1)) \<and>
     unat (dl_received s) = card (got_bytes img mpl (receive_bitmap s)) \<and>
     (\<forall>i \<in> got_bytes img mpl (receive_bitmap s). ram s (download_addr s + of_nat i) = img ! i))"

lemma length_chunk: "length (chunk img mpl k) = min mpl (length img - k * mpl)"
  by (simp add: chunk_def)

lemma num_chunks_less:
  assumes "0 < mpl"
  shows "k < num_chunks img mpl \<longleftrightarrow> k * mpl < length img"
proof -
  have "k < (length img + mpl - 1) div mpl \<longleftrightarrow> Suc k * mpl \<le> length img + mpl - 1"
    using assms by (metis Suc_le_eq less_eq_div_iff_mult_less_eq)
  also have "\<dots> \<longleftrightarrow> k * mpl < length img" using assms by auto
  finally show ?thesis by (simp add: num_chunks_def)
qed

lemma dl_ok_bounds:
  assumes "dl_ok img mpl" "k < num_chunks img mpl"
  shows "k < 8 * RECV_BITMAP_SIZE" "k * mpl + mpl < 2 ^ 31" "length img < 2 ^ 31" "k < 2 ^ 31"
proof -
  have k: "k * mpl < length img" and m: "0 < mpl" "mpl < 2 ^ 16"
    using assms num_chunks_less by (auto simp: dl_ok_def)
  have "length img \<le> 8 * RECV_BITMAP_SIZE * mpl" using assms(1) by (simp add: dl_ok_def)
  with k have "k * mpl < 8 * RECV_BITMAP_SIZE * mpl" by (rule less_le_trans)
  then show k8: "k < 8 * RECV_BITMAP_SIZE" by simp
  have "length img \<le> 157286400" using assms(1) by (simp add: dl_ok_def MAX_DOWNLOAD_SIZE_def)
  then show "k * mpl + mpl < 2 ^ 31" "length img < 2 ^ 31" using k m by auto
  show "k < 2 ^ 31" using k8 by (simp add: RECV_BITMAP_SIZE_def)
qed

lemma chunk_indices:
  assumes "0 < mpl"
  shows "{i. i < length img \<and> i div mpl = k} = {k * mpl..<k * mpl + length (chunk img mpl k)}"
proof (rule set_eqI)
  fix i
  have "i div mpl = k \<longleftrightarrow> k * mpl \<le> i \<and> i < k * mpl + mpl"
  proof
    assume "i div mpl = k"
    then show "k * mpl \<le> i \<and> i < k * mpl + mpl"
      using dividend_less_div_times [OF assms, of i] div_times_less_eq_dividend [of i mpl] by (simp add: add.commute)
  next
    assume "k * mpl \<le> i \<and> i < k * mpl + mpl"
    then show "i div mpl = k" by (intro div_nat_eqI) (simp_all add: mult.commute)
  qed
  moreover have "i < n \<and> c \<le> i \<and> i < c + mpl \<longleftrightarrow> c \<le> i \<and> i < c + min mpl (n - c)" for n c by linarith
  ultimately show "i \<in> {i. i < length img \<and> i div mpl = k} \<longleftrightarrow> i \<in> {k * mpl..<k * mpl + length (chunk img mpl k)}"
    unfolding length_chunk mem_Collect_eq atLeastLessThan_iff by (simp only:)
qed

lemma ram_write_at:
  assumes "n + length xs < 2 ^ 31" "i < 2 ^ 31"
  shows "ram_write r (a + of_nat n) xs (a + of_nat i) =
    (if n \<le> i \<and> i < n + length xs then xs ! (i - n) else r (a + of_nat i))"
proof -
  have d: "a + of_nat i - (a + of_nat n) = (of_nat i - of_nat n :: u32)" by simp
  have u: "unat (of_nat i :: u32) = i" "unat (of_nat n :: u32) = n" using assms by (simp_all add: unat_of_nat)
  have "unat (of_nat i - of_nat n :: u32) = (if n \<le> i then i - n else i + 2 ^ 32 - n)"
    using unat_sub_if' [of "of_nat i :: u32" "of_nat n"] unfolding u by simp
  then show ?thesis using assms unfolding ram_write_def d by auto
qed

text \<open>Receiving a new piece: the set of received bytes grows by exactly that piece.\<close>

lemma got_bytes_insert:
  assumes "0 < mpl" "\<forall>j. has_bit bm' j \<longleftrightarrow> j = k \<or> has_bit bm j" "\<not> has_bit bm k"
  shows "got_bytes img mpl bm' = got_bytes img mpl bm \<union> {k * mpl..<k * mpl + length (chunk img mpl k)}"
    and "card (got_bytes img mpl bm') = card (got_bytes img mpl bm) + length (chunk img mpl k)"
proof -
  have fin: "finite (got_bytes img mpl bm)" by (rule finite_subset [of _ "{..<length img}"]) (auto simp: got_bytes_def)
  have "got_bytes img mpl bm' = got_bytes img mpl bm \<union> {i. i < length img \<and> i div mpl = k}"
    using assms(2) by (auto simp: got_bytes_def)
  then show u: "got_bytes img mpl bm' = got_bytes img mpl bm \<union> {k * mpl..<k * mpl + length (chunk img mpl k)}"
    by (simp only: chunk_indices [OF assms(1)])
  have "got_bytes img mpl bm \<inter> {i. i < length img \<and> i div mpl = k} = {}"
    using assms(3) by (auto simp: got_bytes_def)
  then have "got_bytes img mpl bm \<inter> {k * mpl..<k * mpl + length (chunk img mpl k)} = {}"
    by (simp only: chunk_indices [OF assms(1)])
  then show "card (got_bytes img mpl bm') = card (got_bytes img mpl bm) + length (chunk img mpl k)"
    using fin unfolding u by (subst card_Un_disjoint) auto
qed

lemma got_bytes_card_le: "card (got_bytes img mpl bm) \<le> length img"
  using card_mono [of "{..<length img}" "got_bytes img mpl bm"] by (auto simp: got_bytes_def)

lemma got_all:
  assumes "card (got_bytes img mpl bm) = length img"
  shows "got_bytes img mpl bm = {..<length img}"
  using assms by (intro card_subset_eq) (auto simp: got_bytes_def)

lemma unat_add_of_nat: "unat a + c < 2 ^ 32 \<Longrightarrow> unat (a + of_nat c :: u32) = unat a + c"
  by (simp add: unat_word_ariths unat_of_nat)

text \<open>The invariant with the packet length named.\<close>

lemma dl_invD:
  assumes "dl_inv img s" "mpl = unat (max_packet_len s)"
  shows "dl_ok img mpl" "unat (dl_total s) = length img" "unat (dl_max_num s) = num_chunks img mpl"
    "unat (dl_last_size s) = length (chunk img mpl (num_chunks img mpl - 1))"
    "unat (dl_received s) = card (got_bytes img mpl (receive_bitmap s))"
    "\<And>i. i \<in> got_bytes img mpl (receive_bitmap s) \<Longrightarrow> ram s (download_addr s + of_nat i) = img ! i"
  using assms(1) unfolding dl_inv_def Let_def assms(2) by blast+

lemma dl_invI:
  assumes "mpl = unat (max_packet_len s)" "dl_ok img mpl" "unat (dl_total s) = length img"
    "unat (dl_max_num s) = num_chunks img mpl"
    "unat (dl_last_size s) = length (chunk img mpl (num_chunks img mpl - 1))"
    "unat (dl_received s) = card (got_bytes img mpl (receive_bitmap s))"
    "\<And>i. i \<in> got_bytes img mpl (receive_bitmap s) \<Longrightarrow> ram s (download_addr s + of_nat i) = img ! i"
  shows "dl_inv img s"
  using assms(2-) unfolding dl_inv_def Let_def assms(1) by blast

text \<open>What handling a packet leaves alone.\<close>

definition dl_frame :: "fb_state \<Rightarrow> fb_state \<Rightarrow> bool" where
  "dl_frame s s' \<longleftrightarrow> max_packet_len s' = max_packet_len s \<and> dl_total s' = dl_total s \<and>
     dl_max_num s' = dl_max_num s \<and> dl_last_size s' = dl_last_size s \<and> download_addr s' = download_addr s"

lemma stored_in_memory:
  assumes "dl_ok img mpl" "k < num_chunks img mpl" "i < length img"
    and "k * mpl \<le> i \<and> i < k * mpl + length (chunk img mpl k) \<or> r (a + of_nat i) = img ! i"
  shows "ram_write r (a + of_nat (k * mpl)) (chunk img mpl k) (a + of_nat i) = img ! i"
proof -
  note b = dl_ok_bounds [OF assms(1,2)]
  have cl: "k * mpl + length (chunk img mpl k) < 2 ^ 31" using b(2) by (simp add: length_chunk)
  have i: "i < 2 ^ 31" using assms(3) b(3) by simp
  show ?thesis
  proof (cases "k * mpl \<le> i \<and> i < k * mpl + length (chunk img mpl k)")
    case True
    then have "i - k * mpl < mpl" by (auto simp: length_chunk)
    then have "chunk img mpl k ! (i - k * mpl) = img ! i" using True assms(3) by (simp add: chunk_def)
    then show ?thesis using True unfolding ram_write_at [OF cl i] by simp
  next
    case False
    then show ?thesis using assms(4) unfolding ram_write_at [OF cl i] by (simp only: if_not_P simp_thms)
  qed
qed

text \<open>Storing a piece keeps the invariant.\<close>

lemma store_payload_inv:
  assumes inv: "dl_inv img s" and mpl: "mpl = unat (max_packet_len s)" and k: "k < num_chunks img mpl"
    and new: "\<not> has_bit (receive_bitmap s) k"
  shows "\<exists>bm s'. set_receive_bitmap (receive_bitmap s) (int k) = Some bm \<and>
    store_payload (int k) (chunk img mpl k) (s\<lparr>receive_bitmap := bm\<rparr>) = Some s' \<and>
    dl_inv img s' \<and> dl_frame s s' \<and> fb_download_flag s' = fb_download_flag s \<and>
    (\<forall>j. has_bit (receive_bitmap s') j \<longleftrightarrow> j = k \<or> has_bit (receive_bitmap s) j)"
proof -
  note d = dl_invD [OF inv mpl]
  have mpos: "0 < mpl" using d(1) by (simp add: dl_ok_def)
  note b = dl_ok_bounds [OF d(1) k]
  obtain bm where bm: "set_receive_bitmap (receive_bitmap s) (int k) = Some bm"
    "\<forall>j. has_bit bm j \<longleftrightarrow> j = k \<or> has_bit (receive_bitmap s) j"
    using set_receive_bitmap_nat [OF b(1)] by blast
  let ?c = "chunk img mpl k" and ?a = "download_addr s"
  let ?s' = "s\<lparr>receive_bitmap := bm, ram := ram_write (ram s) (?a + of_nat (k * mpl)) ?c,
    dl_received := dl_received s + of_nat (length ?c)\<rparr>"
  have off: "int k * uint (max_packet_len s) = int (k * mpl)" by (simp add: mpl)
  have "\<not> int (k * mpl) > INT_MAX" using b(2) by (simp add: INT_MAX_def del: of_nat_mult)
  then have st: "store_payload (int k) ?c (s\<lparr>receive_bitmap := bm\<rparr>) = Some ?s'"
    by (simp add: store_payload_def Let_def off del: of_nat_mult)
  note g = got_bytes_insert [OF mpos bm(2) new, of img]
  have mem: "ram_write (ram s) (?a + of_nat (k * mpl)) ?c (?a + of_nat i) = img ! i" if "i \<in> got_bytes img mpl bm" for i
  proof (rule stored_in_memory [OF d(1) k])
    show "i < length img" using that by (simp add: got_bytes_def)
    show "k * mpl \<le> i \<and> i < k * mpl + length ?c \<or> ram s (?a + of_nat i) = img ! i"
      using that d(6) unfolding g(1) by auto
  qed
  have "unat (dl_received s) + length ?c = card (got_bytes img mpl bm)"
    using g(2) d(5) by simp
  moreover have "card (got_bytes img mpl bm) < 2 ^ 32"
    using got_bytes_card_le [of img mpl bm] b(3) by simp
  ultimately have cnt: "unat (dl_received s + of_nat (length ?c)) = card (got_bytes img mpl bm)"
    using unat_add_of_nat [of "dl_received s" "length ?c"] by (simp only:)
  have sel: "max_packet_len ?s' = max_packet_len s" "dl_total ?s' = dl_total s" "dl_max_num ?s' = dl_max_num s"
    "dl_last_size ?s' = dl_last_size s" "receive_bitmap ?s' = bm" "download_addr ?s' = ?a"
    "ram ?s' = ram_write (ram s) (?a + of_nat (k * mpl)) ?c" "fb_download_flag ?s' = fb_download_flag s"
    "dl_received ?s' = dl_received s + of_nat (length ?c)"
    by simp_all
  have "dl_inv img ?s'"
    by (rule dl_invI [of mpl]) (simp_all only: sel mpl [symmetric] d(1-4) cnt mem)
  moreover have "dl_frame s ?s'" by (simp only: dl_frame_def sel simp_thms)
  moreover have "\<forall>j. has_bit (receive_bitmap ?s') j \<longleftrightarrow> j = k \<or> has_bit (receive_bitmap s) j"
    unfolding sel(5) by (rule bm(2))
  ultimately show ?thesis using bm(1) st sel(8) by blast
qed

text \<open>Responses and acknowledgements leave the session alone.\<close>

lemma dl_inv_cong:
  assumes "dl_frame s s'" "dl_received s' = dl_received s" "receive_bitmap s' = receive_bitmap s" "ram s' = ram s"
  shows "dl_inv img s' \<longleftrightarrow> dl_inv img s"
  using assms by (simp add: dl_inv_def dl_frame_def Let_def)

definition same_session :: "fb_state \<Rightarrow> fb_state \<Rightarrow> bool" where
  "same_session s s' \<longleftrightarrow> dl_frame s s' \<and> dl_received s' = dl_received s \<and> receive_bitmap s' = receive_bitmap s \<and>
     ram s' = ram s \<and> fb_download_flag s' = fb_download_flag s"

lemma same_sessionI [intro]:
  "same_session s (fb_set_resp c m s)" "same_session s (fb_udp_ack pkt n s)"
  "same_session s (s\<lparr>fb_expected_seq := q\<rparr>)"
  by (simp_all add: same_session_def dl_frame_def fb_set_resp_def fb_udp_ack_def fb_send_def)

lemma same_session_trans: "same_session s t \<Longrightarrow> same_session t u \<Longrightarrow> same_session s u"
  by (simp add: same_session_def dl_frame_def)

lemma same_session_inv: "same_session s t \<Longrightarrow> dl_inv img t \<longleftrightarrow> dl_inv img s"
  by (rule dl_inv_cong) (simp_all add: same_session_def)

lemma carries_num:
  assumes "dl_ok img mpl" "carries img mpl pkt k"
  shows "sint (pkt_num pkt) = int k" "unat (pkt_num pkt) = k"
proof -
  have k: "k < 2 ^ 31" "pkt_num pkt = of_nat k"
    using dl_ok_bounds(4) [OF assms(1)] assms(2) by (auto simp: carries_def)
  then show u: "unat (pkt_num pkt) = k" by (simp add: unat_of_nat)
  show "sint (pkt_num pkt) = int k"
    using k(1) unfolding k(2) by (simp add: signed_of_nat signed_take_bit_int_eq_self)
qed

text \<open>Recording a packet that is not there yet, or leaving one that is.\<close>

definition record_packet :: "int \<Rightarrow> byte list \<Rightarrow> fb_state \<Rightarrow> fb_state option" where
  "record_packet n payload s = do {
     got \<leftarrow> get_receive_bitmap (receive_bitmap s) n;
     if got then Some s
     else do {
       bm \<leftarrow> set_receive_bitmap (receive_bitmap s) n;
       store_payload n payload (s\<lparr>receive_bitmap := bm\<rparr>) } }"

lemma record_packet_inv:
  assumes inv: "dl_inv img s" and mpl: "mpl = unat (max_packet_len s)" and k: "k < num_chunks img mpl"
  shows "\<exists>s'. record_packet (int k) (chunk img mpl k) s = Some s' \<and> dl_inv img s' \<and> dl_frame s s' \<and>
    fb_download_flag s' = fb_download_flag s \<and>
    (\<forall>j. has_bit (receive_bitmap s') j \<longleftrightarrow> j = k \<or> has_bit (receive_bitmap s) j)"
proof -
  have got: "get_receive_bitmap (receive_bitmap s) (int k) = Some (has_bit (receive_bitmap s) k)"
    using dl_ok_bounds(1) [OF dl_invD(1) [OF inv mpl] k] by (rule get_receive_bitmap_nat)
  show ?thesis
  proof (cases "has_bit (receive_bitmap s) k")
    case True
    then show ?thesis using inv got by (auto simp: record_packet_def dl_frame_def)
  next
    case False
    show ?thesis using store_payload_inv [OF inv mpl k False] got False
      by (auto simp: record_packet_def simp del: of_nat_mult)
  qed
qed

lemma download_cont_inv:
  assumes inv: "dl_inv img s" and mpl: "mpl = unat (max_packet_len s)" and c: "carries img mpl pkt k"
  shows "\<exists>s'. cmd_download_cont pkt s = Some s' \<and> dl_inv img s' \<and> dl_frame s s' \<and>
    fb_download_flag s' = fb_download_flag s \<and>
    (\<forall>j. has_bit (receive_bitmap s') j \<longleftrightarrow> (j = k \<and> length pkt = 8 + mpl) \<or> has_bit (receive_bitmap s) j)"
proof -
  let ?s1 = "if status_code s = kStatusData then fb_set_resp kStatusError (cstr ''download incomplete'') s else s"
  let ?s2 = "if sint (pkt_num pkt) mod BARRIER_NUM = 0
    then fb_udp_ack pkt (pkt_num pkt) (?s1\<lparr>fb_expected_seq := fb_expected_seq ?s1 + 1\<rparr>) else ?s1"
  have s1: "same_session s ?s1" by (auto simp: same_session_def dl_frame_def fb_set_resp_def)
  then have s2: "same_session s ?s2" by (auto simp: same_session_def dl_frame_def fb_udp_ack_def fb_send_def)
  have ok: "dl_ok img mpl" and k: "k < num_chunks img mpl" using dl_invD(1) [OF inv mpl] c by (auto simp: carries_def)
  have m1: "max_packet_len ?s1 = max_packet_len s" using s1 by (simp add: same_session_def dl_frame_def)
  have run: "cmd_download_cont pkt s =
    (if length pkt \<noteq> kHeaderSize + mpl then Some ?s1 else record_packet (int k) (drop kHeaderSize pkt) ?s2)"
    unfolding cmd_download_cont_def Let_def m1 mpl [symmetric] record_packet_def carries_num(1) [OF ok c] ..
  show ?thesis
  proof (cases "length pkt = kHeaderSize + mpl")
    case False
    then show ?thesis
      using run s1 same_session_inv [OF s1] inv by (auto simp: same_session_def kHeaderSize_def)
  next
    case True
    have "drop 8 pkt = chunk img mpl k"
      using c True by (auto simp: carries_def kHeaderSize_def length_chunk)
    moreover have "dl_inv img ?s2" using same_session_inv [OF s2] inv by (simp only:)
    moreover have "mpl = unat (max_packet_len ?s2)" using s2 unfolding mpl by (simp only: same_session_def dl_frame_def)
    ultimately obtain s' where s': "record_packet (int k) (drop kHeaderSize pkt) ?s2 = Some s'" "dl_inv img s'"
      "dl_frame ?s2 s'" "fb_download_flag s' = fb_download_flag ?s2"
      "\<forall>j. has_bit (receive_bitmap s') j \<longleftrightarrow> j = k \<or> has_bit (receive_bitmap ?s2) j"
      using record_packet_inv [of img ?s2 mpl k] k unfolding kHeaderSize_def by metis
    have "dl_frame s s'" using s'(3) s2 unfolding same_session_def dl_frame_def by metis
    moreover have "fb_download_flag s' = fb_download_flag s" using s'(4) s2 unfolding same_session_def by metis
    moreover have "receive_bitmap ?s2 = receive_bitmap s" using s2 unfolding same_session_def by metis
    moreover have "cmd_download_cont pkt s = Some s'" using run s'(1) True by simp
    ultimately show ?thesis using s'(2,5) True by (intro exI [of _ s']) (simp add: kHeaderSize_def)
  qed
qed

lemma record_packet_sent: "record_packet n p s = Some s' \<Longrightarrow> sent s' = sent s"
  by (auto simp: record_packet_def store_payload_def Let_def split: if_splits bind_splits)

text \<open>The size test of \<open>cmd_download_end\<close> compares with the length of the piece.\<close>

lemma size_test:
  assumes inv: "dl_inv img s" and mpl: "mpl = unat (max_packet_len s)" and c: "carries img mpl pkt k"
  shows "(pkt_num pkt = dl_max_num s - 1 \<and> l \<noteq> unat (dl_last_size s)) \<or>
     (pkt_num pkt \<noteq> dl_max_num s - 1 \<and> l \<noteq> mpl) \<longleftrightarrow> l \<noteq> length (chunk img mpl k)"
proof -
  note d = dl_invD [OF inv mpl]
  have k: "k < num_chunks img mpl" using c by (simp add: carries_def)
  have "unat (dl_max_num s - 1) = num_chunks img mpl - 1"
    using d(3) k unat_sub_if' [of "dl_max_num s" 1] by simp
  then have last: "pkt_num pkt = dl_max_num s - 1 \<longleftrightarrow> k = num_chunks img mpl - 1"
    using carries_num(2) [OF d(1) c] by (metis word_unat_eq_iff)
  show ?thesis
  proof (cases "k = num_chunks img mpl - 1")
    case True
    then show ?thesis using last d(4) by simp
  next
    case False
    then have "Suc k < num_chunks img mpl" using k by linarith
    then have "Suc k * mpl < length img" using num_chunks_less d(1) by (simp add: dl_ok_def)
    then have "length (chunk img mpl k) = mpl" by (simp add: length_chunk)
    then show ?thesis using last False by simp
  qed
qed

text \<open>All pieces are there exactly when the byte counter has reached the total.\<close>

definition all_received :: "byte list \<Rightarrow> nat \<Rightarrow> mem \<Rightarrow> bool" where
  "all_received img mpl bm \<longleftrightarrow> (\<forall>j < num_chunks img mpl. has_bit bm j)"

lemma all_received_got:
  assumes "0 < mpl"
  shows "all_received img mpl bm \<longleftrightarrow> got_bytes img mpl bm = {..<length img}"
proof
  assume a: "all_received img mpl bm"
  have "has_bit bm (i div mpl)" if "i < length img" for i
  proof -
    have "i div mpl * mpl < length img" using that div_times_less_eq_dividend [of i mpl] by linarith
    then show ?thesis using a num_chunks_less [OF assms] by (simp add: all_received_def)
  qed
  then show "got_bytes img mpl bm = {..<length img}" by (auto simp: got_bytes_def)
next
  assume g: "got_bytes img mpl bm = {..<length img}"
  have "has_bit bm j" if "j < num_chunks img mpl" for j
  proof -
    have "j * mpl \<in> got_bytes img mpl bm" using that num_chunks_less [OF assms] unfolding g by simp
    then show ?thesis using assms by (simp add: got_bytes_def)
  qed
  then show "all_received img mpl bm" by (simp add: all_received_def)
qed

lemma complete_iff:
  assumes "dl_inv img s" "mpl = unat (max_packet_len s)"
  shows "dl_received s = dl_total s \<longleftrightarrow> all_received img mpl (receive_bitmap s)"
proof -
  note d = dl_invD [OF assms]
  have "dl_received s = dl_total s \<longleftrightarrow> card (got_bytes img mpl (receive_bitmap s)) = length img"
    using d(2,5) by (metis word_unat_eq_iff)
  also have "\<dots> \<longleftrightarrow> got_bytes img mpl (receive_bitmap s) = {..<length img}" using got_all by auto
  finally show ?thesis using all_received_got d(1) by (simp add: dl_ok_def)
qed

lemma all_received_in_memory:
  assumes "dl_inv img s" "mpl = unat (max_packet_len s)" "all_received img mpl (receive_bitmap s)"
  shows "in_memory img s"
  using dl_invD(1,6) [OF assms(1,2)] assms(3) all_received_got by (auto simp: in_memory_def dl_ok_def)

definition ack_packet :: "byte list \<Rightarrow> u32 \<Rightarrow> byte list" where
  "ack_packet pkt n = [pkt ! 0, 0, pkt ! 2, pkt ! 3] @ put_uint32 n"

lemma fb_udp_ack_sent: "sent (fb_udp_ack pkt n s) = sent s @ [ack_packet pkt n]"
  by (simp add: fb_udp_ack_def fb_send_def kHeaderSize_def ack_packet_def put_uint32_def)

text \<open>The answer to an accepted packet: the end of the download, or the first missing packet.\<close>

definition finish_round :: "byte list \<Rightarrow> fb_state \<Rightarrow> fb_state" where
  "finish_round pkt s =
     (let s = s\<lparr>fb_expected_seq := fb_expected_seq s + 1\<rparr> in
      if dl_received s = dl_total s
      then (fb_udp_ack pkt INVALID_NUM (fb_set_resp kStatusOkay [] s))\<lparr>fb_download_flag := False\<rparr>
      else fb_udp_ack pkt (of_nat (first_unset_bit (receive_bitmap s))) s)"

lemma download_end_run:
  assumes "dl_inv img s" "mpl = unat (max_packet_len s)" "carries img mpl pkt k"
  shows "cmd_download_end pkt s =
    (if drop 8 pkt \<noteq> chunk img mpl k then Some s
     else map_option (finish_round pkt) (record_packet (int k) (chunk img mpl k) s))"
proof -
  have ok: "dl_ok img mpl" and k: "k < num_chunks img mpl"
    using dl_invD(1) [OF assms(1,2)] assms(3) by (auto simp: carries_def)
  have got: "get_receive_bitmap (receive_bitmap s) (int k) = Some (has_bit (receive_bitmap s) k)"
    using dl_ok_bounds(1) [OF ok k] by (rule get_receive_bitmap_nat)
  have "length (drop 8 pkt) = length (chunk img mpl k) \<Longrightarrow> drop 8 pkt = chunk img mpl k"
    using assms(3) by (auto simp: carries_def)
  then have len: "length (drop 8 pkt) \<noteq> length (chunk img mpl k) \<longleftrightarrow> drop 8 pkt \<noteq> chunk img mpl k"
    by metis
  show ?thesis
    unfolding cmd_download_end_def Let_def carries_num(1) [OF ok assms(3)] got kHeaderSize_def assms(2) [symmetric]
      size_test [OF assms] len record_packet_def finish_round_def
    by (cases "has_bit (receive_bitmap s) k") (auto simp: map_option_bind bind_map_option split: bind_splits)
qed

lemma finish_round_inv:
  assumes inv: "dl_inv img s" and mpl: "mpl = unat (max_packet_len s)"
  shows "dl_inv img (finish_round pkt s) \<and> dl_frame s (finish_round pkt s) \<and>
    receive_bitmap (finish_round pkt s) = receive_bitmap s \<and> ram (finish_round pkt s) = ram s \<and>
    (if all_received img mpl (receive_bitmap s)
     then \<not> fb_download_flag (finish_round pkt s) \<and> status_code (finish_round pkt s) = kStatusOkay \<and>
       sent (finish_round pkt s) = sent s @ [ack_packet pkt INVALID_NUM]
     else fb_download_flag (finish_round pkt s) = fb_download_flag s \<and>
       sent (finish_round pkt s) = sent s @ [ack_packet pkt (of_nat (first_unset_bit (receive_bitmap s)))])"
proof -
  let ?t = "finish_round pkt s"
  have fr: "dl_frame s ?t \<and> dl_received ?t = dl_received s \<and> receive_bitmap ?t = receive_bitmap s \<and> ram ?t = ram s"
    by (simp add: finish_round_def dl_frame_def fb_udp_ack_def fb_send_def fb_set_resp_def Let_def)
  then have "dl_inv img ?t" using inv dl_inv_cong by metis
  moreover have "if all_received img mpl (receive_bitmap s)
     then \<not> fb_download_flag ?t \<and> status_code ?t = kStatusOkay \<and> sent ?t = sent s @ [ack_packet pkt INVALID_NUM]
     else fb_download_flag ?t = fb_download_flag s \<and>
       sent ?t = sent s @ [ack_packet pkt (of_nat (first_unset_bit (receive_bitmap s)))]"
    unfolding complete_iff [OF assms, symmetric]
    by (simp add: finish_round_def Let_def fb_udp_ack_sent) (simp add: fb_set_resp_def fb_udp_ack_def fb_send_def)
  ultimately show ?thesis using fr by blast
qed

lemma download_end_inv:
  assumes inv: "dl_inv img s" and mpl: "mpl = unat (max_packet_len s)" and c: "carries img mpl pkt k"
    and whole: "drop 8 pkt = chunk img mpl k"
  shows "\<exists>s'. cmd_download_end pkt s = Some s' \<and> dl_inv img s' \<and> dl_frame s s' \<and>
    (\<forall>j. has_bit (receive_bitmap s') j \<longleftrightarrow> j = k \<or> has_bit (receive_bitmap s) j) \<and>
    (if all_received img mpl (receive_bitmap s')
     then \<not> fb_download_flag s' \<and> status_code s' = kStatusOkay \<and> sent s' = sent s @ [ack_packet pkt INVALID_NUM]
     else fb_download_flag s' = fb_download_flag s \<and>
       sent s' = sent s @ [ack_packet pkt (of_nat (first_unset_bit (receive_bitmap s')))])"
proof -
  have k: "k < num_chunks img mpl" using c by (simp add: carries_def)
  obtain t where t: "record_packet (int k) (chunk img mpl k) s = Some t" "dl_inv img t" "dl_frame s t"
    "fb_download_flag t = fb_download_flag s" "\<forall>j. has_bit (receive_bitmap t) j \<longleftrightarrow> j = k \<or> has_bit (receive_bitmap s) j"
    using record_packet_inv [OF inv mpl k] by blast
  have m: "mpl = unat (max_packet_len t)" using t(3) mpl by (simp add: dl_frame_def)
  note f = finish_round_inv [OF t(2) m, of pkt]
  have "cmd_download_end pkt s = Some (finish_round pkt t)"
    using download_end_run [OF inv mpl c] whole t(1) by simp
  moreover have "dl_frame s (finish_round pkt t)" using f t(3) by (simp add: dl_frame_def)
  ultimately show ?thesis
    using f t(4,5) record_packet_sent [OF t(1)] by (intro exI [of _ "finish_round pkt t"]) (simp split: if_splits)
qed

text \<open>The start of a session.\<close>

lemma num_chunks_eq:
  assumes "0 < mpl"
  shows "num_chunks img mpl = (if length img mod mpl = 0 then length img div mpl else length img div mpl + 1)"
proof -
  have "length img + mpl - 1 = (length img div mpl) * mpl + (length img mod mpl + mpl - 1)"
    using assms div_mult_mod_eq [of "length img" mpl] by linarith
  then have "num_chunks img mpl = length img div mpl + (length img mod mpl + mpl - 1) div mpl"
    unfolding num_chunks_def using assms by (simp only: div_mult_self3 neq0_conv)
  moreover have "(r + mpl - 1) div mpl = (if r = 0 then 0 else 1)" if "r < mpl" for r
    using that assms by (auto simp: div_nat_eqI)
  ultimately show ?thesis using assms by simp
qed

lemma last_chunk:
  assumes "0 < mpl" "img \<noteq> []"
  shows "length (chunk img mpl (num_chunks img mpl - 1)) = (if length img mod mpl = 0 then mpl else length img mod mpl)"
proof (cases "length img mod mpl = 0")
  case True
  then have "length img = (length img div mpl) * mpl" by auto
  moreover from this have "0 < length img div mpl" using assms(2) by (metis length_greater_0_conv mult_eq_0_iff neq0_conv)
  ultimately have "length img - (length img div mpl - 1) * mpl = mpl"
    by (metis Suc_diff_1 add_diff_cancel_right' mult_Suc)
  then show ?thesis using True num_chunks_eq [OF assms(1), of img] by (simp add: length_chunk)
next
  case False
  have "length img - length img div mpl * mpl = length img mod mpl" by (simp add: minus_div_mult_eq_mod)
  moreover have "length img mod mpl < mpl" using assms(1) by simp
  ultimately show ?thesis using False num_chunks_eq [OF assms(1), of img] by (simp add: length_chunk)
qed

lemma download_start_inv:
  assumes ok: "dl_ok img (unat (max_packet_len s))" and n: "unat (simple_strtoul arg 16) = length img"
  shows "\<exists>s'. cmd_download_start arg s = Some s' \<and> dl_inv img s' \<and> fb_download_flag s' \<and> status_code s' = kStatusData \<and>
    max_packet_len s' = max_packet_len s \<and> download_addr s' = download_addr s \<and>
    (\<forall>j < num_chunks img (unat (max_packet_len s)). \<not> has_bit (receive_bitmap s') j)"
proof -
  define size where "size = simple_strtoul arg 16"
  define mpl where "mpl = unat (max_packet_len s)"
  define w where "w = (ucast (max_packet_len s) :: u32)"
  have "unat (max_packet_len s) < 2 ^ 16" using unsigned_less [of "max_packet_len s"] by simp
  then have uw: "unat w = mpl" by (simp add: w_def mpl_def unsigned_ucast_eq take_bit_nat_eq_self)
  have un: "unat size = length img" using n by (simp add: size_def)
  have okm: "dl_ok img mpl" using ok by (simp only: mpl_def)
  then have m: "0 < mpl" "img \<noteq> []" by (auto simp: dl_ok_def)
  have g: "size \<noteq> 0" "\<not> size > MAX_DOWNLOAD_SIZE" "w \<noteq> 0"
    using un uw okm by (auto simp: dl_ok_def word_less_nat_alt)
  let ?t = "fb_set_resp kStatusData (hex8 size) s"
  let ?bm = "\<lambda>i. if i < RECV_BITMAP_SIZE then 0 else receive_bitmap ?t i"
  let ?s' = "?t\<lparr>fb_download_flag := True, dl_total := size, dl_received := 0,
          dl_last_size := (if size mod w = 0 then w else size mod w),
          dl_max_num := (if size mod w = 0 then size div w else size div w + 1),
          receive_bitmap := ?bm, ram := ram_write (ram ?t) (download_addr ?t + size) [0]\<rparr>"
  have run: "cmd_download_start arg s = Some ?s'"
    using g by (simp add: cmd_download_start_def Let_def flip: size_def w_def)
  have fresh: "\<not> has_bit ?bm j" if "j < num_chunks img mpl" for j
    using dl_ok_bounds(1) [OF okm that] by (simp add: has_bit_def less_mult_imp_div_less mult.commute)
  have none: "got_bytes img mpl ?bm = {}"
  proof -
    have "\<not> has_bit ?bm (i div mpl)" if "i < length img" for i
    proof (rule fresh)
      have "i div mpl * mpl < length img" using that div_times_less_eq_dividend [of i mpl] by linarith
      then show "i div mpl < num_chunks img mpl" using num_chunks_less [OF m(1)] by simp
    qed
    then show ?thesis by (auto simp: got_bytes_def)
  qed
  have z: "size mod w = 0 \<longleftrightarrow> length img mod mpl = 0" by (simp add: unat_eq_zero [symmetric] unat_mod un uw del: unat_eq_zero)
  have d1: "unat (size div w + 1) = length img div mpl + 1" if "length img mod mpl \<noteq> 0"
  proof -
    have "length img \<le> 157286400" using okm by (simp add: dl_ok_def MAX_DOWNLOAD_SIZE_def)
    then have "length img < 2 ^ 31" by simp
    then have "length img div mpl < 2 ^ 31" by (rule le_less_trans [OF div_le_dividend])
    then show ?thesis using unat_add_of_nat [of "size div w" 1] by (simp add: unat_div un uw)
  qed
  have sel: "max_packet_len ?s' = max_packet_len s" "download_addr ?s' = download_addr s" "dl_total ?s' = size"
    "dl_received ?s' = 0" "receive_bitmap ?s' = ?bm" "fb_download_flag ?s'" "status_code ?s' = kStatusData"
    "dl_last_size ?s' = (if size mod w = 0 then w else size mod w)"
    "dl_max_num ?s' = (if size mod w = 0 then size div w else size div w + 1)"
    by (simp_all add: fb_set_resp_def)
  have "dl_inv img ?s'"
  proof (rule dl_invI [of mpl])
    show "unat (dl_max_num ?s') = num_chunks img mpl"
      using d1 unfolding sel z num_chunks_eq [OF m(1)] by (simp add: unat_div un uw)
    show "unat (dl_last_size ?s') = length (chunk img mpl (num_chunks img mpl - 1))"
      unfolding sel z last_chunk [OF m] by (simp add: unat_mod un uw)
  qed (simp_all only: sel mpl_def [symmetric] okm un none card.empty unat_0 empty_iff)
  moreover have "\<forall>j < num_chunks img mpl. \<not> has_bit (receive_bitmap ?s') j" unfolding sel(5) using fresh by blast
  ultimately show ?thesis using run sel(1,2,6,7) unfolding mpl_def [symmetric] by blast
qed

text \<open>A session of any packets, and a host that answers each acknowledgement with the packet it
  asks for.\<close>

lemma dl_step_inv:
  assumes "dl_step img s s'" "dl_inv img s"
  shows "dl_inv img s' \<and> dl_frame s s' \<and> (\<not> fb_download_flag s' \<longrightarrow> in_memory img s' \<and> status_code s' = kStatusOkay)"
  using assms(1)
proof (cases rule: dl_step.cases)
  case (dl_cont pkt k)
  then show ?thesis using download_cont_inv [OF assms(2) refl dl_cont(2)] by auto
next
  case (dl_fin pkt k)
  show ?thesis
  proof (cases "drop 8 pkt = chunk img (unat (max_packet_len s)) k")
    case False
    then show ?thesis using download_end_run [OF assms(2) refl dl_fin(2)] dl_fin assms(2) by (simp add: dl_frame_def)
  next
    case True
    then have s': "dl_inv img s'" "dl_frame s s'"
      "if all_received img (unat (max_packet_len s)) (receive_bitmap s')
       then \<not> fb_download_flag s' \<and> status_code s' = kStatusOkay else fb_download_flag s' = fb_download_flag s"
      using download_end_inv [OF assms(2) refl dl_fin(2)] dl_fin(3) by (auto split: if_splits)
    then show ?thesis
      using all_received_in_memory [OF s'(1) refl] dl_fin(1) by (auto simp: dl_frame_def split: if_splits)
  qed
qed

lemma dl_run_inv:
  assumes "dl_run img s s'" "dl_inv img s" "fb_download_flag s"
  shows "dl_inv img s' \<and> dl_frame s s' \<and> (\<not> fb_download_flag s' \<longrightarrow> in_memory img s' \<and> status_code s' = kStatusOkay)"
  using assms
proof (induction rule: dl_run.induct)
  case (dl_refl s)
  then show ?case by (simp add: dl_frame_def)
next
  case (dl_more s s' s'')
  then show ?case using dl_step_inv [OF dl_more.hyps(2)] by (auto simp: dl_frame_def)
qed

text \<open>No packet of the image makes the code fail.\<close>

lemma dl_step_total:
  assumes "dl_inv img s" "carries img (unat (max_packet_len s)) pkt k"
  shows "(\<exists>s'. cmd_download_cont pkt s = Some s') \<and> (\<exists>s'. cmd_download_end pkt s = Some s')"
  using download_cont_inv [OF assms(1) refl assms(2)] download_end_inv [OF assms(1) refl assms(2)]
    download_end_run [OF assms(1) refl assms(2)] by (cases "drop 8 pkt = chunk img (unat (max_packet_len s)) k") auto

definition data_packet :: "byte list \<Rightarrow> nat \<Rightarrow> u16 \<Rightarrow> byte \<Rightarrow> nat \<Rightarrow> byte list" where
  "data_packet img mpl sequence flag k = header_set 3 sequence flag (of_nat k) @ chunk img mpl k"

fun answer_acks :: "byte list \<Rightarrow> nat \<Rightarrow> fb_state \<Rightarrow> fb_state option" where
  "answer_acks img 0 s = Some s"
| "answer_acks img (Suc n) s =
     (if \<not> fb_download_flag s then Some s
      else Option.bind (cmd_download_end (data_packet img (unat (max_packet_len s)) (fb_expected_seq s) 0
             (first_unset_bit (receive_bitmap s))) s) (answer_acks img n))"

lemma header_set_fields:
  "pkt_id (header_set p q f n @ xs) = p" "pkt_flag (header_set p q f n @ xs) = f"
  "pkt_seq (header_set p q f n @ xs) = q" "pkt_num (header_set p q f n @ xs) = n"
  "length (header_set p q f n) = kHeaderSize"
  using extract_put_uint16 [of q] extract_put_uint32 [of n]
  by (simp_all add: pkt_id_def pkt_flag_def pkt_seq_def pkt_num_def header_set_def put_uint16_def put_uint32_def
      kHeaderSize_def)

lemma data_packet_carries:
  assumes "k < num_chunks img mpl"
  shows "carries img mpl (data_packet img mpl q f k) k" "drop 8 (data_packet img mpl q f k) = chunk img mpl k"
  using assms header_set_fields(4,5) by (simp_all add: carries_def data_packet_def kHeaderSize_def)

definition missing :: "byte list \<Rightarrow> nat \<Rightarrow> mem \<Rightarrow> nat set" where
  "missing img mpl bm = {j. j < num_chunks img mpl \<and> \<not> has_bit bm j}"

lemma first_missing:
  assumes "dl_ok img mpl" "\<not> all_received img mpl bm"
  shows "first_unset_bit bm \<in> missing img mpl bm" "\<forall>j \<in> missing img mpl bm. first_unset_bit bm \<le> j"
proof -
  obtain j where j: "j < num_chunks img mpl" "\<not> has_bit bm j" using assms(2) by (auto simp: all_received_def)
  note f = first_unset_bit_spec [of bm]
  have "first_unset_bit bm \<le> j" using f j(2) by (meson not_le)
  then show "first_unset_bit bm \<in> missing img mpl bm"
    using f j(1) dl_ok_bounds(1) [OF assms(1) j(1)] by (auto simp: missing_def)
  show "\<forall>j \<in> missing img mpl bm. first_unset_bit bm \<le> j"
    using f by (auto simp: missing_def intro: ccontr)
qed

lemma dl_run_front: "dl_run img s' s'' \<Longrightarrow> dl_step img s s' \<Longrightarrow> dl_run img s s''"
  by (induction rule: dl_run.induct) (auto intro: dl_run.intros)

lemma answer_acks_finishes:
  assumes "dl_inv img s" "mpl = unat (max_packet_len s)" "fb_download_flag s" "\<not> all_received img mpl (receive_bitmap s)"
    and "card (missing img mpl (receive_bitmap s)) = n"
  shows "\<exists>s'. answer_acks img n s = Some s' \<and> \<not> fb_download_flag s' \<and> in_memory img s' \<and> status_code s' = kStatusOkay \<and>
    download_addr s' = download_addr s \<and> dl_run img s s'"
  using assms
proof (induction n arbitrary: s)
  case 0
  then show ?case by (auto simp: missing_def all_received_def)
next
  case (Suc n)
  let ?k = "first_unset_bit (receive_bitmap s)"
  let ?p = "data_packet img mpl (fb_expected_seq s) 0 ?k"
  note ok = dl_invD(1) [OF Suc.prems(1,2)]
  have k: "?k < num_chunks img mpl" "?k \<in> missing img mpl (receive_bitmap s)"
    using first_missing [OF ok Suc.prems(4)] by (simp_all add: missing_def)
  obtain s' where s': "cmd_download_end ?p s = Some s'" "dl_inv img s'" "dl_frame s s'"
    "\<forall>j. has_bit (receive_bitmap s') j \<longleftrightarrow> j = ?k \<or> has_bit (receive_bitmap s) j"
    "all_received img mpl (receive_bitmap s') \<longrightarrow> \<not> fb_download_flag s' \<and> status_code s' = kStatusOkay"
    "\<not> all_received img mpl (receive_bitmap s') \<longrightarrow> fb_download_flag s' = fb_download_flag s"
    using download_end_inv [OF Suc.prems(1,2) data_packet_carries [OF k(1)]] by (metis (full_types))
  have m: "mpl = unat (max_packet_len s')" "download_addr s' = download_addr s"
    using s'(3) Suc.prems(2) by (simp_all add: dl_frame_def)
  have "missing img mpl (receive_bitmap s') = missing img mpl (receive_bitmap s) - {?k}"
    using s'(4) by (auto simp: missing_def)
  then have card: "card (missing img mpl (receive_bitmap s')) = n" using Suc.prems(5) k(2) by simp
  have run: "answer_acks img (Suc n) s = answer_acks img n s'"
    using Suc.prems(2,3) s'(1) by simp
  have stp: "dl_step img s s'"
    using Suc.prems(3) data_packet_carries(1) [OF k(1)] s'(1) unfolding Suc.prems(2) by (rule dl_fin)
  show ?case
  proof (cases "all_received img mpl (receive_bitmap s')")
    case True
    then have "answer_acks img n s' = Some s'" using s'(5) by (cases n) auto
    then show ?thesis using run True s'(5) all_received_in_memory [OF s'(2) m(1)] m(2) dl_run_front [OF dl_refl stp] by auto
  next
    case False
    then show ?thesis using Suc.IH [OF s'(2) m(1) _ False card] s'(6) Suc.prems(3) run m(2) dl_run_front [OF _ stp] by auto
  qed
qed

lemma in_memory_read: "in_memory img s \<Longrightarrow> ram_read (ram s) (download_addr s) (length img) = img"
  by (rule nth_equalityI) (simp_all add: in_memory_def ram_read_def)

text \<open>A concrete session for the witnesses: three bytes in packets of two.\<close>

definition demo_fb :: fb_state where
  "demo_fb = \<lparr>status_code = kStatusOkay, message = [], info_index = 0, info_msg = [], fb_download_flag = False,
     dl_total = 0, dl_received = 0, dl_max_num = 0, dl_last_size = 0, fb_packet = replicate 65 0, last_resp_len = 0,
     fb_expected_seq = 1, download_addr = 0x20200000, fb_need_reset = False, fb_need_halt = False,
     receive_bitmap = (\<lambda>_. 0), max_packet_len = 2, ram = (\<lambda>_. 0), fastboot_running = True, sent = []\<rparr>"

lemma demo_session:
  "dl_ok [1, 2, 3] (unat (max_packet_len demo_fb))" "unat (simple_strtoul (cstr ''3'') 16) = length [1 :: byte, 2, 3]"
  "num_chunks [1, 2, 3] (unat (max_packet_len demo_fb)) = 2"
  by (simp_all add: dl_ok_def demo_fb_def MAX_DOWNLOAD_SIZE_def RECV_BITMAP_SIZE_def simple_strtoul_def cstr_def
      xdigit_val_def num_chunks_def)

text \<open>When the response does not fit the packet buffer.\<close>

lemma fb_gen_resp_None:
  "fb_gen_resp s = None \<longleftrightarrow>
     52 < length (if info_index s = length (info_msg s) then message s else info_msg s ! info_index s)"
proof -
  have "length (cstr ''FAIL'') = 4" "length (cstr ''DATA'') = 4" "length (cstr ''OKAY'') = 4" "length (cstr ''INFO'') = 4"
    by (simp_all add: cstr_def)
  then have "length (fb_resp_text s) =
      4 + min 60 (length (if info_index s = length (info_msg s) then message s else info_msg s ! info_index s))"
    by (cases "status_code s") (simp_all add: fb_resp_text_def FASTBOOT_RESPONSE_LEN_def min.commute)
  then show ?thesis
    by (auto simp: fb_gen_resp_def put_packet_def FASTBOOT_RESPONSE_LEN_def kHeaderSize_def)
qed

section \<open>Properties\<close>

text \<open>C19: the download session.  Whatever packets of the image arrive, in whatever order, repeated,
  truncated or lost, as continuation or as last packet of a round: as long as the session is open
  the received pieces are in memory and the byte counter counts each of them once, and when the
  code closes the session it reports success and memory at the download address holds exactly the
  image.\<close>

theorem download_session_correct:
  assumes "dl_ok img (unat (max_packet_len s0))" "unat (simple_strtoul arg 16) = length img"
    and "cmd_download_start arg s0 = Some s1" "dl_run img s1 s"
  shows "dl_inv img s \<and> (\<not> fb_download_flag s \<longrightarrow>
    ram_read (ram s) (download_addr s0) (length img) = img \<and> status_code s = kStatusOkay)"
proof -
  have s1: "dl_inv img s1" "fb_download_flag s1" "download_addr s1 = download_addr s0"
    using download_start_inv [OF assms(1,2)] assms(3) by auto
  then have "download_addr s = download_addr s0" using dl_run_inv [OF assms(4)] by (simp add: dl_frame_def)
  then show ?thesis using dl_run_inv [OF assms(4) s1(1,2)] in_memory_read [of img s] by auto
qed


theorem download_session_correct_witness:
  "\<exists>s1 s. cmd_download_start (cstr ''3'') demo_fb = Some s1 \<and> dl_run [1, 2, 3] s1 s \<and>
     ram_read (ram s) 0x20200000 3 = [1, 2, 3]"
proof -
  obtain s1 where s1: "cmd_download_start (cstr ''3'') demo_fb = Some s1" "dl_inv [1, 2, 3] s1" "fb_download_flag s1"
    "max_packet_len s1 = max_packet_len demo_fb"
    "\<forall>j < num_chunks [1, 2, 3] (unat (max_packet_len demo_fb)). \<not> has_bit (receive_bitmap s1) j"
    using download_start_inv [OF demo_session(1,2)] by blast
  have "\<not> all_received [1, 2, 3] (unat (max_packet_len s1)) (receive_bitmap s1)"
    using s1(4,5) demo_session(3) by (auto simp: all_received_def intro: exI [of _ 0])
  then obtain s where s: "dl_run [1, 2, 3] s1 s" "\<not> fb_download_flag s"
    using answer_acks_finishes [OF s1(2) HOL.refl s1(3) _ HOL.refl] by blast
  have "download_addr demo_fb = 0x20200000" by (simp add: demo_fb_def)
  then show ?thesis
    using download_session_correct [OF demo_session(1,2) s1(1) s(1)] s s1(1)
    by (intro exI [of _ s1] exI [of _ s]) (simp add: numeral_3_eq_3)
qed


text \<open>C21: what a host can break.  The packet number of a data packet is not checked: one outside the
  bitmap, above 131071 or with its top bit set, makes both handlers address memory outside the
  bitmap, whatever the session; and a packet length of zero makes starting a download divide by
  zero.\<close>

theorem download_packet_number_unchecked:
  "(length pkt = kHeaderSize + unat (max_packet_len s) \<and> 131072 \<le> unat (pkt_num pkt) \<longrightarrow> cmd_download_cont pkt s = None) \<and>
   (131072 \<le> unat (pkt_num pkt) \<longrightarrow> cmd_download_end pkt s = None) \<and>
   (max_packet_len s = 0 \<and> 0 < simple_strtoul arg 16 \<and> simple_strtoul arg 16 \<le> MAX_DOWNLOAD_SIZE \<longrightarrow>
      cmd_download_start arg s = None)"
proof -
  have out: "get_receive_bitmap bm (sint (pkt_num pkt)) = None" if "131072 \<le> unat (pkt_num pkt)" for bm
  proof -
    have "uint x = sint x" if "0 \<le> sint x" "sint x < 131072" for x :: u32
    proof -
      have "uint (of_int (sint x) :: u32) = sint x"
        unfolding unsigned_of_int using that by (simp add: take_bit_int_eq_self)
      then show ?thesis by simp
    qed
    moreover have "131072 \<le> uint (pkt_num pkt)" using that unfolding uint_nat by linarith
    ultimately have "\<not> (0 \<le> sint (pkt_num pkt) \<and> sint (pkt_num pkt) < 131072)" by (metis not_le)
    then show ?thesis by (simp add: get_receive_bitmap_def bitmap_cell_def RECV_BITMAP_SIZE_def)
  qed
  have "cmd_download_cont pkt s = None" if "length pkt = kHeaderSize + unat (max_packet_len s)" "131072 \<le> unat (pkt_num pkt)"
    using that by (simp add: cmd_download_cont_def fb_set_resp_def Let_def out)
  moreover have "cmd_download_end pkt s = None" if "131072 \<le> unat (pkt_num pkt)"
    using that by (simp add: cmd_download_end_def Let_def out)
  moreover have "cmd_download_start arg s = None"
    if "max_packet_len s = 0" "0 < simple_strtoul arg 16" "simple_strtoul arg 16 \<le> MAX_DOWNLOAD_SIZE"
    using that by (simp add: cmd_download_start_def Let_def not_less [symmetric])
  ultimately show ?thesis by blast
qed

theorem download_packet_number_unchecked_witness:
  "cmd_download_cont (header_set 3 1 1 0x20000 @ [7, 7]) demo_fb = None \<and>
   cmd_download_end (header_set 3 1 0 0x20000 @ [7]) demo_fb = None \<and>
   cmd_download_start (cstr ''3'') (demo_fb\<lparr>max_packet_len := 0\<rparr>) = None"
proof -
  have "max_packet_len demo_fb = 2" by (simp add: demo_fb_def)
  then have "cmd_download_cont (header_set 3 1 1 0x20000 @ [7, 7]) demo_fb = None"
    using download_packet_number_unchecked [of "header_set 3 1 1 0x20000 @ [7, 7]" demo_fb] header_set_fields(4,5) by simp
  moreover have "cmd_download_end (header_set 3 1 0 0x20000 @ [7]) demo_fb = None"
    using download_packet_number_unchecked [of "header_set 3 1 0 0x20000 @ [7]" demo_fb] header_set_fields(4) by simp
  moreover have "simple_strtoul (cstr ''3'') 16 = 3"
    by (simp add: simple_strtoul_def cstr_def xdigit_val_def)
  ultimately show ?thesis
    using download_packet_number_unchecked [of _ "demo_fb\<lparr>max_packet_len := 0\<rparr>" "cstr ''3''"]
    by (simp add: MAX_DOWNLOAD_SIZE_def)
qed

text \<open>C22: the response buffer.  \<open>fb_gen_resp\<close> writes the four status letters, at most sixty bytes of
  the message and a terminator behind the eight header bytes of a 65-byte buffer: it stays inside
  the buffer exactly when the message has at most 52 bytes.\<close>

theorem fb_gen_resp_bounds:
  "fb_gen_resp s = None \<longleftrightarrow>
     52 < length (if info_index s = length (info_msg s) then message s else info_msg s ! info_index s)"
  by (rule fb_gen_resp_None)

text \<open>C23: the two loops of \<open>first_unset_bit\<close>, which skip whole bytes first, compute the least packet
  number the bitmap reports as not received, or the number of bits when all are set.\<close>

theorem first_unset_bit_least:
  "first_unset_bit bm = (LEAST n. n = 8 * RECV_BITMAP_SIZE \<or> get_receive_bitmap bm (int n) = Some False)"
proof (rule sym, rule Least_equality)
  note f = first_unset_bit_spec [of bm]
  show "first_unset_bit bm = 8 * RECV_BITMAP_SIZE \<or> get_receive_bitmap bm (int (first_unset_bit bm)) = Some False"
    using f get_receive_bitmap_nat [of "first_unset_bit bm" bm] by (auto simp: order_le_less)
  fix n assume n: "n = 8 * RECV_BITMAP_SIZE \<or> get_receive_bitmap bm (int n) = Some False"
  show "first_unset_bit bm \<le> n"
  proof (rule ccontr)
    assume "\<not> first_unset_bit bm \<le> n"
    then have "n < 8 * RECV_BITMAP_SIZE" "has_bit bm n" using f by auto
    then show False using n get_receive_bitmap_nat [of n bm] by simp
  qed
qed

end
