(* ===== verification/Fastboot_Cmd.thy ===== *)
theory Fastboot_Cmd
  imports Fastboot_Session Margo_Board
begin

text \<open>
  The commands of the UDP fastboot (\<^verbatim>\<open>common/cmd_fastboot.c\<close>): the OEM commands on IDME, variables,
  flashing, the script interpreter of \<open>flash:mscript\<close> (\<^verbatim>\<open>MstarApp/src/MsUtility.c\<close>), the dispatch table with
  its lockdown gate, and the packet handler.  The console interpreter and the MMC driver are
  parameters.
\<close>

section \<open>State and parameters\<close>

text \<open>The state the commands work on: the session, the IDME module, the environment, the console
  commands run so far, and the static variables of \<open>cmd_flash\<close> and \<open>get_partition_size\<close>.\<close>

record fb_world =
  fbs :: fb_state
  idm :: idme_state
  environ :: env
  console_log :: "byte list list"
  last_part_name :: "byte list"
  curr_mmc_dev :: int
  fb_udp_our_port :: nat

text \<open>A partition as the driver reports it: name, number of blocks, block size.\<close>

type_synonym partition = "byte list \<times> u32 \<times> u32"

text \<open>What the commands rely on: the board, the IDME storage, the console interpreter (\<open>run_command\<close>,
  which may change anything), and the MMC driver.  \<open>hw_parts\<close> are the partitions it reports before
  the first error.\<close>

record fb_hw =
  hw_board :: board
  hw_table :: "idme_init_values list"
  hw_malloc :: bool
  hw_emmc :: emmc
  hw_run :: "byte list \<Rightarrow> fb_world \<Rightarrow> int \<times> fb_world"
  hw_mmc_num :: int
  hw_mmc_found :: bool
  hw_mmc_known :: bool
  hw_parts :: "partition list"
  hw_calloc :: bool
  hw_dev_sboot :: "nat \<Rightarrow> byte list option"

definition on_fb :: "(fb_state \<Rightarrow> fb_state) \<Rightarrow> fb_world \<Rightarrow> fb_world" where
  "on_fb f w = w\<lparr>fbs := f (fbs w)\<rparr>"

definition run_command :: "fb_hw \<Rightarrow> byte list \<Rightarrow> fb_world \<Rightarrow> int \<times> fb_world" where
  "run_command hw c w = (case hw_run hw c w of (r, w') \<Rightarrow> (r, w'\<lparr>console_log := console_log w @ [c]\<rparr>))"

definition lockdown :: "fb_hw \<Rightarrow> fb_world \<Rightarrow> bool option" where
  "lockdown hw w = is_lockdown (hw_board hw) (idm w) (environ w)"

text \<open>\<open>sprintf\<close> into the 128-byte command buffer.\<close>

definition CMD_BUF :: nat where "CMD_BUF = 128"

definition cmd_text :: "byte list \<Rightarrow> byte list option" where
  "cmd_text t = (if length t < CMD_BUF then Some t else None)"

section \<open>OEM commands\<close>

fun fb_report :: "fb_event \<Rightarrow> fb_state \<Rightarrow> fb_state" where
  "fb_report (FB_INFO m) s = fastboot_info m s"
| "fb_report (FB_FAIL m) s = fastboot_fail m s"
| "fb_report (FB_OKAY m) s = fastboot_okay m s"

definition cmd_oem_idme :: "fb_hw \<Rightarrow> byte list \<Rightarrow> fb_world \<Rightarrow> fb_world option" where
  "cmd_oem_idme hw arg w = do {
     (r, ev, st) \<leftarrow> fastboot_idme (hw_table hw) (hw_malloc hw) (hw_emmc hw) arg (idm w);
     let w = on_fb (fold fb_report ev) (w\<lparr>idm := st\<rparr>);
     Some (on_fb (if r = 0 then fastboot_okay [] \<circ> fastboot_info (cstr ''idme done'')
                  else fastboot_fail (cstr ''idme fail'')) w) }"

definition isblank :: "byte \<Rightarrow> bool" where
  "isblank c \<longleftrightarrow> c = 32 \<or> c = 9"

text \<open>The byte at a pointer into a string: its first one, or the terminator.\<close>

definition peek :: "byte list \<Rightarrow> byte" where
  "peek s = (if s = [] then 0 else hd s)"

text \<open>\<open>bootmode_int\<close> is unsigned: a character below '0' becomes a large number.\<close>

definition cmd_oem_bootmode :: "fb_hw \<Rightarrow> byte list \<Rightarrow> fb_world \<Rightarrow> fb_world option" where
  "cmd_oem_bootmode hw arg w =
     (if arg = [] then Some (on_fb (fastboot_fail (cstr ''Must specify bootmode'')) w)
      else
        let arg = dropWhile isblank arg; bootmode_int = (ucast (peek arg) - 48 :: u32) in
        if uint bootmode_int > IDME_BOOTMODE_MAX
        then Some (on_fb (fastboot_fail (cstr ''invalid bootmode given'')) w)
        else do {
          (ret, st) \<leftarrow> idme_update_var_ex (hw_emmc hw) (Some (cstr ''bootmode'')) (Some (arg @ [0])) 1 (idm w);
          let w = w\<lparr>idm := st\<rparr>;
          Some (on_fb (if ret \<noteq> 0
            then fastboot_fail (snprintf_str 64 (cstr ''Could not set bootmode, error='' @ print_int ret))
            else fastboot_okay [] \<circ> fastboot_info (snprintf_str 64 (cstr ''bootmode set to '' @ [peek arg]))) w) })"

subsection \<open>Flags\<close>

type_synonym u64 = "64 word"

datatype flags_cmd_t = FLAGS_CMD_NONE | FLAGS_CMD_HELP | FLAGS_CMD_PRINT | FLAGS_CMD_SET
datatype flags_type_t = FLAGS_TYPE_NONE | FLAGS_TYPE_FOS | FLAGS_TYPE_DEV | FLAGS_TYPE_USR | FLAGS_TYPE_ALL
datatype flags_modifier_t = FLAGS_MOD_NONE | FLAGS_MOD_SET | FLAGS_MOD_ADD | FLAGS_MOD_REMOVE

definition ishexprefix :: "byte list \<Rightarrow> bool" where
  "ishexprefix s \<longleftrightarrow> 2 \<le> length s \<and> s ! 0 = 48 \<and> (s ! 1 = 120 \<or> s ! 1 = 88)"

definition issymprefix :: "byte list \<Rightarrow> bool" where
  "issymprefix s \<longleftrightarrow> s \<noteq> [] \<and> (starts_with s (cstr ''FOS_FLAGS_'') \<or> starts_with s (cstr ''DEV_FLAGS_'') \<or>
     starts_with s (cstr ''USR_FLAGS_''))"

definition hexval :: "byte \<Rightarrow> nat" where
  "hexval c =
     (if 48 \<le> c \<and> c \<le> 57 then unat c - 48
      else if 97 \<le> c \<and> c \<le> 102 then unat c - 97 + 10
      else if 65 \<le> c \<and> c \<le> 70 then unat c - 65 + 10
      else 0)"

definition isxdigit :: "byte \<Rightarrow> bool" where
  "isxdigit c \<longleftrightarrow> xdigit_val c \<noteq> None"

text \<open>\<open>atoull\<close>: the accumulator is an \<open>unsigned long long\<close> and wraps.\<close>

definition atoull :: "byte list \<Rightarrow> u64" where
  "atoull num =
     (if 2 \<le> length num \<and> num ! 0 = 48 \<and> num ! 1 = 120
      then fold (\<lambda>c v. v * 16 + of_nat (hexval c)) (takeWhile isxdigit (drop 2 num)) 0
      else fold (\<lambda>c v. v * 10 + of_nat (unat c - 48)) (takeWhile is_digit num) 0)"

definition getnumval :: "byte list \<Rightarrow> u64" where
  "getnumval s = (if s = [] then 0 else atoull (if ishexprefix s then s[1 := 120] else s))"

definition getsymval :: "byte list \<Rightarrow> u64" where
  "getsymval s = 0"

definition bootloader_is_locked :: bool where
  "bootloader_is_locked = False"

text \<open>The value loop: words separated by blanks or bars, combined by \<open>or\<close>.\<close>

definition word_end :: "byte \<Rightarrow> bool" where
  "word_end c \<longleftrightarrow> c = 124 \<or> isblank c"

function flag_values :: "byte list \<Rightarrow> u64 \<Rightarrow> u64" where
  "flag_values arg v =
     (if arg = [] then v
      else
        let arg = dropWhile isblank arg;
            cur = takeWhile (\<lambda>c. \<not> word_end c) arg;
            rest = dropWhile word_end (drop (length cur + 1) arg) in
        flag_values rest (v OR (if issymprefix cur then getsymval cur else getnumval cur)))"
  by auto
termination
proof (relation "measure (\<lambda>(arg, v). length arg)"; clarsimp simp: Let_def)
  fix arg :: "byte list"
  assume "arg \<noteq> []"
  have a: "length (dropWhile word_end xs) \<le> length xs" for xs by (rule length_dropWhile_le)
  have "length (dropWhile isblank arg) \<le> length arg" by (rule length_dropWhile_le)
  then show "length (dropWhile word_end (drop (Suc (length (takeWhile (\<lambda>c. \<not> word_end c) (dropWhile isblank arg))))
      (dropWhile isblank arg))) < length arg"
    using a [of "drop (Suc (length (takeWhile (\<lambda>c. \<not> word_end c) (dropWhile isblank arg)))) (dropWhile isblank arg)"]
      \<open>arg \<noteq> []\<close> by (cases arg) auto
qed

declare flag_values.simps [simp del]

text \<open>The type prefix and what follows it.\<close>

definition flags_type_of :: "byte list \<Rightarrow> flags_type_t \<times> byte list" where
  "flags_type_of arg =
     (if starts_with arg (cstr ''f:'') then (FLAGS_TYPE_FOS, drop 2 arg)
      else if starts_with arg (cstr ''fos:'') then (FLAGS_TYPE_FOS, drop 4 arg)
      else if starts_with arg (cstr ''fos_flags:'') then (FLAGS_TYPE_FOS, drop 10 arg)
      else if starts_with arg (cstr ''d:'') then (FLAGS_TYPE_DEV, drop 2 arg)
      else if starts_with arg (cstr ''dev:'') then (FLAGS_TYPE_DEV, drop 4 arg)
      else if starts_with arg (cstr ''dev_flags:'') then (FLAGS_TYPE_DEV, drop 10 arg)
      else if starts_with arg (cstr ''u:'') then (FLAGS_TYPE_USR, drop 2 arg)
      else if starts_with arg (cstr ''usr:'') then (FLAGS_TYPE_USR, drop 4 arg)
      else if starts_with arg (cstr ''usr_flags:'') then (FLAGS_TYPE_USR, drop 10 arg)
      else (FLAGS_TYPE_NONE, arg))"

definition flags_modifier_of :: "byte list \<Rightarrow> flags_modifier_t \<times> byte list" where
  "flags_modifier_of arg =
     (if peek arg = 43 then (FLAGS_MOD_ADD, tl arg)
      else if peek arg = 45 then (FLAGS_MOD_REMOVE, tl arg)
      else if peek arg = 61 then (FLAGS_MOD_SET, tl arg)
      else (FLAGS_MOD_SET, arg))"

definition print_type :: "flags_type_t \<Rightarrow> byte \<Rightarrow> flags_type_t" where
  "print_type ty c =
     (if bootloader_is_locked \<or> c = 117 \<or> c = 85 then FLAGS_TYPE_USR
      else if c = 102 \<or> c = 70 then FLAGS_TYPE_FOS
      else if c = 100 \<or> c = 68 then FLAGS_TYPE_DEV
      else if ty = FLAGS_TYPE_NONE then FLAGS_TYPE_FOS else ty)"

text \<open>The part of \<open>cmd_oem_flags\<close> up to \<open>parse_done\<close>.\<close>

definition parse_flags :: "byte list \<Rightarrow> flags_cmd_t \<times> flags_type_t \<times> flags_modifier_t \<times> u64" where
  "parse_flags arg =
     (if arg = []
      then (FLAGS_CMD_PRINT, if bootloader_is_locked then FLAGS_TYPE_USR else FLAGS_TYPE_FOS, FLAGS_MOD_NONE, 0)
      else if dropWhile isblank arg = [] then (FLAGS_CMD_PRINT, FLAGS_TYPE_NONE, FLAGS_MOD_SET, 0)
      else case flags_type_of (dropWhile isblank arg) of (ty, arg) \<Rightarrow>
        if dropWhile isblank arg = [] then (FLAGS_CMD_PRINT, ty, FLAGS_MOD_SET, 0)
        else case flags_modifier_of (dropWhile isblank arg) of (md, arg) \<Rightarrow>
          let arg = dropWhile isblank arg in
          if arg = [] then (FLAGS_CMD_PRINT, ty, md, 0)
          else if starts_with arg (cstr ''print'') \<or> starts_with arg (cstr ''PRINT'')
          then (FLAGS_CMD_PRINT, print_type ty (peek (dropWhile isblank (drop 5 arg))), FLAGS_MOD_NONE, 0)
          else if arg = cstr ''help'' \<or> arg = cstr ''HELP'' \<or> arg = cstr ''?''
          then (FLAGS_CMD_HELP, FLAGS_TYPE_NONE, FLAGS_MOD_NONE, 0)
          else (FLAGS_CMD_SET, ty, md, flag_values arg 0))"

definition target_flags :: "flags_type_t \<Rightarrow> byte list" where
  "target_flags ty = (case ty of FLAGS_TYPE_DEV \<Rightarrow> cstr ''dev_flags'' | FLAGS_TYPE_USR \<Rightarrow> cstr ''usr_flags''
     | _ \<Rightarrow> cstr ''fos_flags'')"

definition modify_flags :: "flags_modifier_t \<Rightarrow> u64 \<Rightarrow> u64 \<Rightarrow> u64" where
  "modify_flags md cur v =
     (case md of FLAGS_MOD_ADD \<Rightarrow> cur OR v | FLAGS_MOD_REMOVE \<Rightarrow> cur AND NOT v | _ \<Rightarrow> v)"

text \<open>The stored value: 16 bytes are read behind a \<open>0x\<close> prefix into a zeroed buffer.\<close>

definition current_flags :: "byte list \<Rightarrow> idme_state \<Rightarrow> u64 option" where
  "current_flags target st = do {
     (r, buf) \<leftarrow> idme_get_var_external target (Some (replicate 16 0)) 16 st;
     b \<leftarrow> buf;
     Some (atoull (cstr ''0x'' @ takeWhile (\<lambda>c. c \<noteq> 0) b)) }"

text \<open>\<open>%llx\<close> of the new value in a zeroed buffer of 19 bytes.\<close>

definition flags_text :: "u64 \<Rightarrow> byte list" where
  "flags_text v = snprintf_str 19 (print_num 16 (unat v))"

definition cmd_oem_flags :: "fb_hw \<Rightarrow> byte list \<Rightarrow> fb_world \<Rightarrow> fb_world option" where
  "cmd_oem_flags hw arg w =
     (case parse_flags arg of (cmd, ty, md, val) \<Rightarrow>
        if bootloader_is_locked \<and> cmd = FLAGS_CMD_SET
        then Some (on_fb (fastboot_fail (cstr ''oem flags command is restricted on locked hw'')) w)
        else let target = target_flags (if cmd = FLAGS_CMD_SET \<and> ty = FLAGS_TYPE_NONE then FLAGS_TYPE_FOS else ty) in do {
          cur \<leftarrow> current_flags target (idm w);
          case cmd of
            FLAGS_CMD_PRINT \<Rightarrow>
              Some (on_fb (fastboot_okay [] \<circ>
                fastboot_info (snprintf_str 64 (target @ cstr '' is 0x'' @ print_num 16 (unat cur) @ [10]))) w)
          | FLAGS_CMD_SET \<Rightarrow> do {
              let text = flags_text (modify_flags md cur val);
              (ret, st) \<leftarrow> idme_update_var_ex (hw_emmc hw) (Some target)
                (Some (text @ replicate (19 - length text) 0)) 18 (idm w);
              let w = w\<lparr>idm := st\<rparr>;
              Some (on_fb (if ret \<noteq> 0
                then fastboot_fail (snprintf_str 64 (cstr ''could not set '' @ target @ cstr '', error='' @ print_int ret))
                else fastboot_okay [] \<circ> fastboot_info (snprintf_str 64 (target @ cstr '' set to '' @ text))) w) }
          | _ \<Rightarrow>
              Some (on_fb (fastboot_fail (cstr ''Unhandled'') \<circ> fastboot_okay [] \<circ>
                fastboot_info (cstr ''oem flags [<type> <modifier>] <value>'')) w) })"

definition cmd_oem_relock :: "fb_hw \<Rightarrow> fb_world \<Rightarrow> fb_world option" where
  "cmd_oem_relock hw w = do {
     (ret, st) \<leftarrow> idme_update_var_ex (hw_emmc hw) (Some (cstr ''unlock_code''))
       (Some (replicate SIGNED_UNLOCK_CODE_LEN 0)) SIGNED_UNLOCK_CODE_LEN (idm w);
     let w = w\<lparr>idm := st\<rparr>;
     Some (if ret \<noteq> 0 then on_fb (fb_set_resp kStatusError (cstr ''relock failed'')) w else w) }"

section \<open>Reboot and variables\<close>

definition cmd_reboot :: "fb_world \<Rightarrow> fb_world" where
  "cmd_reboot w = on_fb (\<lambda>s. s\<lparr>fb_need_reset := True\<rparr>) w"

definition cmd_reboot_bootloader :: "fb_hw \<Rightarrow> fb_world \<Rightarrow> fb_world" where
  "cmd_reboot_bootloader hw w =
     (let w = snd (run_command hw (cstr ''setenv reboot-bootloader 1'') w);
          w = snd (run_command hw (cstr ''saveenv'') w) in
      on_fb (\<lambda>s. s\<lparr>fb_need_reset := True\<rparr>) w)"

text \<open>\<open>get_partition_size\<close>: the first partition whose name starts with the given one; the product
  of its fields is 32 bits wide.\<close>

fun find_partition :: "byte list \<Rightarrow> partition list \<Rightarrow> u32" where
  "find_partition name [] = 0"
| "find_partition name ((n, sz, blksz) # ps) = (if starts_with n name then sz * blksz else find_partition name ps)"

definition get_partition_size :: "fb_hw \<Rightarrow> byte list \<Rightarrow> fb_world \<Rightarrow> u32 \<times> fb_world" where
  "get_partition_size hw name w =
     (if curr_mmc_dev w < 0 \<and> \<not> hw_mmc_num hw > 0 then (0, w)
      else
        let w = (if curr_mmc_dev w < 0 then w\<lparr>curr_mmc_dev := 0\<rparr> else w) in
        if \<not> hw_mmc_found hw then (0, w)
        else if \<not> hw_mmc_known hw then (0, w)
        else (find_partition name (hw_parts hw), w))"

definition set_message :: "byte list \<Rightarrow> fb_world \<Rightarrow> fb_world" where
  "set_message m w = on_fb (\<lambda>s. s\<lparr>message := m\<rparr>) w"

definition DEFAULT_PARTITION_SIZE :: u32 where "DEFAULT_PARTITION_SIZE = 10 * 1024 * 1024"
definition DOWNLOAD_RESERVED :: u32 where "DOWNLOAD_RESERVED = 16 * 1024"

text \<open>\<open>cmd_getvar\<close>: the names are compared as prefixes, in the order of the source.\<close>

definition cmd_getvar :: "fb_hw \<Rightarrow> byte list \<Rightarrow> nat \<Rightarrow> fb_world \<Rightarrow> fb_world option" where
  "cmd_getvar hw buffer buffer_len w =
     (if buffer_len = 0 then Some (on_fb (fb_set_resp kStatusError (cstr ''Variable not specified'')) w)
      else if starts_with buffer (cstr ''version'') then Some (set_message (cstr ''0.4'') w)
      else if starts_with buffer (cstr ''production'') then Some (set_message (cstr ''Unknown'') w)
      else if starts_with buffer (cstr ''product'') then Some (set_message (cstr ''MARGO'') w)
      else if starts_with buffer (cstr ''serialno'') then do {
        (r, s) \<leftarrow> idme_string (idm w) (cstr ''serial'') 18;
        Some (set_message s w) }
      else if starts_with buffer (cstr ''max-download-size'')
      then Some (set_message (cstr ''0x'' @ hex8 (MAX_DOWNLOAD_SIZE - DOWNLOAD_RESERVED)) w)
      else if starts_with buffer (cstr ''partition-size:'') then
        (case get_partition_size hw (drop (length (cstr ''partition-size:'')) buffer) w of (n, w) \<Rightarrow>
           Some (set_message (cstr ''0x'' @ hex8 (if n \<noteq> 0 then n else DEFAULT_PARTITION_SIZE)) w))
      else if starts_with buffer (cstr ''partition-type:'') then Some (set_message (cstr ''Unknown'') w)
      else if starts_with buffer (cstr ''prod'') then
        Some (set_message (cstr (if amzn_target_device_type (hw_board hw) = AMZN_ENGINEERING_DEVICE then ''0'' else ''1'')) w)
      else if starts_with buffer (cstr ''secure'')
      then Some (set_message (cstr (if is_secure_cpu (hw_board hw) then ''1'' else ''0'')) w)
      else if starts_with buffer (cstr ''unlock_code'') then
        (case amzn_get_unlock_code (hw_board hw) UNLOCK_CODE_LEN of
           None \<Rightarrow> Some (on_fb (fb_set_resp kStatusError (cstr ''cannot get unlock code'')) w)
         | Some code \<Rightarrow> Some (set_message (snprintf_str FASTBOOT_RESPONSE_LEN code) w))
      else if starts_with buffer (cstr ''unlock_status'') then do {
        u \<leftarrow> amzn_device_is_unlocked (hw_board hw) (idm w);
        Some (set_message (cstr (if u then ''1'' else ''0'')) w) }
      else if starts_with buffer (cstr ''unlock_version'') then Some (set_message (cstr ''1'') w)
      else Some (on_fb (fb_set_resp kStatusError (cstr ''Variable not implemented'')) w))"

section \<open>Scripts\<close>

definition MAX_LINE_SIZE :: nat where "MAX_LINE_SIZE = 1024"

definition is_line_end :: "byte \<Rightarrow> bool" where
  "is_line_end c \<longleftrightarrow> c = 13 \<or> c = 10"

definition is_ignored_char :: "byte \<Rightarrow> bool" where
  "is_ignored_char c \<longleftrightarrow> c = 13 \<or> c = 10 \<or> c = 9 \<or> c = 32"

text \<open>The loop over the characters of a line, at most \<open>MAX_LINE_SIZE + 1\<close> of them: \<open>None\<close> when it
  found no end.\<close>

fun line_end_at :: "(u32 \<Rightarrow> byte) \<Rightarrow> u32 \<Rightarrow> nat \<Rightarrow> u32 option" where
  "line_end_at r p 0 = None"
| "line_end_at r p (Suc k) = (if is_line_end (r p) then Some p else line_end_at r (p + 1) k)"

text \<open>Skipping white space and comments; a comment that is too long ends the script.  The loop has
  no bound of its own, so not returning is \<open>None\<close>.\<close>

partial_function (option) strip_script :: "(u32 \<Rightarrow> byte) \<Rightarrow> u32 \<Rightarrow> ((u32 \<Rightarrow> byte) \<times> u32) option" where
  "strip_script r p =
     (if is_ignored_char (r p) then strip_script r (p + 1)
      else if r p = 35 then
        (case line_end_at r p (MAX_LINE_SIZE + 1) of
           None \<Rightarrow> Some (r(p + of_nat (MAX_LINE_SIZE + 1) := 37), p + of_nat (MAX_LINE_SIZE + 1))
         | Some q \<Rightarrow> strip_script r q)
      else Some (r, p))"

text \<open>\<open>get_script_next_line\<close>: the memory afterwards, and the line with the pointer behind it.\<close>

definition get_script_next_line ::
  "(u32 \<Rightarrow> byte) \<Rightarrow> u32 \<Rightarrow> ((u32 \<Rightarrow> byte) \<times> (byte list \<times> u32) option) option" where
  "get_script_next_line r p = do {
     (r, p) \<leftarrow> strip_script r p;
     if r p = 37 then Some (r, None)
     else case line_end_at r p (MAX_LINE_SIZE + 1) of
       None \<Rightarrow> Some (r, None)
     | Some q \<Rightarrow> Some (r(q := 0), Some (takeWhile (\<lambda>c. c \<noteq> 0) (ram_read r p (unat (q - p))), q + 1)) }"

partial_function (option) script_loop :: "fb_hw \<Rightarrow> bool \<Rightarrow> u32 \<Rightarrow> fb_world \<Rightarrow> (int \<times> fb_world) option" where
  "script_loop hw abort p w =
     Option.bind (get_script_next_line (ram (fbs w)) p) (\<lambda>(r, next).
       case next of
         None \<Rightarrow> Some (0, on_fb (\<lambda>s. s\<lparr>ram := r\<rparr>) w)
       | Some (line, q) \<Rightarrow>
           (case run_command hw line (on_fb (\<lambda>s. s\<lparr>ram := r\<rparr>) w) of (c, w) \<Rightarrow>
              if c = -1 \<and> abort then Some (-1, w) else script_loop hw abort q w))"

definition util_run_script :: "fb_hw \<Rightarrow> u32 \<Rightarrow> u32 \<Rightarrow> fb_world \<Rightarrow> (int \<times> fb_world) option" where
  "util_run_script hw buffer buffer_len w =
     (let abort = (case environ w (cstr ''CmdAbort'') of None \<Rightarrow> 1 | Some s \<Rightarrow> simple_strtol s 10) = 1 in
      script_loop hw abort buffer (on_fb (\<lambda>s. s\<lparr>ram := ram_write (ram s) (buffer + buffer_len) [10, 37]\<rparr>) w))"

section \<open>Flashing\<close>

definition cmd_erase :: "fb_hw \<Rightarrow> byte list \<Rightarrow> fb_world \<Rightarrow> fb_world option" where
  "cmd_erase hw buffer w = do {
     c \<leftarrow> cmd_text (cstr ''mmc erase.p '' @ buffer);
     Some (snd (run_command hw c w)) }"

text \<open>The commands that hand the download address to the console.\<close>

definition run_with_addr :: "fb_hw \<Rightarrow> string \<Rightarrow> fb_world \<Rightarrow> fb_world" where
  "run_with_addr hw c w = snd (run_command hw (cstr c @ cstr '' 0x'' @ hex8 (download_addr (fbs w))) w)"

text \<open>The downloaded bytes.\<close>

definition downloaded :: "nat \<Rightarrow> fb_world \<Rightarrow> byte list" where
  "downloaded n w = ram_read (ram (fbs w)) (download_addr (fbs w)) n"

definition flash_unlock :: "fb_hw \<Rightarrow> fb_world \<Rightarrow> fb_world option" where
  "flash_unlock hw w = do {
     v \<leftarrow> amzn_verify_unlock (hw_board hw)
       (if download_addr (fbs w) = 0 then None else Some (downloaded (unat (dl_received (fbs w))) w));
     if v \<noteq> 0 then Some (on_fb (fb_set_resp kStatusError (cstr ''unlock code error'')) w)
     else do {
       (ret, st) \<leftarrow> idme_update_var_ex (hw_emmc hw) (Some (cstr ''unlock_code''))
         (Some (downloaded SIGNED_UNLOCK_CODE_LEN w)) SIGNED_UNLOCK_CODE_LEN (idm w);
       let w = w\<lparr>idm := st\<rparr>;
       Some (if ret \<noteq> 0 then on_fb (fb_set_resp kStatusError (cstr ''unlock failed'')) w else w) } }"

text \<open>\<open>sboot_version_check\<close> takes the length as an \<open>int\<close>; one that turns negative ends its search at
  once.\<close>

definition flash_sboot :: "fb_hw \<Rightarrow> fb_world \<Rightarrow> fb_world option" where
  "flash_sboot hw w = do {
     let n = dl_received (fbs w);
     let a = download_addr (fbs w);
     v \<leftarrow> sboot_version_check (hw_board hw) (idm w) (hw_calloc hw) (hw_dev_sboot hw)
       (if a = 0 then None else Some (if sint n < 0 then [] else downloaded (unat n) w));
     Some (if v = SBVC_MATCH
       then snd (run_command hw (cstr ''mmc write.boot 1 0x'' @ hex8 a @ cstr '' 0 0x'' @ hex8 n) w)
       else if v = SBVC_MARK_NOT_FOUND \<or> v = SBVC_INVALID_CID \<or> v = SBVC_INVALID_DDR
       then on_fb (\<lambda>s. (fb_set_resp kStatusError (cstr ''invalid rom_emmc_boot image'') s)\<lparr>fb_need_halt := True\<rparr>) w
       else w) }"

text \<open>The write of an image: the partition is erased first when it is not the one of the previous
  command.\<close>

definition flash_image :: "fb_hw \<Rightarrow> byte list \<Rightarrow> nat \<Rightarrow> fb_world \<Rightarrow> fb_world option" where
  "flash_image hw buffer buffer_len w = do {
     let again = (buffer = last_part_name w);
     let lzo = (environ w (cstr ''flash_lzo'') \<noteq> None);
     w \<leftarrow> (if lzo
          then if \<not> again then cmd_erase hw buffer w else Some w
          else if \<not> again \<and> \<not> starts_with buffer (cstr ''MBOOT'') then cmd_erase hw buffer w else Some w);
     let a = cstr '' 0x'' @ hex8 (download_addr (fbs w));
     let n = cstr '' 0x'' @ hex8 (dl_received (fbs w));
     c \<leftarrow> cmd_text
       (if lzo
        then (if \<not> again then cstr ''mmc unlzo'' else cstr ''mmc unlzo.cont'') @ a @ n @ cstr '' '' @ buffer @ cstr '' 1''
        else cstr ''mmc write.p'' @ a @ cstr '' '' @ buffer @ n @ cstr '' 1'');
     Some ((snd (run_command hw c w))\<lparr>last_part_name := take buffer_len buffer\<rparr>) }"

text \<open>The characters \<open>simple_strtoul\<close> can look at: digits and the \<open>x\<close> of a prefix, up to the first
  other one.  A memory full of digits is never left.\<close>

partial_function (option) ram_token :: "(u32 \<Rightarrow> byte) \<Rightarrow> u32 \<Rightarrow> byte list option" where
  "ram_token r p =
     (if \<not> isxdigit (r p) \<and> r p \<noteq> 120 then Some []
      else Option.bind (ram_token r (p + 1)) (\<lambda>cs. Some (r p # cs)))"

definition cmd_flash :: "fb_hw \<Rightarrow> byte list \<Rightarrow> nat \<Rightarrow> fb_world \<Rightarrow> fb_world option" where
  "cmd_flash hw buffer buffer_len w =
     (if buffer_len = 0 then Some (on_fb (fb_set_resp kStatusError (cstr ''missing partition name'')) w)
      else if starts_with buffer (cstr ''unlock'') then flash_unlock hw w
      else do {
        l \<leftarrow> lockdown hw w;
        if l then Some (on_fb (fb_set_resp kStatusError (cstr ''command not supported in lockdown'')) w)
        else if starts_with buffer (cstr ''dl_addr'')
        then map_option (\<lambda>t. on_fb (\<lambda>s. s\<lparr>download_addr := simple_strtoul t 16\<rparr>) w)
               (ram_token (ram (fbs w)) (download_addr (fbs w)))
        else if starts_with buffer (cstr ''secure_info_boot'') then Some (run_with_addr hw ''store_secure_info bootSign'' w)
        else if starts_with buffer (cstr ''secure_info_recovery'') then Some (run_with_addr hw ''store_secure_info recoverySign'' w)
        else if starts_with buffer (cstr ''secure_info_tee'') then Some (run_with_addr hw ''store_secure_info teeSign'' w)
        else if starts_with buffer (cstr ''nuttx_config'') then Some (run_with_addr hw ''store_nuttx_config NuttxConfig'' w)
        else if starts_with buffer (cstr ''rom_emmc_boot'') then flash_sboot hw w
        else if starts_with buffer (cstr ''mscript'')
        then map_option snd (util_run_script hw (download_addr (fbs w)) (dl_received (fbs w)) w)
        else flash_image hw buffer buffer_len w })"

section \<open>Dispatch\<close>

datatype cmd_cb = Cb_reboot_bootloader | Cb_reboot | Cb_getvar | Cb_download_start | Cb_flash | Cb_erase
  | Cb_oem_idme | Cb_oem_bootmode | Cb_oem_flags | Cb_oem_relock

definition cmd_dispatch_info :: "(byte list \<times> cmd_cb) list" where
  "cmd_dispatch_info =
     [(cstr ''reboot-bootloader'', Cb_reboot_bootloader), (cstr ''reboot'', Cb_reboot), (cstr ''getvar:'', Cb_getvar),
      (cstr ''download:'', Cb_download_start), (cstr ''flash:'', Cb_flash), (cstr ''erase:'', Cb_erase),
      (cstr ''oem idme'', Cb_oem_idme), (cstr ''oem bootmode'', Cb_oem_bootmode), (cstr ''oem flags'', Cb_oem_flags),
      (cstr ''oem relock'', Cb_oem_relock)]"

definition find_cb :: "byte list \<Rightarrow> (byte list \<times> cmd_cb) option" where
  "find_cb cmdbuf = find (\<lambda>(c, cb). starts_with cmdbuf c) cmd_dispatch_info"

definition call_cb :: "fb_hw \<Rightarrow> cmd_cb \<Rightarrow> byte list \<Rightarrow> nat \<Rightarrow> fb_world \<Rightarrow> fb_world option" where
  "call_cb hw cb arg len w =
     (case cb of
        Cb_reboot_bootloader \<Rightarrow> Some (cmd_reboot_bootloader hw w)
      | Cb_reboot \<Rightarrow> Some (cmd_reboot w)
      | Cb_getvar \<Rightarrow> cmd_getvar hw arg len w
      | Cb_download_start \<Rightarrow> map_option (\<lambda>s. w\<lparr>fbs := s\<rparr>) (cmd_download_start arg (fbs w))
      | Cb_flash \<Rightarrow> cmd_flash hw arg len w
      | Cb_erase \<Rightarrow> cmd_erase hw arg w
      | Cb_oem_idme \<Rightarrow> cmd_oem_idme hw arg w
      | Cb_oem_bootmode \<Rightarrow> cmd_oem_bootmode hw arg w
      | Cb_oem_flags \<Rightarrow> cmd_oem_flags hw arg w
      | Cb_oem_relock \<Rightarrow> cmd_oem_relock hw w)"

text \<open>The callbacks a locked device still calls.\<close>

definition lockdown_cbs :: "cmd_cb list" where
  "lockdown_cbs = [Cb_reboot_bootloader, Cb_reboot, Cb_getvar, Cb_flash, Cb_download_start]"

definition fb_handler_command :: "fb_hw \<Rightarrow> byte list \<Rightarrow> fb_world \<Rightarrow> fb_world option" where
  "fb_handler_command hw buffer w =
     (let w = on_fb fb_init_resp w in
      if 1024 \<le> length buffer
      then Some (on_fb (\<lambda>s. s\<lparr>status_code := kStatusError, message := cstr ''command too long''\<rparr>) w)
      else
        let cmdbuf = takeWhile (\<lambda>c. c \<noteq> 0) buffer; cb = find_cb cmdbuf in do {
          l \<leftarrow> lockdown hw w;
          if l \<and> (case cb of None \<Rightarrow> True | Some (_, f) \<Rightarrow> f \<notin> set lockdown_cbs)
          then Some (on_fb (fb_set_resp kStatusError (cstr ''command not supported in lockdown'')) w)
          else case cb of
            None \<Rightarrow> Some (on_fb (fb_set_resp kStatusError (cstr ''unknown command'')) w)
          | Some (c, f) \<Rightarrow> call_cb hw f (drop (length c) cmdbuf) (length buffer - length c) w })"

section \<open>The packet handler\<close>

text \<open>After a rejected first-stage loader the handler halts instead of returning.\<close>

datatype fb_outcome = Returned fb_world | Halted fb_world

text \<open>Answers that start with the header of the packet, whose flag they keep, and carry \<open>INVALID_NUM\<close>.\<close>

definition answer :: "byte list \<Rightarrow> byte list \<Rightarrow> fb_state \<Rightarrow> fb_state" where
  "answer pkt body s =
     (let p = take 4 pkt @ put_uint32 INVALID_NUM @ body in
      fb_send (length p) (s\<lparr>fb_packet := p @ drop (length p) (fb_packet s), last_resp_len := length p\<rparr>))"

definition handle_init :: "byte list \<Rightarrow> fb_state \<Rightarrow> fb_state" where
  "handle_init pkt s =
     (if length pkt < kHeaderSize + 4 then fb_udp_error (pkt_seq pkt) s
      else
        let host = extract_uint16 (pkt ! 10) (pkt ! 11);
            mpl = (if host > PAYLOAD_SIZE then PAYLOAD_SIZE else host) - 8 in
        fb_init (answer pkt (put_uint16 1 @ put_uint16 (mpl + 8))
          (s\<lparr>max_packet_len := mpl, fb_expected_seq := fb_expected_seq s + 1\<rparr>)))"

text \<open>The status request: the response is written behind the copied header and sent up to its
  terminator.\<close>

definition send_status :: "byte list \<Rightarrow> fb_state \<Rightarrow> fb_state option" where
  "send_status pkt s = do {
     s \<leftarrow> put_packet 0 (take 4 pkt @ put_uint32 INVALID_NUM) (s\<lparr>fb_expected_seq := fb_expected_seq s + 1\<rparr>);
     let n = kHeaderSize + length (fb_resp_text s);
     s \<leftarrow> fb_gen_resp s;
     Some (fb_send n (s\<lparr>last_resp_len := n\<rparr>)) }"

definition handle_fastboot :: "fb_hw \<Rightarrow> byte list \<Rightarrow> fb_world \<Rightarrow> fb_outcome option" where
  "handle_fastboot hw pkt w =
     (if length pkt = kHeaderSize then do {
        s \<leftarrow> send_status pkt (fbs w);
        let w = w\<lparr>fbs := s\<rparr>;
        let w = (if fb_need_reset (fbs w) then snd (run_command hw (cstr ''reset'') w) else w);
        Some (if fb_need_halt (fbs w) then Halted w else Returned w) }
      else if fb_download_flag (fbs w) then
        map_option (\<lambda>s. Returned (w\<lparr>fbs := s\<rparr>))
          (if pkt_flag pkt \<noteq> 0 then cmd_download_cont pkt (fbs w) else cmd_download_end pkt (fbs w))
      else
        map_option Returned (fb_handler_command hw (drop kHeaderSize pkt)
          (on_fb (\<lambda>s. fb_udp_ack pkt INVALID_NUM (s\<lparr>fb_expected_seq := fb_expected_seq s + 1\<rparr>)) w)))"

definition fb_udp_handler :: "fb_hw \<Rightarrow> byte list \<Rightarrow> nat \<Rightarrow> fb_world \<Rightarrow> fb_outcome option" where
  "fb_udp_handler hw pkt dest w =
     (if dest \<noteq> fb_udp_our_port w \<or> length pkt < kHeaderSize then Some (Returned w)
      else if pkt_id pkt = 1 then Some (Returned (on_fb (\<lambda>s. answer pkt (put_uint16 (fb_expected_seq s)) s) w))
      else if pkt_id pkt = 2 then
        if pkt_seq pkt \<noteq> fb_expected_seq (fbs w) then Some (Returned (on_fb (fb_resend_resp (pkt_seq pkt)) w))
        else Some (Returned (on_fb (handle_init pkt) w))
      else if pkt_id pkt = 3 then
        if pkt_seq pkt \<noteq> fb_expected_seq (fbs w) then Some (Returned (on_fb (fb_resend_resp (pkt_seq pkt)) w))
        else handle_fastboot hw pkt w
      else Some (Returned (on_fb (fb_udp_error (pkt_seq pkt)) w)))"

text \<open>\<open>fb_udp_start\<close>: \<open>fresh\<close> is whether the bitmap is still to be allocated, \<open>calloc_ok\<close> whether
  that succeeds.\<close>

definition fb_udp_start :: "bool \<Rightarrow> bool \<Rightarrow> fb_world \<Rightarrow> fb_world" where
  "fb_udp_start fresh calloc_ok w =
     (if fresh \<and> \<not> calloc_ok then w
      else
        let w = (if fresh then on_fb (\<lambda>s. s\<lparr>receive_bitmap := (\<lambda>_. 0)\<rparr>) w else w);
            w = (case environ w (cstr ''fastboot_port'') of
               None \<Rightarrow> w | Some s \<Rightarrow> w\<lparr>fb_udp_our_port := unat (simple_strtoul s 10)\<rparr>) in
        on_fb fb_init w)"

section \<open>Lemmas\<close>

lemma on_fb_fields [simp]:
  "fbs (on_fb f w) = f (fbs w)" "idm (on_fb f w) = idm w" "environ (on_fb f w) = environ w" "console_log (on_fb f w) = console_log w"
  "last_part_name (on_fb f w) = last_part_name w" "fb_udp_our_port (on_fb f w) = fb_udp_our_port w"
  by (simp_all add: on_fb_def)

lemma lockdown_on_fb [simp]: "lockdown hw (on_fb f w) = lockdown hw w"
  by (simp add: lockdown_def)

lemma set_message_fields [simp]:
  "idm (set_message m w) = idm w" "console_log (set_message m w) = console_log w" "message (fbs (set_message m w)) = m"
  by (simp_all add: set_message_def)

lemma run_command_ran [simp]: "console_log (snd (run_command hw c w)) = console_log w @ [c]"
  by (simp add: run_command_def split: prod.split)

lemma run_command_idm: "idm (snd (run_command hw c w)) = idm (snd (hw_run hw c w))"
  by (simp add: run_command_def split: prod.split)

lemma get_partition_size_fields: "get_partition_size hw n w = (k, w') \<Longrightarrow> idm w' = idm w \<and> console_log w' = console_log w \<and> fbs w' = fbs w"
  by (auto simp: get_partition_size_def Let_def split: if_splits)

lemma cmd_getvar_frame:
  "cmd_getvar hw b n w = Some w' \<Longrightarrow> idm w' = idm w \<and> console_log w' = console_log w"
  unfolding cmd_getvar_def
  by (auto split: if_splits option.splits prod.splits bind_splits dest: get_partition_size_fields)

lemma flash_unlock_frame:
  "flash_unlock hw w = Some w' \<Longrightarrow> console_log w' = console_log w \<and> (idm w' = idm w \<or>
     amzn_verify_unlock (hw_board hw) (Some (downloaded (unat (dl_received (fbs w))) w)) = Some 0)"
  by (auto simp: flash_unlock_def amzn_verify_unlock_def amzn_verify_limited_unlock_def Let_def split: if_splits bind_splits)

lemma cmd_flash_lockdown:
  assumes "lockdown hw w = Some True" "cmd_flash hw b n w = Some w'"
  shows "console_log w' = console_log w \<and> (idm w' = idm w \<or>
     amzn_verify_unlock (hw_board hw) (Some (downloaded (unat (dl_received (fbs w))) w)) = Some 0)"
proof (cases "n = 0 \<or> \<not> starts_with b (cstr ''unlock'')")
  case True
  then show ?thesis using assms by (auto simp: cmd_flash_def split: if_splits)
next
  case False
  then show ?thesis using assms flash_unlock_frame by (simp add: cmd_flash_def)
qed

text \<open>What the console promises for the two commands a reboot runs.\<close>

definition env_only :: "fb_hw \<Rightarrow> bool" where
  "env_only hw \<longleftrightarrow> (\<forall>w. idm (snd (hw_run hw (cstr ''setenv reboot-bootloader 1'') w)) = idm w \<and>
     idm (snd (hw_run hw (cstr ''saveenv'') w)) = idm w)"

lemma cmd_reboot_bootloader_frame:
  "console_log (cmd_reboot_bootloader hw w) = console_log w @ [cstr ''setenv reboot-bootloader 1'', cstr ''saveenv'']"
  "env_only hw \<Longrightarrow> idm (cmd_reboot_bootloader hw w) = idm w"
  by (simp_all add: cmd_reboot_bootloader_def Let_def run_command_idm env_only_def)

lemma call_cb_lockdown:
  assumes "lockdown hw w = Some True" "env_only hw" "f \<in> set lockdown_cbs" "call_cb hw f arg n w = Some w'"
  shows "(console_log w' = console_log w \<or> console_log w' = console_log w @ [cstr ''setenv reboot-bootloader 1'', cstr ''saveenv'']) \<and>
    (idm w' = idm w \<or>
     amzn_verify_unlock (hw_board hw) (Some (downloaded (unat (dl_received (fbs w))) w)) = Some 0)"
proof -
  consider "f = Cb_reboot_bootloader" | "f = Cb_reboot" | "f = Cb_getvar" | "f = Cb_flash" | "f = Cb_download_start"
    using assms(3) by (auto simp: lockdown_cbs_def)
  then show ?thesis
  proof cases
    case 1
    then have "w' = cmd_reboot_bootloader hw w" using assms(4) by (simp add: call_cb_def)
    then show ?thesis using cmd_reboot_bootloader_frame assms(2) by simp
  next
    case 2
    then show ?thesis using assms(4) by (auto simp: call_cb_def cmd_reboot_def)
  next
    case 3
    then show ?thesis using assms(4) cmd_getvar_frame by (simp add: call_cb_def)
  next
    case 4
    then show ?thesis using assms(4) cmd_flash_lockdown [OF assms(1)] by (simp add: call_cb_def)
  next
    case 5
    then show ?thesis using assms(4) by (auto simp: call_cb_def)
  qed
qed

lemma downloaded_on_fb:
  "ram (f (fbs w)) = ram (fbs w) \<Longrightarrow> download_addr (f (fbs w)) = download_addr (fbs w) \<Longrightarrow>
   downloaded k (on_fb f w) = downloaded k w"
  by (simp add: downloaded_def)

lemma hexval_digit_char: "d < 16 \<Longrightarrow> hexval (digit_char d) = d" "d < 16 \<Longrightarrow> isxdigit (digit_char d)"
proof -
  have "\<forall>d \<in> set [0..<16]. hexval (digit_char d) = d \<and> isxdigit (digit_char d)" by code_simp
  then show "d < 16 \<Longrightarrow> hexval (digit_char d) = d" "d < 16 \<Longrightarrow> isxdigit (digit_char d)" by simp_all
qed

lemma fold_hexval:
  assumes "\<forall>d \<in> set ds. d < 16"
  shows "fold (\<lambda>c v. v * 16 + of_nat (hexval c)) (map digit_char ds) (0 :: u64) = of_nat (digits_value 16 ds)"
  using assms by (induction ds rule: rev_induct) (simp_all add: digits_value_snoc digits_value_def hexval_digit_char)

text \<open>Parsing the hexadecimal digits of a number, followed by anything that is no digit.\<close>

lemma atoull_hex:
  assumes "rest = [] \<or> \<not> isxdigit (hd rest)"
  shows "atoull (cstr ''0x'' @ print_num 16 n @ rest) = of_nat n"
proof -
  have d: "\<forall>d \<in> set (nat_digits 16 n). d < 16" using nat_digits_less [of 16] by auto
  then have "takeWhile isxdigit (print_num 16 n @ rest) = print_num 16 n"
    using assms hexval_digit_char(2) by (cases rest) (auto simp: print_num_def takeWhile_append)
  then show ?thesis using fold_hexval [OF d] by (simp add: atoull_def cstr_def print_num_def)
qed

text \<open>The IDME module in operation.\<close>

definition idme_up :: "idme_state \<Rightarrow> item list \<Rightarrow> bool" where
  "idme_up st its \<longleftrightarrow> pidme_data st \<and> idme_funcs st \<and> idme_rep (gidme_buff st) its \<and> version_2p1 (gidme_buff st)"

lemma idme_up_update:
  assumes "idme_up st its" "is_cstr n" "lookup_item its n = Some it" "min (length (idata it)) len \<le> length v"
    and "io_safe (dev (io_count st))"
  shows "\<exists>st'. idme_update_var_ex dev (Some n) (Some v) len st = Some (0, st') \<and>
    idme_up st' (modify_item its n (fit (take len v))) \<and>
    boot_part st' = written (dev (io_count st)) (gidme_buff st') (boot_part st) \<and> io_count st' = io_count st + 1"
  using idme_update_var_ex_rep [of st its n it len v dev] assms by (auto simp: idme_up_def)

lemma takeWhile_zeros: "takeWhile (\<lambda>c. c \<noteq> 0) (xs @ replicate k (0 :: byte)) = takeWhile (\<lambda>c. c \<noteq> 0) xs"
  by (induction xs; cases k) auto

lemma current_flags_up:
  assumes "idme_up st its" "is_cstr n" "lookup_item its n = Some it"
  shows "current_flags n st = Some (atoull (cstr ''0x'' @ takeWhile (\<lambda>c. c \<noteq> 0) (take 16 (idata it))))"
  using idme_get_var_refines [of "gidme_buff st" its n 16 "replicate 16 0"] assms
  by (simp add: current_flags_def idme_get_var_external_def pidme_def idme_up_def takeWhile_zeros)

lemma target_flags_cstr [simp]: "is_cstr (target_flags ty)"
  by (cases ty) (simp_all add: target_flags_def is_cstr_def cstr_def)

lemma digit_char_nonzero: "d < 16 \<Longrightarrow> digit_char d \<noteq> 0"
  using hexval_digit_char(2) [of d] by (auto simp: isxdigit_def xdigit_val_def)

lemma length_print_num_le: "0 < k \<Longrightarrow> n < 16 ^ k \<Longrightarrow> length (print_num 16 n) \<le> k"
  using length_nat_digits_le [of 16 k n] by (simp add: print_num_def)

lemma flags_text_eq: "flags_text v = print_num 16 (unat v)" "length (flags_text v) \<le> 16"
proof -
  have "length (print_num 16 (unat v)) \<le> 16"
    using length_print_num_le [of 16 "unat v"] unsigned_less [of v] by simp
  then show "flags_text v = print_num 16 (unat v)" "length (flags_text v) \<le> 16"
    by (simp_all add: flags_text_def snprintf_str_def)
qed

lemma print_num_nonzero: "\<forall>c \<in> set (print_num 16 n). c \<noteq> 0"
  using nat_digits_less [of 16] digit_char_nonzero by (auto simp: print_num_def)

text \<open>A value that fits the item reads back as written.\<close>

lemma flags_read_back:
  assumes "length (flags_text v) \<le> length d"
  shows "atoull (cstr ''0x'' @ takeWhile (\<lambda>c. c \<noteq> 0)
    (take 16 (fit (take 18 (flags_text v @ replicate (19 - length (flags_text v)) 0)) d))) = v"
proof -
  let ?t = "flags_text v"
  have "take 18 (?t @ replicate (19 - length ?t) 0) = ?t @ replicate (18 - length ?t) 0"
    using flags_text_eq(2) [of v] by simp
  then have "\<exists>k. take 16 (fit (take 18 (?t @ replicate (19 - length ?t) 0)) d) = ?t @ replicate k 0"
    using assms flags_text_eq(2) [of v] by (simp add: fit_def replicate_add [symmetric])
  then have "takeWhile (\<lambda>c. c \<noteq> 0) (take 16 (fit (take 18 (?t @ replicate (19 - length ?t) 0)) d)) = ?t"
    using print_num_nonzero [of "unat v"] by (auto simp: takeWhile_zeros flags_text_eq(1))
  then show ?thesis using atoull_hex [of "[]" "unat v"] by (simp add: flags_text_eq(1))
qed

text \<open>What a set command stores, and what then reads back.\<close>

lemma cmd_oem_flags_set:
  assumes "idme_up (idm w) its" "parse_flags arg = (FLAGS_CMD_SET, ty, md, v)"
    and "lookup_item its (target_flags ty) = Some it" "current_flags (target_flags ty) (idm w) = Some cur"
    and "io_safe (hw_emmc hw (io_count (idm w)))"
  shows "\<exists>w' its'. cmd_oem_flags hw arg w = Some w' \<and> idme_up (idm w') its' \<and>
    current_flags (target_flags ty) (idm w') = Some (atoull (cstr ''0x'' @ takeWhile (\<lambda>c. c \<noteq> 0)
       (take 16 (fit (take 18 (flags_text (modify_flags md cur v) @
         replicate (19 - length (flags_text (modify_flags md cur v))) 0)) (idata it))))) \<and>
    (\<forall>n. n \<noteq> target_flags ty \<longrightarrow> lookup_item its' n = lookup_item its n) \<and>
    (fastboot_running (fbs w) \<longrightarrow> status_code (fbs w') = kStatusOkay) \<and> console_log w' = console_log w"
proof -
  let ?n = "target_flags ty" and ?new = "modify_flags md cur v"
  let ?b = "flags_text ?new @ replicate (19 - length (flags_text ?new)) 0"
  let ?its' = "modify_item its ?n (fit (take 18 ?b))"
  have "min (length (idata it)) 18 \<le> length ?b" using flags_text_eq(2) [of ?new] by simp
  then obtain st' where st': "idme_update_var_ex (hw_emmc hw) (Some ?n) (Some ?b) 18 (idm w) = Some (0, st')"
    "idme_up st' ?its'"
    using idme_up_update [of "idm w" its ?n it 18 ?b "hw_emmc hw"] assms(1,3,5) by auto
  have tgt: "target_flags (if FLAGS_CMD_SET = FLAGS_CMD_SET \<and> ty = FLAGS_TYPE_NONE then FLAGS_TYPE_FOS else ty) = ?n"
    by (cases ty) (simp_all add: target_flags_def)
  let ?w' = "on_fb (fastboot_okay [] \<circ> fastboot_info (snprintf_str 64 (?n @ cstr '' set to '' @ flags_text ?new)))
    (w\<lparr>idm := st'\<rparr>)"
  have run: "cmd_oem_flags hw arg w = Some ?w'"
    unfolding cmd_oem_flags_def assms(2) prod.case Let_def tgt assms(4) bootloader_is_locked_def
    by (simp add: st'(1))
  have "lookup_item ?its' ?n = Some (it\<lparr>idata := fit (take 18 ?b) (idata it)\<rparr>)"
    using assms(3) by (simp add: lookup_modify)
  note rd = current_flags_up [OF st'(2) target_flags_cstr this]
  have "fastboot_running (fbs w) \<longrightarrow> status_code (fbs ?w') = kStatusOkay"
    by (simp add: fastboot_okay_def fastboot_info_def fb_set_resp_def)
  then show ?thesis
    using run st'(2) rd by (intro exI [of _ ?w'] exI [of _ ?its']) (simp add: lookup_modify)
qed

lemma take_nat_digits:
  "2 \<le> b \<Longrightarrow> 0 < k \<Longrightarrow> k \<le> length (nat_digits b n) \<Longrightarrow>
   take k (nat_digits b n) = nat_digits b (n div b ^ (length (nat_digits b n) - k))"
proof (induction b n rule: nat_digits.induct)
  case (1 b n)
  show ?case
  proof (cases "k = length (nat_digits b n)")
    case False
    have "\<not> n < b" using False 1(3,4) nat_digits.simps [of b n] by (auto split: if_splits)
    then have d: "nat_digits b n = nat_digits b (n div b) @ [n mod b]" using 1(2) nat_digits.simps [of b n] by simp
    have k: "k \<le> length (nat_digits b (n div b))" using False 1(4) unfolding d by auto
    have l: "length (nat_digits b n) - k = Suc (length (nat_digits b (n div b)) - k)" using k unfolding d by auto
    have "take k (nat_digits b n) = take k (nat_digits b (n div b))" unfolding d using k by simp
    also have "\<dots> = nat_digits b (n div b div b ^ (length (nat_digits b (n div b)) - k))"
      using 1(1) [OF _ 1(2,3) k] \<open>\<not> n < b\<close> 1(2) by simp
    finally show ?thesis unfolding l by (simp add: div_mult2_eq)
  qed simp
qed


lemma flag_values_word:
  assumes "arg \<noteq> []" "\<forall>c \<in> set arg. \<not> word_end c" "\<not> issymprefix arg"
  shows "flag_values arg v = v OR getnumval arg"
proof -
  have d: "dropWhile isblank arg = arg" using assms(1,2) by (cases arg) (auto simp: word_end_def)
  have t: "takeWhile (\<lambda>c. \<not> word_end c) arg = arg" using assms(2) by simp
  have "flag_values arg v = flag_values (dropWhile word_end (drop (length arg + 1) arg)) (v OR getnumval arg)"
    by (subst flag_values.simps) (simp only: Let_def d t assms if_False)
  also have "dropWhile word_end (drop (length arg + 1) arg) = []" by simp
  also have "flag_values [] (v OR getnumval arg) = v OR getnumval arg" by (subst flag_values.simps) (simp only: if_True simp_thms)
  finally show ?thesis .
qed

lemma parse_flags_example:
  "parse_flags (cstr ''d:+0x11'') = (FLAGS_CMD_SET, FLAGS_TYPE_DEV, FLAGS_MOD_ADD, 17)"
proof -
  have "flag_values (cstr ''0x11'') 0 = 0 OR getnumval (cstr ''0x11'')"
    by (rule flag_values_word)
      (simp_all add: cstr_def word_end_def isblank_def issymprefix_def starts_with_def strncmp_eq_def)
  also have "\<dots> = 17"
    by (simp add: getnumval_def ishexprefix_def atoull_def cstr_def isxdigit_def xdigit_val_def hexval_def)
  finally have "flag_values (cstr ''0x11'') 0 = 17" .
  moreover have "flags_type_of (cstr ''d:+0x11'') = (FLAGS_TYPE_DEV, cstr ''+0x11'')"
    by (simp add: flags_type_of_def cstr_def starts_with_def strncmp_eq_def)
  moreover have "flags_modifier_of (cstr ''+0x11'') = (FLAGS_MOD_ADD, cstr ''0x11'')"
    by (simp add: flags_modifier_of_def cstr_def peek_def)
  moreover have "dropWhile isblank (cstr ''0x11'') = cstr ''0x11''" "dropWhile isblank (cstr ''+0x11'') = cstr ''+0x11''"
    "dropWhile isblank (cstr ''d:+0x11'') = cstr ''d:+0x11''" "cstr ''0x11'' \<noteq> []" "cstr ''+0x11'' \<noteq> []" "cstr ''d:+0x11'' \<noteq> []"
    "\<not> starts_with (cstr ''0x11'') (cstr ''print'')" "\<not> starts_with (cstr ''0x11'') (cstr ''PRINT'')"
    "cstr ''0x11'' \<noteq> cstr ''help''" "cstr ''0x11'' \<noteq> cstr ''HELP''" "cstr ''0x11'' \<noteq> cstr ''?''"
    by (simp_all add: cstr_def isblank_def starts_with_def strncmp_eq_def)
  ultimately show ?thesis unfolding parse_flags_def Let_def by (simp only: prod.case if_False simp_thms)
qed

text \<open>A concrete board, console and session for the witnesses.\<close>

definition demo_hw :: fb_hw where
  "demo_hw = \<lparr>hw_board = demo_board, hw_table = idme_default_values, hw_malloc = True, hw_emmc = good_emmc,
     hw_run = (\<lambda>c w. (0, w)), hw_mmc_num = 1, hw_mmc_found = True, hw_mmc_known = True,
     hw_parts = [(cstr ''boot'', 100, 512)], hw_calloc = True, hw_dev_sboot = (\<lambda>_. None)\<rparr>"

definition demo_world :: fb_world where
  "demo_world = \<lparr>fbs = demo_fb, idm = running full_image, environ = [cstr ''bootmode'' \<mapsto> cstr ''1''],
     console_log = [], last_part_name = [], curr_mmc_dev = -1, fb_udp_our_port = 5554\<rparr>"

lemma demo_idme_up: "idme_up (idm demo_world) (map default_item margo_full)"
  using full_image_rep by (simp add: idme_up_def demo_world_def running_def)

lemma demo_locked: "amzn_device_is_unlocked demo_board (running full_image) = Some False"
proof -
  let ?it = "default_item (entry ''unlock_code'' 1024 1 (Some []))"
  have it: "idata ?it = replicate 1024 0" by (simp add: default_item_def entry_def fit_def cstr_def)
  have h: "hex4 0 = [48, 48, 48, 48]"
    by (simp add: hex4_def print_num_def nat_digits.simps digit_char_def numeral_eq_Suc)
  have "\<not> unlock_ok demo_board (replicate 256 0)"
    by (auto simp: unlock_ok_def amzn_get_unlock_code_def demo_board_def UNLOCK_CODE_LEN_def h dest!: arg_cong [where f = hd])
  then show ?thesis
    using amzn_device_is_unlocked_rep [OF _ _ _ full_unlock_code] demo_idme_up it
    by (simp add: idme_up_def demo_world_def)
qed

lemma demo_lockdown: "lockdown demo_hw demo_world = Some True"
proof -
  have "atoi (Some (cstr ''1'')) = 1"
    by (simp add: atoi_def simple_strtol_def simple_strtoul_def cstr_def xdigit_val_def)
  then show ?thesis
    by (simp add: lockdown_def is_lockdown_def demo_hw_def demo_world_def demo_locked target_is_production_def
        amzn_target_device_type_def) (simp add: demo_board_def)
qed

section \<open>Properties\<close>





lemma take_print_num:
  assumes "0 < k" "k \<le> length (print_num 16 n)"
  shows "take k (print_num 16 n) = print_num 16 (n div 16 ^ (length (print_num 16 n) - k))"
  using take_nat_digits [of 16 k n] assms by (simp add: print_num_def take_map)

lemma flags_read_back_cut:
  assumes "0 < length d" "length d < length (flags_text v)"
  shows "atoull (cstr ''0x'' @ takeWhile (\<lambda>c. c \<noteq> 0)
    (take 16 (fit (take 18 (flags_text v @ replicate (19 - length (flags_text v)) 0)) d))) =
    drop_bit (4 * (length (flags_text v) - length d)) v"
proof -
  let ?t = "flags_text v" and ?n = "unat v div 16 ^ (length (flags_text v) - length d)"
  have t: "?t = print_num 16 (unat v)" "length ?t \<le> 16" by (rule flags_text_eq)+
  have "take 16 (fit (take 18 (?t @ replicate (19 - length ?t) 0)) d) = take (length d) ?t"
    using assms t(2) by (simp add: fit_def)
  also have "\<dots> = print_num 16 ?n"
    using take_print_num [of "length d" "unat v"] assms unfolding t(1) by simp
  finally have "takeWhile (\<lambda>c. c \<noteq> 0) (take 16 (fit (take 18 (?t @ replicate (19 - length ?t) 0)) d)) = print_num 16 ?n"
    using print_num_nonzero [of ?n] by simp
  moreover have "of_nat ?n = drop_bit (4 * (length ?t - length d)) v"
  proof (rule word_unat_eq_iff [THEN iffD2])
    have "unat v < 2 ^ LENGTH(64)" by (rule unsigned_less)
    then have "?n < 2 ^ 64" by (intro le_less_trans [OF div_le_dividend]) simp
    moreover have "(16 :: nat) ^ k = 2 ^ (4 * k)" for k by (simp add: power_mult)
    ultimately show "unat (of_nat ?n :: u64) = unat (drop_bit (4 * (length ?t - length d)) v)"
      unfolding unat_drop_bit_eq by (simp add: unat_of_nat drop_bit_eq_div)
  qed
  ultimately show ?thesis using atoull_hex [of "[]" ?n] by simp
qed

text \<open>Writing an unlock code of 256 bytes.\<close>

lemma write_unlock_code:
  assumes "idme_up st its" "lookup_item its (cstr ''unlock_code'') = Some it" "256 \<le> length (idata it)"
    and "length c = 256" "io_safe (dev (io_count st))"
  shows "\<exists>st' its' it'. idme_update_var_ex dev (Some (cstr ''unlock_code'')) (Some c) 256 st = Some (0, st') \<and>
    idme_up st' its' \<and> lookup_item its' (cstr ''unlock_code'') = Some it' \<and> 256 \<le> length (idata it') \<and>
    amzn_device_is_unlocked b st' = Some (unlock_ok b c) \<and>
    boot_part st' = written (dev (io_count st)) (gidme_buff st') (boot_part st) \<and> io_count st' = io_count st + 1 \<and>
    (\<forall>n. n \<noteq> cstr ''unlock_code'' \<longrightarrow> lookup_item its' n = lookup_item its n)"
proof -
  let ?n = "cstr ''unlock_code''"
  let ?its' = "modify_item its ?n (fit c)" and ?it' = "it\<lparr>idata := fit c (idata it)\<rparr>"
  obtain st' where st': "idme_update_var_ex dev (Some ?n) (Some c) 256 st = Some (0, st')" "idme_up st' ?its'"
    "boot_part st' = written (dev (io_count st)) (gidme_buff st') (boot_part st)" "io_count st' = io_count st + 1"
    using idme_up_update [of st its ?n it 256 c dev] assms by auto
  have l: "lookup_item ?its' ?n = Some ?it'" using assms(2) by (simp add: lookup_modify)
  then have "amzn_device_is_unlocked b st' = Some (unlock_ok b c)"
    using amzn_device_is_unlocked_rep [OF _ _ _ l] st'(2) assms(3,4) by (simp add: idme_up_def fit_def)
  then show ?thesis using st' l assms(3) by (intro exI [of _ st'] exI [of _ ?its'] exI [of _ ?it']) (simp add: lookup_modify)
qed

text \<open>C26: the width of the flags.  The flag items have eight bytes but the text of a value up to
  sixteen digits: a result with more digits than the item has bytes is cut to its leading digits,
  and reads back as the value shifted right by the digits that were lost.\<close>

theorem oem_flags_truncates:
  assumes "idme_up (idm w) its" "parse_flags arg = (FLAGS_CMD_SET, ty, md, v)"
    and "lookup_item its (target_flags ty) = Some it" "current_flags (target_flags ty) (idm w) = Some cur"
    and "0 < length (idata it)" "length (idata it) < length (flags_text (modify_flags md cur v))"
    and "io_safe (hw_emmc hw (io_count (idm w)))"
  shows "\<exists>w'. cmd_oem_flags hw arg w = Some w' \<and>
    current_flags (target_flags ty) (idm w') =
      Some (drop_bit (4 * (length (flags_text (modify_flags md cur v)) - length (idata it))) (modify_flags md cur v))"
proof -
  obtain w' where w': "cmd_oem_flags hw arg w = Some w'"
    "current_flags (target_flags ty) (idm w') =
       Some (atoull (cstr ''0x'' @ takeWhile (\<lambda>c. c \<noteq> 0) (take 16 (fit (take 18 (flags_text (modify_flags md cur v) @
         replicate (19 - length (flags_text (modify_flags md cur v))) 0)) (idata it)))))"
    using cmd_oem_flags_set [OF assms(1-4,7)] by blast
  then show ?thesis using flags_read_back_cut [OF assms(5,6)] by auto
qed

text \<open>C27: unlocking.  A downloaded code of 256 bytes that passes the signature check, flashed to
  \<open>unlock\<close> on a locked device, is stored and unlocks the device; \<open>oem relock\<close> then erases it, and the
  device is unlocked afterwards only if a code of zeros passes the check.\<close>

theorem flash_unlock_and_relock:
  assumes "idme_up (idm w) its" "lookup_item its (cstr ''unlock_code'') = Some it" "256 \<le> length (idata it)"
    and "\<And>k. io_safe (hw_emmc hw k)" "download_addr (fbs w) \<noteq> 0" "dl_received (fbs w) = 256"
    and "amzn_verify_unlock (hw_board hw) (Some (downloaded 256 w)) = Some 0"
  shows "\<exists>w1 w2. cmd_flash hw (cstr ''unlock'') 6 w = Some w1 \<and> fbs w1 = fbs w \<and>
    amzn_device_is_unlocked (hw_board hw) (idm w1) = Some True \<and> lockdown hw w1 = Some False \<and>
    cmd_oem_relock hw w1 = Some w2 \<and>
    (amzn_device_is_unlocked (hw_board hw) (idm w2) = Some True \<longleftrightarrow>
       amzn_verify_unlock (hw_board hw) (Some (replicate 256 0)) = Some 0)"
proof -
  have ok: "unlock_ok (hw_board hw) (downloaded 256 w)"
    using assms(7) by (simp add: amzn_verify_unlock_iff split: if_splits)
  have lc: "length (downloaded 256 w) = 256" by (simp add: downloaded_def ram_read_def)
  obtain st1 its1 it1 where st1:
    "idme_update_var_ex (hw_emmc hw) (Some (cstr ''unlock_code'')) (Some (downloaded 256 w)) 256 (idm w) = Some (0, st1)"
    "idme_up st1 its1" "lookup_item its1 (cstr ''unlock_code'') = Some it1" "256 \<le> length (idata it1)"
    "amzn_device_is_unlocked (hw_board hw) st1 = Some True"
    using write_unlock_code [of "idm w" its it "downloaded 256 w" "hw_emmc hw" "hw_board hw"] assms(1-4) lc ok by auto
  obtain st2 where st2:
    "idme_update_var_ex (hw_emmc hw) (Some (cstr ''unlock_code'')) (Some (replicate 256 0)) 256 st1 = Some (0, st2)"
    "amzn_device_is_unlocked (hw_board hw) st2 = Some (unlock_ok (hw_board hw) (replicate 256 0))"
    using write_unlock_code [of st1 its1 it1 "replicate 256 0" "hw_emmc hw" "hw_board hw"] st1(2-4) assms(4) by auto
  have "cmd_flash hw (cstr ''unlock'') 6 w = Some (w\<lparr>idm := st1\<rparr>)"
    using assms(5-7) st1(1) by (simp add: cmd_flash_def flash_unlock_def starts_with_def strncmp_eq_def SIGNED_UNLOCK_CODE_LEN_def)
  moreover have "cmd_oem_relock hw (w\<lparr>idm := st1\<rparr>) = Some (w\<lparr>idm := st2\<rparr>)"
    using st2(1) by (simp add: cmd_oem_relock_def SIGNED_UNLOCK_CODE_LEN_def)
  moreover have "lockdown hw (w\<lparr>idm := st1\<rparr>) = Some False" using st1(5) by (simp add: lockdown_def is_lockdown_def)
  ultimately show ?thesis using st1(5) st2(2) amzn_verify_unlock_iff by auto
qed

text \<open>A signature the demonstration board accepts, downloaded to its address.\<close>

definition demo_code :: "byte list" where
  "demo_code = hex4 0 @ hex4 0x0042 @ hex4 0xabcd @ hex4 0x1234 @ replicate 240 0"

definition demo_unlock_world :: fb_world where
  "demo_unlock_world = on_fb (\<lambda>s. s\<lparr>ram := ram_write (\<lambda>_. 0) 0x20200000 demo_code, dl_received := 256\<rparr>) demo_world"

lemma demo_downloaded: "downloaded 256 demo_unlock_world = demo_code"
proof (rule nth_equalityI)
  have l: "length demo_code = 256" by (simp add: demo_code_def)
  then show "length (downloaded 256 demo_unlock_world) = length demo_code" by (simp add: downloaded_def ram_read_def)
  fix i assume "i < length (downloaded 256 demo_unlock_world)"
  then have "i < 256" by (simp add: downloaded_def ram_read_def)
  then show "downloaded 256 demo_unlock_world ! i = demo_code ! i"
    using l by (simp add: downloaded_def ram_read_def ram_write_def demo_unlock_world_def demo_world_def demo_fb_def unat_of_nat)
qed

lemma demo_code_accepted: "unlock_ok demo_board demo_code"
  by (simp add: unlock_ok_def amzn_get_unlock_code_def demo_board_def UNLOCK_CODE_LEN_def demo_code_def)

theorem flash_unlock_and_relock_witness:
  "\<exists>w1 w2. cmd_flash demo_hw (cstr ''unlock'') 6 demo_unlock_world = Some w1 \<and> lockdown demo_hw w1 = Some False \<and>
     cmd_oem_relock demo_hw w1 = Some w2"
proof -
  let ?w = demo_unlock_world and ?it = "default_item (entry ''unlock_code'' 1024 1 (Some []))"
  have "idme_up (idm ?w) (map default_item margo_full)"
    using demo_idme_up by (simp add: demo_unlock_world_def)
  moreover have "256 \<le> length (idata ?it)" by (simp add: default_item_def entry_def fit_def cstr_def)
  moreover have "io_safe (hw_emmc demo_hw k)" for k by (simp add: demo_hw_def)
  moreover have "download_addr (fbs ?w) \<noteq> 0" "dl_received (fbs ?w) = 256"
    by (simp_all add: demo_unlock_world_def demo_world_def demo_fb_def)
  moreover have "amzn_verify_unlock (hw_board demo_hw) (Some (downloaded 256 ?w)) = Some 0"
    using demo_code_accepted by (simp add: amzn_verify_unlock_iff demo_downloaded demo_hw_def)
  ultimately show ?thesis using flash_unlock_and_relock [OF _ full_unlock_code] by blast
qed

lemma parse_flags_wide:
  "parse_flags (cstr ''0x123456789'') = (FLAGS_CMD_SET, FLAGS_TYPE_NONE, FLAGS_MOD_SET, 0x123456789)"
proof -
  let ?a = "cstr ''0x123456789''"
  have "flag_values ?a 0 = 0 OR getnumval ?a"
    by (rule flag_values_word)
      (simp_all add: cstr_def word_end_def isblank_def issymprefix_def starts_with_def strncmp_eq_def)
  also have "\<dots> = 0x123456789"
    by (simp add: getnumval_def ishexprefix_def atoull_def cstr_def isxdigit_def xdigit_val_def hexval_def)
  finally have "flag_values ?a 0 = 0x123456789" .
  moreover have "flags_type_of ?a = (FLAGS_TYPE_NONE, ?a)"
    by (simp add: flags_type_of_def cstr_def starts_with_def strncmp_eq_def)
  moreover have "flags_modifier_of ?a = (FLAGS_MOD_SET, ?a)"
    by (simp add: flags_modifier_of_def cstr_def peek_def)
  moreover have "dropWhile isblank ?a = ?a" "?a \<noteq> []"
    "\<not> starts_with ?a (cstr ''print'')" "\<not> starts_with ?a (cstr ''PRINT'')"
    "?a \<noteq> cstr ''help''" "?a \<noteq> cstr ''HELP''" "?a \<noteq> cstr ''?''"
    by (simp_all add: cstr_def isblank_def starts_with_def strncmp_eq_def)
  ultimately show ?thesis unfolding parse_flags_def Let_def by (simp only: prod.case if_False simp_thms)
qed

theorem oem_flags_truncates_witness:
  "\<exists>w'. cmd_oem_flags demo_hw (cstr ''0x123456789'') demo_world = Some w' \<and>
     current_flags (cstr ''fos_flags'') (idm w') = Some 0x12345678"
proof -
  let ?it = "default_item (entry ''fos_flags'' 8 1 (Some ''0''))"
  have t: "target_flags FLAGS_TYPE_NONE = cstr ''fos_flags''" by (simp add: target_flags_def)
  have look: "lookup_item (map default_item margo_full) (target_flags FLAGS_TYPE_NONE) = Some ?it"
    by (simp add: t lookup_item_def margo_full_def margo_items_def entry_def cstr_def)
  have d: "length (idata ?it) = 8" by (simp add: default_item_def entry_def fit_def cstr_def)
  obtain cur where cur: "current_flags (target_flags FLAGS_TYPE_NONE) (idm demo_world) = Some cur"
    using current_flags_up [OF demo_idme_up target_flags_cstr look] by blast
  have n: "length (flags_text 0x123456789) = 9"
    by (simp add: flags_text_eq(1) print_num_def nat_digits.simps)
  have m: "modify_flags FLAGS_MOD_SET cur 0x123456789 = 0x123456789" by (simp add: modify_flags_def)
  have io: "io_safe (hw_emmc demo_hw (io_count (idm demo_world)))" by (simp add: demo_hw_def)
  have "drop_bit 4 (0x123456789 :: u64) = 0x12345678" by (simp add: drop_bit_eq_div)
  then show ?thesis
    using oem_flags_truncates [OF demo_idme_up parse_flags_wide look cur _ _ io] unfolding t m n d by auto
qed

end
