(* ===== verification/Fastboot_Handler.thy ===== *)
theory Fastboot_Handler
  imports Fastboot_Cmd
begin

text \<open>
  Properties of the packet handler of \<^verbatim>\<open>common/cmd_fastboot.c\<close> over all commands at once.  A locale names
  what a command may change; any predicate kept by these changes is kept by every command.  It is
  used for the variables that tie a packet to its answer and for the sizes of the buffers.
\<close>

section \<open>Lengths\<close>

lemma length_hex8 [simp]: "length (hex8 w) = 8"
proof -
  have "unat w < 2 ^ LENGTH(32)" by (rule unsigned_less)
  then have "length (print_num 16 (unat w)) \<le> 8" using length_print_num_le [of 8 "unat w"] by simp
  then show ?thesis by (simp add: hex8_def)
qed

lemma idme_get_var_length:
  "idme_get_var_v2p0 n (Some b) len m = Some (r, Some b') \<Longrightarrow> length b' = length b"
  by (auto simp: idme_get_var_v2p0_def write_buf_def Let_def split: option.splits bind_splits if_splits)

lemma idme_string_length:
  assumes "idme_string st n k = Some (r, s)"
  shows "length s < k"
proof -
  obtain b where b: "idme_get_var_external n (Some (replicate k 0)) (k - 1) st = Some (r, Some b)" "buf_str b = Some s"
    using assms by (auto simp: idme_string_def split: bind_splits)
  have "length b = k"
    using b(1) idme_get_var_length [of n "replicate k 0" "k - 1" "pidme st" r b] 
    by (auto simp: idme_get_var_external_def split: if_splits)
  moreover have "length s < length b"
  proof -
    have "0 \<in> set b \<Longrightarrow> length (takeWhile (\<lambda>c. c \<noteq> 0) b) < length b" by (induction b) auto
    then show ?thesis using b(2) by (auto simp: buf_str_def split: if_splits)
  qed
  ultimately show ?thesis by simp
qed

section \<open>Invariants of the commands\<close>

text \<open>What a command may do to the state, as a contract: set the response, the message, memory, the
  download address and its flags, start a download, replace the IDME state, and run console
  commands.  A predicate that all of these keep is kept by every command.\<close>

locale command_invariant =
  fixes hw :: fb_hw and inv :: "fb_world \<Rightarrow> bool"
  assumes resp: "inv w \<Longrightarrow> inv (on_fb (fb_set_resp c m) w)"
    and init: "inv w \<Longrightarrow> inv (on_fb fb_init_resp w)"
    and msg: "inv w \<Longrightarrow> length m \<le> 64 \<Longrightarrow> inv (set_message m w)"
    and mem: "inv w \<Longrightarrow> inv (on_fb (\<lambda>s. s\<lparr>ram := h s\<rparr>) w)"
    and addr: "inv w \<Longrightarrow> inv (on_fb (\<lambda>s. s\<lparr>download_addr := a\<rparr>) w)"
    and reset: "inv w \<Longrightarrow> inv (on_fb (\<lambda>s. s\<lparr>fb_need_reset := b\<rparr>) w)"
    and halt: "inv w \<Longrightarrow> inv (on_fb (\<lambda>s. s\<lparr>fb_need_halt := b\<rparr>) w)"
    and start: "inv w \<Longrightarrow> cmd_download_start arg (fbs w) = Some s \<Longrightarrow> inv (w\<lparr>fbs := s\<rparr>)"
    and store: "inv w \<Longrightarrow> inv (w\<lparr>idm := st\<rparr>)"
    and mmc: "inv w \<Longrightarrow> inv (w\<lparr>curr_mmc_dev := d\<rparr>)"
    and part: "inv w \<Longrightarrow> inv (w\<lparr>last_part_name := l\<rparr>)"
    and console: "inv w \<Longrightarrow> inv (snd (run_command hw line w))"
begin

lemma report: "inv w \<Longrightarrow> inv (on_fb (fb_report e) w)"
proof (cases e)
  case (FB_INFO m)
  then show "inv w \<Longrightarrow> ?thesis" using resp [of w kStatusInfo m] by (simp add: on_fb_def fastboot_info_def)
next
  case (FB_FAIL m)
  then show "inv w \<Longrightarrow> ?thesis" using resp [of w kStatusError m] by (simp add: on_fb_def fastboot_fail_def)
next
  case (FB_OKAY m)
  then show "inv w \<Longrightarrow> ?thesis" using resp [of w kStatusOkay m] by (simp add: on_fb_def fastboot_okay_def)
qed

lemma reports: "inv w \<Longrightarrow> inv (on_fb (fold fb_report ev) w)"
proof (induction ev arbitrary: w)
  case (Cons e ev)
  then show ?case using Cons.IH [OF report] by (simp add: on_fb_def)
qed (simp add: on_fb_def)

lemma answers:
  assumes "inv w"
  shows "inv (on_fb (fastboot_fail m) w)" "inv (on_fb (fastboot_okay k \<circ> fastboot_info m) w)"
    "inv (on_fb (fastboot_fail l \<circ> fastboot_okay k \<circ> fastboot_info m) w)"
  using reports [OF assms, of "[FB_FAIL m]"] reports [OF assms, of "[FB_INFO m, FB_OKAY k]"]
    reports [OF assms, of "[FB_INFO m, FB_OKAY k, FB_FAIL l]"] by (simp_all add: on_fb_def)

lemma oem_commands:
  assumes "inv w"
  shows "cmd_oem_idme hw arg w = Some w' \<Longrightarrow> inv w'" "cmd_oem_bootmode hw arg w = Some w' \<Longrightarrow> inv w'"
    "cmd_oem_flags hw arg w = Some w' \<Longrightarrow> inv w'" "cmd_oem_relock hw w = Some w' \<Longrightarrow> inv w'"
    "cmd_erase hw arg w = Some w' \<Longrightarrow> inv w'" "inv (cmd_reboot w)" "inv (cmd_reboot_bootloader hw w)"
  subgoal using assms by (auto simp: cmd_oem_idme_def Let_def intro!: answers reports store split: bind_splits)
  subgoal using assms by (auto simp: cmd_oem_bootmode_def Let_def intro!: answers store split: bind_splits if_splits)
  subgoal using assms by (auto simp: cmd_oem_flags_def Let_def intro!: answers store
        split: bind_splits if_splits flags_cmd_t.splits prod.splits)
  subgoal using assms by (auto simp: cmd_oem_relock_def Let_def intro!: resp store split: bind_splits if_splits)
  subgoal using assms by (auto simp: cmd_erase_def intro!: console split: bind_splits)
  subgoal using assms by (simp add: cmd_reboot_def reset)
  subgoal using assms by (simp add: cmd_reboot_bootloader_def Let_def reset console)
  done

lemma getvar:
  assumes "inv w" "cmd_getvar hw arg n w = Some w'"
  shows "inv w'"
proof -
  have p: "get_partition_size hw a w = (k, v) \<Longrightarrow> inv v" for a k v
    using assms(1) by (auto simp: get_partition_size_def Let_def intro: mmc split: if_splits)
  have l: "idme_string (idm w) a 18 = Some (r, s) \<Longrightarrow> length s \<le> 64" for a r s
    using idme_string_length [of "idm w" a 18 r s] by simp
  have c: "length (cstr ''0.4'') \<le> 64" "length (cstr ''Unknown'') \<le> 64" "length (cstr ''MARGO'') \<le> 64"
    "length (cstr ''0'') \<le> 64" "length (cstr ''1'') \<le> 64" "length (cstr ''0x'' @ hex8 v) \<le> 64"
    "length (snprintf_str FASTBOOT_RESPONSE_LEN code) \<le> 64" for v code
    by (simp_all add: cstr_def snprintf_str_def FASTBOOT_RESPONSE_LEN_def)
  show ?thesis
    using assms(2) unfolding cmd_getvar_def
    by (auto intro!: msg [OF assms(1)] resp [OF assms(1)] c split: bind_splits if_splits option.splits prod.splits
        dest: p l intro: msg [OF p])
qed

lemma script:
  assumes "script_loop hw' abort p w = Some y"
  shows "hw' = hw \<longrightarrow> inv w \<longrightarrow> inv (snd y)"
  using assms
proof (rule script_loop.raw_induct [where P = "\<lambda>hw' abort p w y. hw' = hw \<longrightarrow> inv w \<longrightarrow> inv (snd y)", rotated], intro impI)
  fix loop hw' abort p w y
  assume IH: "\<And>hw' abort p w y. loop hw' abort p w = Some y \<Longrightarrow> hw' = hw \<longrightarrow> inv w \<longrightarrow> inv (snd y)"
    and body: "Option.bind (get_script_next_line (ram (fbs w)) p) (\<lambda>(r, next).
         case next of None \<Rightarrow> Some (0, on_fb (\<lambda>s. s\<lparr>ram := r\<rparr>) w)
         | Some (line, q) \<Rightarrow>
             (case run_command hw' line (on_fb (\<lambda>s. s\<lparr>ram := r\<rparr>) w) of (c, w) \<Rightarrow>
                if c = -1 \<and> abort then Some (-1, w) else loop hw' abort q w)) = Some y"
    and hw: "hw' = hw" and inv: "inv w"
  obtain r nxt where nxt: "get_script_next_line (ram (fbs w)) p = Some (r, nxt)"
    using body by (auto split: bind_splits)
  have w: "inv (on_fb (\<lambda>s. s\<lparr>ram := r\<rparr>) w)" by (rule mem [OF inv])
  show "inv (snd y)"
  proof (cases nxt)
    case None
    then show ?thesis using body nxt w by auto
  next
    case (Some a)
    obtain line q where a: "a = (line, q)" by (cases a)
    obtain c v where v: "run_command hw' line (on_fb (\<lambda>s. s\<lparr>ram := r\<rparr>) w) = (c, v)" by force
    have wv: "inv v" using console [OF w, of line] v hw by simp
    have "(if c = -1 \<and> abort then Some (-1, v) else loop hw' abort q v) = Some y" using body nxt Some a v by simp
    then show ?thesis using IH [of hw' abort q v y] wv hw by (auto split: if_splits)
  qed
qed

lemma flash:
  assumes "inv w" "cmd_flash hw arg n w = Some w'"
  shows "inv w'"
proof -
  have u: "flash_unlock hw w = Some w' \<Longrightarrow> inv w'"
    using assms(1) by (auto simp: flash_unlock_def Let_def intro!: resp store split: bind_splits if_splits)
  have "on_fb (\<lambda>s. (fb_set_resp c m s)\<lparr>fb_need_halt := b\<rparr>) w = on_fb (\<lambda>s. s\<lparr>fb_need_halt := b\<rparr>) (on_fb (fb_set_resp c m) w)"
    for c m b by (simp add: on_fb_def)
  then have "inv (on_fb (\<lambda>s. (fb_set_resp c m s)\<lparr>fb_need_halt := b\<rparr>) w)" for c m b
    using halt [OF resp [OF assms(1)]] by simp
  then have b: "flash_sboot hw w = Some w' \<Longrightarrow> inv w'"
    using assms(1) by (auto simp: flash_sboot_def Let_def intro!: console split: bind_splits if_splits)
  have s: "util_run_script hw a k w = Some y \<Longrightarrow> inv (snd y)" for a k y
  proof -
    assume "util_run_script hw a k w = Some y"
    from script [OF this [unfolded util_run_script_def Let_def]] show "inv (snd y)"
      using mem [OF assms(1), of "\<lambda>s. ram_write (ram s) (a + k) [10, 37]"] by blast
  qed
  have i: "flash_image hw arg n w = Some w' \<Longrightarrow> inv w'"
    using assms(1) by (auto simp: flash_image_def Let_def intro!: part console dest: oem_commands(5) split: bind_splits if_splits)
  have r: "inv (run_with_addr hw c w)" for c using console [OF assms(1)] by (simp add: run_with_addr_def)
  show ?thesis
    using assms(2) u b r s i by (auto simp: cmd_flash_def intro!: resp addr assms(1) split: bind_splits if_splits)
qed

lemma call:
  assumes "inv w" "call_cb hw cb arg n w = Some w'"
  shows "inv w'"
  using assms(2) oem_commands [OF assms(1)] getvar [OF assms(1)] flash [OF assms(1)] start [OF assms(1)]
  by (cases cb) (auto simp: call_cb_def)

lemma handler_command:
  assumes "inv w" "fb_handler_command hw b w = Some w'"
  shows "inv w'"
proof -
  let ?v = "on_fb fb_init_resp w"
  have i: "inv ?v" by (rule init [OF assms(1)])
  have l: "on_fb (\<lambda>s. s\<lparr>status_code := kStatusError, message := cstr ''command too long''\<rparr>) ?v =
      on_fb (fb_set_resp kStatusError (cstr ''command too long'')) ?v"
    by (simp add: on_fb_def fb_set_resp_def FASTBOOT_RESPONSE_LEN_def cstr_def)
  show ?thesis
    using assms(2) call [OF i] resp [OF i] unfolding fb_handler_command_def Let_def l
    by (auto split: bind_splits if_splits option.splits)
qed

end

text \<open>What ties a packet to its answer: the packet buffer, the sequence number and the port.\<close>

definition same_link :: "fb_world \<Rightarrow> fb_world \<Rightarrow> bool" where
  "same_link w w' \<longleftrightarrow> fb_packet (fbs w') = fb_packet (fbs w) \<and> last_resp_len (fbs w') = last_resp_len (fbs w) \<and>
     fb_expected_seq (fbs w') = fb_expected_seq (fbs w) \<and> fb_udp_our_port w' = fb_udp_our_port w"

text \<open>The console leaves these variables of the handler alone.\<close>

definition link_kept :: "fb_hw \<Rightarrow> bool" where
  "link_kept hw \<longleftrightarrow> (\<forall>c w. same_link w (snd (hw_run hw c w)))"

lemma run_command_fields:
  "fbs (snd (run_command hw c w)) = fbs (snd (hw_run hw c w))"
  "fb_udp_our_port (snd (run_command hw c w)) = fb_udp_our_port (snd (hw_run hw c w))"
  by (simp_all add: run_command_def split: prod.split)

interpretation link: command_invariant hw "\<lambda>w. link_kept hw \<longrightarrow> same_link w0 w" for hw w0
proof
  fix w :: fb_world and line assume w: "link_kept hw \<longrightarrow> same_link w0 w"
  show "link_kept hw \<longrightarrow> same_link w0 (snd (run_command hw line w))"
  proof
    assume k: "link_kept hw"
    then have "same_link w (snd (hw_run hw line w))" by (simp add: link_kept_def)
    then show "same_link w0 (snd (run_command hw line w))" using w k by (simp add: same_link_def run_command_fields)
  qed
qed (auto simp: same_link_def fb_set_resp_def fb_init_resp_def set_message_def cmd_download_start_def Let_def split: if_splits)

text \<open>The types of the handler's variables: the sizes of its buffers and tables.\<close>

definition fb_wf :: "fb_state \<Rightarrow> bool" where
  "fb_wf s \<longleftrightarrow> length (fb_packet s) = 65 \<and> length (message s) \<le> 64 \<and> length (info_msg s) \<le> 100 \<and>
     (\<forall>m \<in> set (info_msg s). length m \<le> 64) \<and> info_index s \<le> length (info_msg s) \<and> last_resp_len s \<le> 65"

definition wf_kept :: "fb_hw \<Rightarrow> bool" where
  "wf_kept hw \<longleftrightarrow> (\<forall>c w. fb_wf (fbs w) \<longrightarrow> fb_wf (fbs (snd (hw_run hw c w))))"

lemma fb_wf_set_resp: "fb_wf s \<Longrightarrow> fb_wf (fb_set_resp c m s)"
  by (auto simp: fb_wf_def fb_set_resp_def FASTBOOT_RESPONSE_LEN_def MAX_INFO_NUM_def)

lemma fb_wf_download_start:
  assumes "fb_wf s" "cmd_download_start arg s = Some s'"
  shows "fb_wf s'"
proof -
  have k: "fb_wf t \<Longrightarrow> fb_wf (t\<lparr>fb_download_flag := a, dl_total := b, dl_received := c, dl_last_size := d, dl_max_num := e,
      receive_bitmap := f, ram := g\<rparr>)" for t a b c d e f g by (simp add: fb_wf_def)
  show ?thesis
    using assms(2) unfolding cmd_download_start_def Let_def
    by (auto intro!: k fb_wf_set_resp [OF assms(1)] simp only: option.inject option.distinct split: if_splits)
qed

interpretation wf: command_invariant hw "\<lambda>w. wf_kept hw \<longrightarrow> fb_wf (fbs w)" for hw
proof
  fix w :: fb_world and line assume w: "wf_kept hw \<longrightarrow> fb_wf (fbs w)"
  then show "wf_kept hw \<longrightarrow> fb_wf (fbs (snd (run_command hw line w)))" by (simp add: wf_kept_def run_command_fields)
next
  fix w :: fb_world and arg s assume "wf_kept hw \<longrightarrow> fb_wf (fbs w)" "cmd_download_start arg (fbs w) = Some s"
  then show "wf_kept hw \<longrightarrow> fb_wf (fbs (w\<lparr>fbs := s\<rparr>))" using fb_wf_download_start by auto
next
  fix w :: fb_world and c m assume "wf_kept hw \<longrightarrow> fb_wf (fbs w)"
  then show "wf_kept hw \<longrightarrow> fb_wf (fbs (on_fb (fb_set_resp c m) w))" using fb_wf_set_resp by simp
qed (auto simp: fb_wf_def fb_init_resp_def set_message_def)

lemma fb_wf_send: "fb_wf s \<Longrightarrow> fb_wf (fb_send n s)"
  by (simp add: fb_wf_def fb_send_def)

lemma fb_wf_ack: "fb_wf s \<Longrightarrow> fb_wf (fb_udp_ack pkt n s)"
  by (simp add: fb_wf_def fb_send_def fb_udp_ack_def put_uint32_def kHeaderSize_def)

lemma fb_wf_error: "fb_wf s \<Longrightarrow> fb_wf (fb_udp_error q s)"
  by (simp add: fb_wf_def fb_send_def fb_udp_error_def header_set_def FASTBOOT_RESPONSE_LEN_def cstr_def Let_def)

lemma fb_wf_answer: "fb_wf s \<Longrightarrow> length body \<le> 4 \<Longrightarrow> 8 \<le> length pkt \<Longrightarrow> fb_wf (answer pkt body s)"
  by (simp add: fb_wf_def fb_send_def answer_def put_uint32_def Let_def)

lemma fb_wf_init: "fb_wf s \<Longrightarrow> 8 \<le> length pkt \<Longrightarrow> fb_wf (handle_init pkt s)"
proof -
  assume s: "fb_wf s" and p: "8 \<le> length pkt"
  have "fb_wf (s\<lparr>max_packet_len := k, fb_expected_seq := q\<rparr>)" for k q using s by (simp add: fb_wf_def)
  then have "fb_wf (answer pkt (put_uint16 a @ put_uint16 b) (s\<lparr>max_packet_len := k, fb_expected_seq := q\<rparr>))" for a b k q
    using p by (intro fb_wf_answer) (simp_all add: put_uint16_def)
  moreover have "fb_wf t \<Longrightarrow> fb_wf (fb_init t)" for t by (simp add: fb_wf_def fb_init_def fb_init_resp_def)
  ultimately show ?thesis using fb_wf_error [OF s] by (simp add: handle_init_def Let_def)
qed

lemma fb_wf_download:
  assumes "fb_wf s"
  shows "cmd_download_cont pkt s = Some s' \<Longrightarrow> fb_wf s'" "cmd_download_end pkt s = Some s' \<Longrightarrow> fb_wf s'"
proof -
  have rec: "record_packet n p t = Some t' \<Longrightarrow> fb_wf t \<Longrightarrow> fb_wf t'" for n p t t'
    by (auto simp: record_packet_def store_payload_def Let_def fb_wf_def split: if_splits bind_splits)
  have up: "fb_wf t \<Longrightarrow> fb_wf (t\<lparr>fb_expected_seq := q\<rparr>)" "fb_wf t \<Longrightarrow> fb_wf (t\<lparr>fb_download_flag := f\<rparr>)" for t q f
    by (simp_all add: fb_wf_def)
  let ?s1 = "if status_code s = kStatusData then fb_set_resp kStatusError (cstr ''download incomplete'') s else s"
  let ?s2 = "if sint (pkt_num pkt) mod BARRIER_NUM = 0
    then fb_udp_ack pkt (pkt_num pkt) (?s1\<lparr>fb_expected_seq := fb_expected_seq ?s1 + 1\<rparr>) else ?s1"
  have s1: "fb_wf ?s1" using assms fb_wf_set_resp by simp
  have ifI: "P a \<Longrightarrow> P b \<Longrightarrow> P (if c then a else b)" for P :: "fb_state \<Rightarrow> bool" and a b c by simp
  have s2: "fb_wf ?s2" by (rule ifI [OF fb_wf_ack [OF up(1) [OF s1]] s1])
  have run: "cmd_download_cont pkt s =
    (if length pkt \<noteq> kHeaderSize + unat (max_packet_len ?s1) then Some ?s1
     else record_packet (sint (pkt_num pkt)) (drop kHeaderSize pkt) ?s2)"
    unfolding cmd_download_cont_def Let_def record_packet_def ..
  assume "cmd_download_cont pkt s = Some s'"
  then have "Some ?s1 = Some s' \<or> record_packet (sint (pkt_num pkt)) (drop kHeaderSize pkt) ?s2 = Some s'"
    unfolding run by (cases "length pkt \<noteq> kHeaderSize + unat (max_packet_len ?s1)") (simp_all only: if_True if_False simp_thms)
  then show "fb_wf s'" using s1 rec [OF _ s2] by blast
next
  have rec: "record_packet n p t = Some t' \<Longrightarrow> fb_wf t \<Longrightarrow> fb_wf t'" for n p t t'
    by (auto simp: record_packet_def store_payload_def Let_def fb_wf_def split: if_splits bind_splits)
  have fin: "fb_wf t \<Longrightarrow> fb_wf (finish_round pkt t)" for t
  proof -
    assume "fb_wf t"
    then have "fb_wf (t\<lparr>fb_expected_seq := q\<rparr>)" for q by (simp add: fb_wf_def)
    moreover have "fb_wf u \<Longrightarrow> fb_wf (u\<lparr>fb_download_flag := f\<rparr>)" for u f by (simp add: fb_wf_def)
    ultimately show ?thesis using fb_wf_ack fb_wf_set_resp by (simp add: finish_round_def Let_def)
  qed
  assume "cmd_download_end pkt s = Some s'"
  then have "s' = s \<or> (\<exists>t. record_packet (sint (pkt_num pkt)) (drop kHeaderSize pkt) s = Some t \<and> s' = finish_round pkt t)"
  proof (cases "get_receive_bitmap (receive_bitmap s) (sint (pkt_num pkt))")
    case None
    then show ?thesis using \<open>cmd_download_end pkt s = Some s'\<close> by (simp add: cmd_download_end_def Let_def)
  next
    case (Some g)
    show ?thesis
      using \<open>cmd_download_end pkt s = Some s'\<close>
      unfolding cmd_download_end_def Let_def record_packet_def finish_round_def Some bind.bind_lunit
      by (cases g) (auto simp only: if_True if_False bind.bind_lunit option.inject split: if_splits bind_splits)
  qed
  then show "fb_wf s'" using assms rec fin by blast
qed

text \<open>C28: a command is executed once.  After a command packet has been handled, the same packet
  arriving again changes nothing: the handler only sends the eight bytes of its acknowledgement
  again.  The console is assumed not to touch the handler's own variables.\<close>

theorem command_packet_once:
  assumes "link_kept hw" "length pkt > kHeaderSize" "pkt_id pkt = 3" "pkt_seq pkt = fb_expected_seq (fbs w)"
    and "dest = fb_udp_our_port w" "\<not> fb_download_flag (fbs w)"
    and "fb_udp_handler hw pkt dest w = Some (Returned w1)"
  shows "fb_udp_handler hw pkt dest w1 =
    Some (Returned (on_fb (\<lambda>s. s\<lparr>sent := sent s @ [ack_packet pkt INVALID_NUM]\<rparr>) w1))"
proof -
  let ?v = "on_fb (\<lambda>s. fb_udp_ack pkt INVALID_NUM (s\<lparr>fb_expected_seq := fb_expected_seq s + 1\<rparr>)) w"
  have run: "fb_handler_command hw (drop kHeaderSize pkt) ?v = Some w1"
    using assms(2-7) by (simp add: fb_udp_handler_def handle_fastboot_def)
  have "same_link ?v ?v" by (simp only: same_link_def simp_thms)
  then have "link_kept hw \<longrightarrow> same_link ?v ?v" by blast
  from link.handler_command [OF this run] have l: "same_link ?v w1" using assms(1) by blast
  have p: "pkt ! 0 = 3" "pkt_seq pkt = extract_uint16 (pkt ! 2) (pkt ! 3)"
    using assms(3) by (simp_all add: pkt_id_def pkt_seq_def)
  have f: "fb_packet (fbs w1) = ack_packet pkt INVALID_NUM @ drop 8 (fb_packet (fbs w))"
    "last_resp_len (fbs w1) = 8" "fb_expected_seq (fbs w1) = pkt_seq pkt + 1" "fb_udp_our_port w1 = dest"
    using l assms(4,5) by (simp_all add: same_link_def fb_udp_ack_def fb_send_def kHeaderSize_def ack_packet_def)
  have "take 8 (fb_packet (fbs w1)) = ack_packet pkt INVALID_NUM" unfolding f(1) by (simp add: ack_packet_def put_uint32_def)
  moreover have "fb_packet (fbs w1) ! 2 = pkt ! 2" "fb_packet (fbs w1) ! 3 = pkt ! 3"
    unfolding f(1) by (simp_all add: ack_packet_def)
  moreover have "pkt_seq pkt \<noteq> pkt_seq pkt + 1" by simp
  ultimately show ?thesis
    using assms(2,3) f p(2)
    by (simp add: fb_udp_handler_def fb_resend_resp_def fb_send_def on_fb_def)
qed

definition demo_reboot_packet :: "byte list" where
  "demo_reboot_packet = header_set 3 1 0 0 @ cstr ''reboot''"

lemma demo_reboot:
  "\<exists>w1. fb_udp_handler demo_hw demo_reboot_packet 5554 demo_world = Some (Returned w1) \<and> fb_need_reset (fbs w1)"
proof -
  let ?v = "on_fb (\<lambda>s. fb_udp_ack demo_reboot_packet INVALID_NUM (s\<lparr>fb_expected_seq := fb_expected_seq s + 1\<rparr>)) demo_world"
  have p: "pkt_id demo_reboot_packet = 3" "pkt_seq demo_reboot_packet = 1" "drop kHeaderSize demo_reboot_packet = cstr ''reboot''"
    "length demo_reboot_packet = 14"
    using header_set_fields(1,3,5) by (simp_all add: demo_reboot_packet_def kHeaderSize_def cstr_def)
  have z: "takeWhile (\<lambda>c. c \<noteq> 0) (cstr ''reboot'') = cstr ''reboot''" "length (cstr ''reboot'') < 1024" by (simp_all add: cstr_def)
  have cb: "find_cb (cstr ''reboot'') = Some (cstr ''reboot'', Cb_reboot)"
    by (simp add: find_cb_def cmd_dispatch_info_def starts_with_def strncmp_eq_def cstr_def)
  have "fb_handler_command demo_hw (cstr ''reboot'') ?v = Some (cmd_reboot (on_fb fb_init_resp ?v))"
    unfolding fb_handler_command_def Let_def z(1) cb using z(2) demo_lockdown by (simp add: lockdown_cbs_def call_cb_def)
  then have "fb_udp_handler demo_hw demo_reboot_packet 5554 demo_world = Some (Returned (cmd_reboot (on_fb fb_init_resp ?v)))"
    using p by (simp add: fb_udp_handler_def handle_fastboot_def demo_world_def demo_fb_def kHeaderSize_def)
  then show ?thesis by (simp add: cmd_reboot_def)
qed

theorem command_packet_once_witness:
  "\<exists>w1. fb_udp_handler demo_hw demo_reboot_packet 5554 demo_world = Some (Returned w1) \<and>
     fb_udp_handler demo_hw demo_reboot_packet 5554 w1 =
       Some (Returned (on_fb (\<lambda>s. s\<lparr>sent := sent s @ [ack_packet demo_reboot_packet INVALID_NUM]\<rparr>) w1))"
proof -
  obtain w1 where w1: "fb_udp_handler demo_hw demo_reboot_packet 5554 demo_world = Some (Returned w1)"
    using demo_reboot by blast
  have "link_kept demo_hw" by (simp add: link_kept_def same_link_def demo_hw_def)
  moreover have "kHeaderSize < length demo_reboot_packet" "pkt_id demo_reboot_packet = 3"
    "pkt_seq demo_reboot_packet = fb_expected_seq (fbs demo_world)" "5554 = fb_udp_our_port demo_world"
    "\<not> fb_download_flag (fbs demo_world)"
    using header_set_fields(1,3,5) by (simp_all add: demo_reboot_packet_def demo_world_def demo_fb_def cstr_def)
  ultimately show ?thesis using command_packet_once [OF _ _ _ _ _ _ w1] w1 by blast
qed

text \<open>The cases of the packet handler for fastboot packets.\<close>

lemma put_packet_wf: "fb_wf s \<Longrightarrow> put_packet off xs s = Some s' \<Longrightarrow> fb_wf s'"
  by (auto simp: put_packet_def fb_wf_def FASTBOOT_RESPONSE_LEN_def split: if_splits)

lemma fb_gen_resp_wf:
  assumes "fb_wf s" "fb_gen_resp s = Some s'"
  shows "fb_wf s'" "kHeaderSize + length (fb_resp_text s) \<le> 65"
proof -
  obtain t where t: "put_packet kHeaderSize (fb_resp_text s @ [0]) s = Some t"
    "s' = (if info_index s = length (info_msg s) then t else t\<lparr>info_index := info_index s + 1\<rparr>)"
    using assms(2) by (auto simp: fb_gen_resp_def split: bind_splits)
  have "fb_wf t" by (rule put_packet_wf [OF assms(1) t(1)])
  moreover have "info_msg t = info_msg s" using t(1) by (auto simp: put_packet_def split: if_splits)
  ultimately show "fb_wf s'" using assms(1) t(2) by (auto simp: fb_wf_def)
  show "kHeaderSize + length (fb_resp_text s) \<le> 65"
    using t(1) by (simp add: put_packet_def FASTBOOT_RESPONSE_LEN_def split: if_splits)
qed

lemma send_status_wf:
  assumes "fb_wf s" "send_status pkt s = Some s'"
  shows "fb_wf s'"
proof -
  obtain s1 s2 where s1: "put_packet 0 (take 4 pkt @ put_uint32 INVALID_NUM) (s\<lparr>fb_expected_seq := fb_expected_seq s + 1\<rparr>) = Some s1"
    and s2: "fb_gen_resp s1 = Some s2"
    and s': "s' = fb_send (kHeaderSize + length (fb_resp_text s1)) (s2\<lparr>last_resp_len := kHeaderSize + length (fb_resp_text s1)\<rparr>)"
    using assms(2) unfolding send_status_def Let_def by (auto split: bind_splits)
  have "fb_wf (s\<lparr>fb_expected_seq := fb_expected_seq s + 1\<rparr>)" using assms(1) by (simp add: fb_wf_def)
  note g = fb_gen_resp_wf [OF put_packet_wf [OF this s1] s2]
  show ?thesis using g unfolding s' by (simp add: fb_wf_def fb_send_def)
qed

definition world_of :: "fb_outcome \<Rightarrow> fb_world" where
  "world_of r = (case r of Returned w \<Rightarrow> w | Halted w \<Rightarrow> w)"

lemma world_of_simps [simp]: "world_of (Returned w) = w" "world_of (Halted w) = w"
  by (simp_all add: world_of_def)

lemma handle_fastboot_wf:
  assumes "fb_wf (fbs w)" "wf_kept hw" "handle_fastboot hw pkt w = Some r"
  shows "fb_wf (fbs (world_of r))"
proof (cases "length pkt = kHeaderSize")
  case True
  obtain s where s: "send_status pkt (fbs w) = Some s" using assms(3) True by (auto simp: handle_fastboot_def split: bind_splits)
  let ?w = "w\<lparr>fbs := s\<rparr>"
  have w: "fb_wf (fbs ?w)" using send_status_wf [OF assms(1) s] by simp
  then have "fb_wf (fbs (snd (run_command hw c ?w)))" for c using wf.console [of hw ?w c] assms(2) by blast
  then show ?thesis using assms(3) True s w by (auto simp: handle_fastboot_def Let_def split: if_splits)
next
  case False
  let ?v = "on_fb (\<lambda>s. fb_udp_ack pkt INVALID_NUM (s\<lparr>fb_expected_seq := fb_expected_seq s + 1\<rparr>)) w"
  have "fb_wf ((fbs w)\<lparr>fb_expected_seq := q\<rparr>)" for q using assms(1) by (simp add: fb_wf_def)
  then have "fb_wf (fbs ?v)" using fb_wf_ack by simp
  then have c: "fb_handler_command hw b ?v = Some w' \<Longrightarrow> fb_wf (fbs w')" for b w'
    using wf.handler_command [of hw ?v b w'] assms(2) by blast
  show ?thesis
    using assms(3) False c fb_wf_download [OF assms(1)] unfolding handle_fastboot_def by (auto split: if_splits)
qed

text \<open>C29: the handler keeps its variables well-formed: for every packet, the packet buffer keeps its
  65 bytes, the message and the at most 100 queued information lines at most 64 bytes each, the
  index into them stays inside, and the stored response length fits the buffer.  The console is
  assumed to keep this too.\<close>

theorem fb_udp_handler_wf:
  assumes "fb_wf (fbs w)" "wf_kept hw" "fb_udp_handler hw pkt dest w = Some r"
  shows "fb_wf (fbs (world_of r))"
proof (cases "dest \<noteq> fb_udp_our_port w \<or> length pkt < kHeaderSize")
  case True
  then show ?thesis using assms by (auto simp: fb_udp_handler_def)
next
  case False
  then have l: "8 \<le> length pkt" by (simp add: kHeaderSize_def)
  have q: "fb_wf (answer pkt (put_uint16 n) (fbs w))" for n using fb_wf_answer [OF assms(1) _ l] by (simp add: put_uint16_def)
  have r: "fb_wf (fb_resend_resp n (fbs w))" for n using fb_wf_send [OF assms(1)] assms(1) by (simp add: fb_resend_resp_def)
  show ?thesis
    using assms(3) False q r fb_wf_init [OF assms(1) l] fb_wf_error [OF assms(1)] handle_fastboot_wf [OF assms(1,2)]
    by (auto simp: fb_udp_handler_def split: if_splits)
qed

theorem fb_udp_handler_wf_witness:
  "\<exists>r. fb_udp_handler demo_hw demo_reboot_packet 5554 demo_world = Some r \<and> fb_wf (fbs (world_of r))"
proof -
  obtain w1 where w1: "fb_udp_handler demo_hw demo_reboot_packet 5554 demo_world = Some (Returned w1)"
    using demo_reboot by blast
  have "fb_wf (fbs demo_world)" "wf_kept demo_hw"
    by (simp_all add: fb_wf_def wf_kept_def demo_world_def demo_fb_def demo_hw_def)
  from fb_udp_handler_wf [OF this w1] w1 show ?thesis by blast
qed

text \<open>C30: the negotiated payload size.  From a host that announces at least 8 bytes per packet the
  handler takes the announced size, at most 1400, less the header; an announced size below 8 wraps
  around to a payload of more than 65500 bytes, and exactly 8 leaves a payload of zero.\<close>

theorem handle_init_payload:
  assumes "12 \<le> length pkt"
  shows "let host = extract_uint16 (pkt ! 10) (pkt ! 11); mpl = unat (max_packet_len (handle_init pkt s)) in
    mpl = (if 8 \<le> unat host then min (unat host) 1400 - 8 else 65528 + unat host)"
proof -
  let ?h = "extract_uint16 (pkt ! 10) (pkt ! 11)"
  let ?m = "(if ?h > PAYLOAD_SIZE then PAYLOAD_SIZE else ?h) - 8"
  have "max_packet_len (handle_init pkt s) = ?m"
    using assms by (simp add: handle_init_def kHeaderSize_def Let_def fb_init_def fb_init_resp_def answer_def fb_send_def)
  moreover have "unat (h - 8 :: u16) = (if 8 \<le> unat h then unat h - 8 else 65528 + unat h)" for h :: u16
    using unat_sub_if' [of h 8] by simp
  moreover have "unat (if ?h > PAYLOAD_SIZE then PAYLOAD_SIZE else ?h) = min (unat ?h) 1400"
    by (auto simp: PAYLOAD_SIZE_def word_less_nat_alt not_less)
  ultimately show ?thesis by (simp add: Let_def)
qed

theorem handle_init_payload_witness:
  "unat (max_packet_len (handle_init (header_set 2 1 0 0 @ put_uint16 1 @ put_uint16 3) demo_fb)) = 65531"
proof -
  let ?p = "header_set 2 1 0 0 @ put_uint16 1 @ put_uint16 3"
  have l: "12 \<le> length ?p" by (simp add: header_set_def put_uint16_def)
  have "?p ! 10 = put_uint16 3 ! 0" "?p ! 11 = put_uint16 3 ! 1" by (simp_all add: header_set_def put_uint16_def)
  then have "extract_uint16 (?p ! 10) (?p ! 11) = 3" using extract_put_uint16 [of 3] by simp
  then show ?thesis using handle_init_payload [OF l, of demo_fb] by (simp add: Let_def)
qed

lemma starts_with_simps: "starts_with x []" "starts_with (a # x) (b # y) \<longleftrightarrow> a = b \<and> starts_with x y"
  by (auto simp: starts_with_def strncmp_eq_def)

lemma starts_with_refl: "starts_with (c @ x) c"
  by (induction c) (simp_all add: starts_with_simps)

lemma dispatch_prefixes:
  "list_all (\<lambda>i. list_all (\<lambda>j. \<forall>x. starts_with (fst (cmd_dispatch_info ! i) @ x) (fst (cmd_dispatch_info ! j)) \<longrightarrow>
     snd (cmd_dispatch_info ! i) = Cb_reboot \<and> starts_with x (cstr ''-bootloader'')) [0..<i]) [0..<10]"
  by (simp add: cmd_dispatch_info_def cstr_def starts_with_simps upt_rec)

text \<open>Each command of the table, followed by any argument, is dispatched to its own
  callback, except that \<open>reboot\<close> followed by \<open>-bootloader\<close> is the command \<open>reboot-bootloader\<close>.\<close>

lemma find_cb_table:
  assumes "(c, cb) \<in> set cmd_dispatch_info" "cb = Cb_reboot \<longrightarrow> \<not> starts_with arg (cstr ''-bootloader'')"
  shows "find_cb (c @ arg) = Some (c, cb)"
proof -
  have l: "length cmd_dispatch_info = 10" by (simp add: cmd_dispatch_info_def)
  obtain i where i: "i < 10" "cmd_dispatch_info ! i = (c, cb)" using assms(1) l by (metis in_set_conv_nth)
  have "\<forall>j \<in> {0..<i}. \<forall>x. starts_with (c @ x) (fst (cmd_dispatch_info ! j)) \<longrightarrow>
      cb = Cb_reboot \<and> starts_with x (cstr ''-bootloader'')"
    using bspec [OF dispatch_prefixes [unfolded list_all_iff], of i] i by (simp only: set_upt fst_conv snd_conv) simp
  then have "\<not> starts_with (c @ arg) (fst (cmd_dispatch_info ! j))" if "j < i" for j
    using that assms(2) by auto
  then show ?thesis
    unfolding find_cb_def find_Some_iff using i l starts_with_refl [of c arg]
    by (intro exI [of _ i]) (auto simp: case_prod_unfold)
qed



section \<open>Scripts end\<close>

lemma line_end_at_Some:
  "line_end_at r p m = Some q \<Longrightarrow> \<exists>i < m. q = p + of_nat i \<and> is_line_end (r q)"
proof (induction r p m rule: line_end_at.induct)
  case (2 r p k)
  show ?case
  proof (cases "is_line_end (r p)")
    case True
    then show ?thesis using 2(2) by (intro exI [of _ 0]) simp
  next
    case False
    then obtain i where "i < k" "q = p + 1 + of_nat i" "is_line_end (r q)" using 2 by auto
    then show ?thesis by (intro exI [of _ "Suc i"]) (simp add: ac_simps)
  qed
qed simp

lemma line_end_at_None:
  "line_end_at r p m = None \<Longrightarrow> i < m \<Longrightarrow> \<not> is_line_end (r (p + of_nat i))"
proof (induction r p m arbitrary: i rule: line_end_at.induct)
  case (2 r p k)
  then have "\<not> is_line_end (r p)" "line_end_at r (p + 1) k = None" by (simp_all split: if_splits)
  then show ?case using 2(1) [of "i - 1"] 2(3) by (cases i) (simp_all add: ac_simps)
qed simp

text \<open>A script of \<open>n\<close> bytes at \<open>b\<close> as \<open>util_run_script\<close> leaves it: a line end behind it (until the
  last line has been cut off there) and the end mark.  The position \<open>k\<close> is inside.\<close>

definition script_at :: "(u32 \<Rightarrow> byte) \<Rightarrow> u32 \<Rightarrow> nat \<Rightarrow> nat \<Rightarrow> bool" where
  "script_at r b n k \<longleftrightarrow> k \<le> n + 1 \<and> r (b + of_nat (n + 1)) = 37 \<and> (k \<le> n \<longrightarrow> is_line_end (r (b + of_nat n)))"

lemma line_end_found:
  assumes "script_at r b n k" "k \<le> n"
  shows "(\<exists>j. line_end_at r (b + of_nat k) m = Some (b + of_nat j) \<and> k \<le> j \<and> j \<le> n) \<or>
    (line_end_at r (b + of_nat k) m = None \<and> k + m \<le> n)"
proof (cases "line_end_at r (b + of_nat k) m")
  case None
  have "\<not> n - k < m"
    using line_end_at_None [OF None, of "n - k"] assms by (auto simp: script_at_def of_nat_diff)
  then show ?thesis using None assms(2) by linarith
next
  case (Some q)
  have "\<exists>j. q = b + of_nat j \<and> k \<le> j \<and> j \<le> n"
    using Some assms
  proof (induction "n - k" arbitrary: k m)
    case 0
    then have "k = n" "is_line_end (r (b + of_nat k))" by (auto simp: script_at_def)
    then show ?case using 0(2) by (cases m) auto
  next
    case (Suc d)
    show ?case
    proof (cases "is_line_end (r (b + of_nat k))")
      case True
      then show ?thesis using Suc.prems by (cases m) auto
    next
      case False
      then obtain m' where m': "m = Suc m'" "line_end_at r (b + of_nat (k + 1)) m' = Some q"
        using Suc.prems(1) by (cases m) (auto simp: ac_simps)
      have "script_at r b n (k + 1)" "k + 1 \<le> n" using Suc.prems(2) Suc.hyps(2) by (auto simp: script_at_def)
      then show ?thesis using Suc.hyps(1) [of "k + 1" m'] Suc.hyps(2) m'(2) by fastforce
    qed
  qed
  then show ?thesis using Some by blast
qed

text \<open>Skipping ends inside the script, or at a mark it has just written.\<close>

lemma strip_script_ends:
  assumes "script_at r b n k"
  shows "\<exists>r' k'. strip_script r (b + of_nat k) = Some (r', b + of_nat k') \<and> k \<le> k' \<and>
    (r' = r \<and> script_at r b n k' \<or> r' (b + of_nat k') = 37)"
  using assms
proof (induction "n + 1 - k" arbitrary: k rule: less_induct)
  case less
  let ?p = "b + of_nat k :: u32"
  consider "is_ignored_char (r ?p)" | "\<not> is_ignored_char (r ?p)" "r ?p = 35" | "\<not> is_ignored_char (r ?p)" "r ?p \<noteq> 35"
    by blast
  then show ?case
  proof cases
    case 1
    have "k \<noteq> n + 1" using 1 less.prems by (auto simp: script_at_def is_ignored_char_def)
    then have k: "k \<le> n" using less.prems by (simp add: script_at_def)
    then have s: "script_at r b n (k + 1)" using less.prems by (simp add: script_at_def)
    have d: "n + 1 - (k + 1) < n + 1 - k" using k by linarith
    obtain r' k' where r': "strip_script r (b + of_nat (k + 1)) = Some (r', b + of_nat k')" "k + 1 \<le> k'"
        "r' = r \<and> script_at r b n k' \<or> r' (b + of_nat k') = 37"
      using less.hyps [OF d s] by blast
    have "strip_script r ?p = Some (r', b + of_nat k')"
      using r'(1) 1 by (subst strip_script.simps) (simp add: ac_simps)
    then show ?thesis using r'(2,3) by fastforce
  next
    case 2
    note c = this
    have "k \<noteq> n + 1" using c less.prems by (auto simp: script_at_def)
    then have k: "k \<le> n" using less.prems by (simp add: script_at_def)
    consider j where "line_end_at r ?p (MAX_LINE_SIZE + 1) = Some (b + of_nat j)" "k \<le> j" "j \<le> n"
      | "line_end_at r ?p (MAX_LINE_SIZE + 1) = None"
      using line_end_found [OF less.prems k, of "MAX_LINE_SIZE + 1"] by (elim disjE exE conjE) auto
    then show ?thesis
    proof cases
      case (1 j)
      have "is_line_end (r (b + of_nat j))" using line_end_at_Some [OF 1(1)] by blast
      then have "j \<noteq> k" using c by (auto simp: is_line_end_def)
      then have "k < j" using 1(2) by linarith
      then have d: "n + 1 - j < n + 1 - k" using 1(3) by linarith
      have "script_at r b n j" using less.prems k 1(3) by (simp add: script_at_def)
      then obtain r' k' where r': "strip_script r (b + of_nat j) = Some (r', b + of_nat k')" "j \<le> k'"
          "r' = r \<and> script_at r b n k' \<or> r' (b + of_nat k') = 37"
        using less.hyps [OF d] by blast
      have "strip_script r ?p = Some (r', b + of_nat k')"
        using r'(1) c 1(1) by (subst strip_script.simps) simp
      then show ?thesis using r'(2,3) \<open>k < j\<close> by fastforce
    next
      case 2
      have "strip_script r ?p = Some (r(?p + of_nat (MAX_LINE_SIZE + 1) := 37), ?p + of_nat (MAX_LINE_SIZE + 1))"
        using c 2 by (subst strip_script.simps) simp
      then show ?thesis by (intro exI [of _ "r(?p + of_nat (MAX_LINE_SIZE + 1) := 37)"] exI [of _ "k + (MAX_LINE_SIZE + 1)"])
          (simp add: ac_simps)
    qed
  next
    case 3
    then show ?thesis using less.prems by (subst strip_script.simps) auto
  qed
qed

lemma get_script_next_line_ends:
  assumes "script_at r b n k" "n + 1 < 2 ^ 32"
  shows "\<exists>r' next. get_script_next_line r (b + of_nat k) = Some (r', next) \<and>
    (\<forall>line q. next = Some (line, q) \<longrightarrow> (\<exists>k'. q = b + of_nat k' \<and> k < k' \<and> script_at r' b n k'))"
proof -
  obtain r1 k1 where s: "strip_script r (b + of_nat k) = Some (r1, b + of_nat k1)" "k \<le> k1"
      "r1 = r \<and> script_at r b n k1 \<or> r1 (b + of_nat k1) = 37"
    using strip_script_ends [OF assms(1)] by blast
  show ?thesis
  proof (cases "r1 (b + of_nat k1) = 37")
    case True
    then show ?thesis using s(1) by (simp add: get_script_next_line_def)
  next
    case False
    then have k1: "r1 = r" "script_at r b n k1" using s(3) by auto
    then have "k1 \<le> n" using False by (auto simp: script_at_def le_Suc_eq)
    note k1n = this
    consider j where "line_end_at r (b + of_nat k1) (MAX_LINE_SIZE + 1) = Some (b + of_nat j)" "k1 \<le> j" "j \<le> n"
      | "line_end_at r (b + of_nat k1) (MAX_LINE_SIZE + 1) = None"
      using line_end_found [OF k1(2) k1n, of "MAX_LINE_SIZE + 1"] by (elim disjE exE conjE) auto
    then show ?thesis
    proof cases
      case (1 j)
      have ne: "b + of_nat i \<noteq> b + (of_nat j :: u32)" if "i \<noteq> j" "i \<le> n + 1" for i
      proof
        assume "b + of_nat i = b + (of_nat j :: u32)"
        then have "unat (of_nat i :: u32) = unat (of_nat j :: u32)" by simp
        then show False using that 1(3) assms(2) by (simp add: unat_of_nat)
      qed
      have "script_at (r(b + of_nat j := 0)) b n (j + 1)"
        using k1(2) 1(2,3) ne [of "n + 1"] ne [of n] by (auto simp: script_at_def)
      then show ?thesis
        using s(1,2) False k1(1) 1 unfolding get_script_next_line_def
        by (auto intro!: exI [of _ "j + 1"] simp: ac_simps)
    next
      case 2
      then show ?thesis using s(1) False k1(1) by (simp add: get_script_next_line_def)
    qed
  qed
qed

text \<open>The console leaves the memory of the script alone.\<close>

definition ram_kept :: "fb_hw \<Rightarrow> bool" where
  "ram_kept hw \<longleftrightarrow> (\<forall>c w. ram (fbs (snd (hw_run hw c w))) = ram (fbs w))"

lemma run_command_ram: "ram_kept hw \<Longrightarrow> ram (fbs (snd (run_command hw c w))) = ram (fbs w)"
  unfolding ram_kept_def run_command_def by (simp add: case_prod_unfold)

lemma script_loop_ends:
  assumes "ram_kept hw" "n + 1 < 2 ^ 32" "script_at (ram (fbs w)) b n k"
  shows "\<exists>x. script_loop hw abort (b + of_nat k) w = Some x"
  using assms(3)
proof (induction "n + 1 - k" arbitrary: k w rule: less_induct)
  case less
  obtain r' nx where g: "get_script_next_line (ram (fbs w)) (b + of_nat k) = Some (r', nx)"
      "\<And>line q. nx = Some (line, q) \<Longrightarrow> \<exists>k'. q = b + of_nat k' \<and> k < k' \<and> script_at r' b n k'"
    using get_script_next_line_ends [OF less.prems assms(2)] by blast
  show ?case
  proof (cases nx)
    case None
    then show ?thesis using g(1) by (subst script_loop.simps) simp
  next
    case (Some lq)
    then obtain line k' where lq: "lq = (line, b + of_nat k')" "k < k'" "script_at r' b n k'"
      using g(2) by (cases lq) blast
    obtain c w' where w': "run_command hw line (on_fb (\<lambda>s. s\<lparr>ram := r'\<rparr>) w) = (c, w')" by fastforce
    have "ram (fbs w') = r'"
      using run_command_ram [OF assms(1), of line "on_fb (\<lambda>s. s\<lparr>ram := r'\<rparr>) w"] w' by simp
    then have "\<exists>x. script_loop hw abort (b + of_nat k') w' = Some x"
      using less.hyps [of k' w'] lq(2,3) by (auto simp: script_at_def)
    then show ?thesis using g(1) Some lq(1) w' by (subst script_loop.simps) (auto split: prod.splits)
  qed
qed



end
