(* ===== verification/Spec2Isabelle.thy ===== *)
theory Spec2Isabelle
  imports Idme_Export Image_Verify Boot_Control Fastboot_Handler
begin

text \<open>
  This development verifies the device-specific part of the boot chain of the margo board: the code
  under \<^verbatim>\<open>src/bootable/bootloader/ufbl-features\<close> that several boot loaders share, and what the U-Boot tree
  under \<^verbatim>\<open>src/bootable/bootloader/uboot-mstar/t1/u-boot-2011.06\<close> adds for this board.  In the following
  \<^verbatim>\<open>ufbl\<close> and \<^verbatim>\<open>u-boot\<close> stand for these two directories.

  \<^bold>\<open>The program.\<close>  Each device has an eMMC boot partition with a table of named items (IDME: serial
  number, MAC address, boot mode, flags, unlock code).  At start-up the boot loader loads the table,
  migrates it to the layout of the current version, counts the boot, and sets its environment from it.
  A production device is locked: it boots only kernels whose certificate verifies, and its console and
  fastboot commands are restricted, until an unlock code signed for this device is stored in the table.
  A host talks to the boot loader by fastboot over UDP: it downloads an image in numbered packets, and
  sends commands that flash it, change the table, or set flags.  A second block, in the misc partition,
  selects one of two system slots and counts failed boots.

  \<^bold>\<open>How it is modelled.\<close>  The C functions are translated one by one.  Machine integers are words of
  their width; an object in memory is a function from offsets to bytes together with its size, a short
  buffer or a string the list of its bytes, the memory of the download a function on 32-bit addresses.
  A result of type \<open>option\<close> is \<open>None\<close> when the C code is undefined (an access outside an object, a null
  pointer, a division by zero, an overflow of a signed number) or, for the loops written with
  \<open>partial_function\<close>, when it does not return; return codes are integers.  Global variables are records
  that are passed and returned.  What lies outside the sources, or is hardware, is a parameter: the eMMC
  (every access has a number and may fail, a failed write may leave anything), the board registers, RSA and
  SHA-256, the DER decoder and the big numbers of LibTomCrypt, the console interpreter, the MMC driver.
  No bound is chosen for any loop: each is a structural recursion, a recursion with a termination proof,
  or a \<open>partial_function\<close> for which returning is proved where it is claimed.

  \<^bold>\<open>The theories.\<close>

  \<^item> \<open>Boot_Prelude\<close>: machine types, access to objects, the C library routines the code calls.
    \<open>Number_Text\<close>: printing of numbers and the parsers of \<^verbatim>\<open>u-boot/lib/vsprintf.c\<close> (\<open>simple_strtoul\<close>,
    \<open>simple_strtol\<close>, \<open>atoi\<close>).
  \<^item> \<open>Store_Spec\<close>: the locale \<open>item_store\<close>, the contract of a store of named items of fixed size, with what
    any client may conclude for a sequence of writes.  It is interpreted twice: as \<open>idme\<close> by the operations on
    a buffer (\<open>Idme_V2\<close>), and as \<open>store\<close> by the operations on the device, where reading means reading after a
    power cycle (\<open>Idme_Store\<close>).
  \<^item> \<open>Idme_V2\<close> (\<^verbatim>\<open>ufbl/features/idme/cmd_idme_v2_0.c\<close>, the table of \<^verbatim>\<open>idme_default_table_margo.h\<close>): the table
    byte by byte.  \<open>idme_rep m its\<close> says that the buffer holds the list of items \<open>its\<close>.  C1: any sequence of
    updates reads back.  C2, C3: update and lookup on every branch.  C4: building the default table.  C5:
    migration keeps every stored item.  C6: the margo defaults contain a null pointer.
  \<^item> \<open>Idme_Export\<close>: the listing for the host and the copy for the kernel.  C7: the three secret items do not
    reach the host.  C8: only exportable items reach the kernel.
  \<^item> \<open>Idme_Store\<close> (\<^verbatim>\<open>ufbl/features/idme/cmd_idme.c\<close>, \<^verbatim>\<open>idme_platform_mstar.c\<close>): the module with its buffer, its
    function pointers and the partition, and the command \<open>idme\<close>.  C9: initialisation.  C10: a failed read goes
    unnoticed and the partition is overwritten.  C11: updates survive a power cycle.  C12: the boot counter.
    C13: too many words overrun the argument array.  C14: the command sets exactly the named item.
  \<^item> \<open>Margo_Board\<close> (\<^verbatim>\<open>u-boot/board/margo/setup.c\<close>, \<^verbatim>\<open>secure_boot_cfg.c\<close>, \<^verbatim>\<open>ufbl/features/unlock\<close>, parts of
    \<^verbatim>\<open>u-boot/arch/arm/lib/board.c\<close> and \<^verbatim>\<open>MstarApp/src/MsUtility.c\<close>): device type, unlock code, lockdown, the check
    of a new first-stage loader, the boot command, the environment set from IDME.  C15: unlocked means signed.
    C16: the unlock code identifies the device.  C17: the loader check.  C18: the boot command.
  \<^item> \<open>Kernel_Cert\<close>, \<open>Image_Verify\<close> (\<^verbatim>\<open>ufbl/features/secure_boot/image_verify.c\<close>, \<^verbatim>\<open>image_verify_ltc.c\<close>, the gate in
    \<^verbatim>\<open>u-boot/common/cmd_bootm.c\<close>): the two root certificates, and the check of a kernel image against the
    certificate behind it; a decoded certificate is a tree.  C33: a signature fits one digest.  C34: what a locked
    device boots.  C35: the verdicts.  C36: a certificate with too many parts.  C37: the bits of a signature.
  \<^item> \<open>Fastboot_Packet\<close>, \<open>Fastboot_Session\<close> (\<^verbatim>\<open>u-boot/common/cmd_fastboot.c\<close>): packet fields, responses, the
    bitmap, and the download session as a step relation over arbitrary sequences of data packets.  C19: the session
    is correct under loss, repetition and reordering.  C20: it completes.  C21: unchecked packet numbers.  C22: the
    response buffer.  C23: the search for the next missing packet.
  \<^item> \<open>Fastboot_Cmd\<close>: the commands, the script interpreter, the dispatch with its lockdown gate, and the packet
    handler \<open>fb_udp_handler\<close>.  C24: lockdown.  C25, C26: flags.  C27: unlock and relock.
  \<^item> \<open>Fastboot_Handler\<close>: the locale \<open>command_invariant\<close>, a property that every command keeps, interpreted for the
    variables of the link (\<open>link\<close>) and for their well-formedness (\<open>wf\<close>).  C28: a command is executed once.  C29:
    every packet keeps the variables well-formed.  C30: the negotiated packet size.  C31: scripts end.  C32: long
    partition names.
  \<^item> \<open>Boot_Control\<close> (\<^verbatim>\<open>ufbl/features/bcb\<close>): the block in the misc partition, its byte layout with bit-fields, the
    choice of the slot and the command \<open>bcb\<close>.  \<open>ufbl_get_active_slot\<close> refines a function of the block
    (\<open>get_active_refines\<close>).  C38: the fallback when boots fail.  C39: setting the active slot.
  \<^item> This theory: C40, from the command that stores an unlock code, over a power cycle, to the boot.

  \<^bold>\<open>Assumptions.\<close>  Theorems about the device name what they need of it: \<open>io_ok\<close> and \<open>io_safe\<close> of the eMMC,
  \<open>pl_good\<close> of the misc partition.  Those about fastboot commands need that the console leaves certain
  variables alone (\<open>env_only\<close>, \<open>link_kept\<close>, \<open>wf_kept\<close>, \<open>ram_kept\<close>).  Each such theorem has a witness on
  concrete parameters.

  \<^bold>\<open>Not modelled.\<close>  Output on the serial console, which no result depends on.  The export of IDME to the
  device tree, which only calls a device tree library.  The IDME and verification layers of other boards
  (\<^verbatim>\<open>idme_platform_*.c\<close>, \<^verbatim>\<open>image_verify_openssl.c\<close>) and the features this board does not enable.  Freeing of
  memory.  The first-stage loader, the rest of U-Boot with its drivers, file systems and network stack, and the
  MStar libraries, which are hardware access or general code that the parts above only call.  The Linux kernel,
  which is upstream code and device drivers.
\<close>

lemma flash_unlock_command:
  assumes "lockdown hw w = Some l"
  shows "fb_handler_command hw (cstr ''flash:unlock'') w = cmd_flash hw (cstr ''unlock'') 6 (on_fb fb_init_resp w)"
proof -
  let ?c = "cstr ''flash:unlock''"
  have c: "?c = cstr ''flash:'' @ cstr ''unlock''" "takeWhile (\<lambda>x. x \<noteq> 0) ?c = ?c" "length ?c = 12"
    "length (cstr ''flash:'') = 6" "drop 6 ?c = cstr ''unlock''"
    by (simp_all add: cstr_def)
  have "find_cb (cstr ''flash:'' @ cstr ''unlock'') = Some (cstr ''flash:'', Cb_flash)"
    by (rule find_cb_table) (simp_all add: cmd_dispatch_info_def)
  then have "find_cb ?c = Some (cstr ''flash:'', Cb_flash)" by (simp only: c(1))
  then show ?thesis
    using assms c(3-5) unfolding fb_handler_command_def Let_def c(2)
    by (simp add: lockdown_cbs_def call_cb_def)
qed

text \<open>C40: unlocking, from the packet to the boot.  On a device with a working store, the command
  \<open>flash:unlock\<close> with a downloaded code that passes the signature check is accepted whether or not the
  device is in lockdown; after a power cycle and a fresh initialisation of IDME the device is unlocked,
  not in lockdown, and boots every kernel image.\<close>

theorem unlock_survives_power_cycle:
  assumes "store_rep (idm w) its" "lookup_item its (cstr ''unlock_code'') = Some it" "256 \<le> length (idata it)"
    and "hw_emmc hw = good_emmc" "download_addr (fbs w) \<noteq> 0" "dl_received (fbs w) = 256"
    and "amzn_verify_unlock (hw_board hw) (Some (downloaded 256 w)) = Some 0"
  shows "\<exists>w1 st. fb_handler_command hw (cstr ''flash:unlock'') w = Some w1 \<and>
    idme_initialize idme_default_values True good_emmc (power_cycle junk (idm w1)) = Some (0, st) \<and>
    amzn_device_is_unlocked (hw_board hw) st = Some True \<and> is_lockdown (hw_board hw) st e = Some False \<and>
    boot_get_kernel_gate c (hw_board hw) st img n = Some True"
proof -
  let ?n = "cstr ''unlock_code''" and ?code = "downloaded 256 w" and ?w = "on_fb fb_init_resp w"
  have ok: "unlock_ok (hw_board hw) ?code" using assms(7) by (simp add: amzn_verify_unlock_iff split: if_splits)
  have lc: "length ?code = 256" by (simp add: downloaded_def ram_read_def)
  obtain l where l: "lockdown hw w = Some l"
    using amzn_device_is_unlocked_rep [OF _ _ _ assms(2,3)] assms(1)
    by (fastforce simp: lockdown_def is_lockdown_def store_rep_def)
  obtain st1 where st1: "idme_update_var_ex good_emmc (Some ?n) (Some ?code) 256 (idm w) = Some (0, st1)"
      "store_rep st1 (modify_item its ?n (fit ?code))"
    using store_put_ex [OF assms(1) is_cstr_unlock_code, of ?code] assms(2) lc
    by (auto simp: store_put_def split: if_splits bind_splits)
  have fb: "download_addr (fb_init_resp (fbs w)) = download_addr (fbs w)" "dl_received (fb_init_resp (fbs w)) = dl_received (fbs w)"
      "downloaded 256 ?w = ?code"
    by (simp_all add: fb_init_resp_def downloaded_def)
  have "cmd_flash hw (cstr ''unlock'') 6 ?w = Some (?w\<lparr>idm := st1\<rparr>)"
    using assms(4-7) st1(1) fb by (simp add: cmd_flash_def flash_unlock_def starts_with_def strncmp_eq_def SIGNED_UNLOCK_CODE_LEN_def)
  then have cmd: "fb_handler_command hw (cstr ''flash:unlock'') w = Some (?w\<lparr>idm := st1\<rparr>)"
    using flash_unlock_command [OF l] by simp
  obtain st where st: "idme_initialize idme_default_values True good_emmc (power_cycle junk st1) = Some (0, st)"
      "pidme_data st" "idme_funcs st" "gidme_buff st = boot_part st1"
    using store_reinit [OF st1(2)] by blast
  have rep: "idme_rep (gidme_buff st) (modify_item its ?n (fit ?code))" using st(4) st1(2) by (simp add: store_rep_def)
  have "lookup_item (modify_item its ?n (fit ?code)) ?n = Some (it\<lparr>idata := fit ?code (idata it)\<rparr>)"
    using assms(2) by (simp add: lookup_modify)
  then have u: "amzn_device_is_unlocked (hw_board hw) st = Some True"
    using amzn_device_is_unlocked_rep [OF st(2,3) rep] assms(3) lc ok by (simp add: fit_def)
  then have "is_lockdown (hw_board hw) st e = Some False" "boot_get_kernel_gate c (hw_board hw) st img n = Some True"
    by (simp_all add: is_lockdown_def boot_get_kernel_gate_def)
  then show ?thesis using cmd st(1) u by auto
qed

theorem unlock_survives_power_cycle_witness:
  "\<exists>w1 st. fb_handler_command demo_hw (cstr ''flash:unlock'') demo_unlock_world = Some w1 \<and>
    idme_initialize idme_default_values True good_emmc (power_cycle (\<lambda>_. 255) (idm w1)) = Some (0, st) \<and>
    amzn_device_is_unlocked demo_board st = Some True"
proof -
  let ?w = demo_unlock_world and ?it = "default_item (entry ''unlock_code'' 1024 1 (Some []))"
  have rep: "store_rep (idm ?w) (map default_item margo_full)"
    using running_store by (simp add: demo_unlock_world_def demo_world_def)
  have d: "256 \<le> length (idata ?it)" by (simp add: default_item_def entry_def fit_def cstr_def)
  have hw: "hw_emmc demo_hw = good_emmc" "hw_board demo_hw = demo_board" by (simp_all add: demo_hw_def)
  have a: "download_addr (fbs ?w) \<noteq> 0" "dl_received (fbs ?w) = 256"
    by (simp_all add: demo_unlock_world_def demo_world_def demo_fb_def)
  have v: "amzn_verify_unlock (hw_board demo_hw) (Some (downloaded 256 ?w)) = Some 0"
    using demo_code_accepted by (simp add: amzn_verify_unlock_iff demo_downloaded hw)
  show ?thesis
    using unlock_survives_power_cycle [OF rep full_unlock_code d hw(1) a v] unfolding hw(2) by blast
qed
end
